(* ===== verification/Go_Prelude.thy ===== *)
theory Go_Prelude
  imports Main "HOL-Library.Sublist"
begin

text \<open>
  The prelude of the development: the theorem collections, the pieces of the Go language that
  every component shares (strings as byte lists, nil pointers as options, a call that returns a
  pair of a pointer and an error, a call that may panic) and the functions of the Go package
  \<^verbatim>\<open>strings\<close> that the repository calls (\<open>Index\<close>, \<open>LastIndex\<close>, \<open>Contains\<close>, \<open>Split\<close>, \<open>ReplaceAll\<close>,
  \<open>Join\<close>), with the facts about them that the component theories use.

  A Go string is a sequence of bytes, as is the type \<^typ>\<open>string\<close> (a list of 8-bit characters).
\<close>

named_theorems outcome_simps \<open>rewriting of the outcomes of a call: returned or panicked\<close>
named_theorems go_strings \<open>facts about the functions of the package strings\<close>

section \<open>Calls that return or panic\<close>

text \<open>
  A call either returns a value or panics (a nil pointer dereference, an index out of range).
  The panic carries the reason; deferred functions run in both cases, so the state that goes
  with the outcome is passed beside it, never inside it.
\<close>

datatype 'a outcome = Return 'a | Panic string

fun returned :: "'a outcome \<Rightarrow> bool" where
  "returned (Return _) = True"
| "returned (Panic _) = False"

lemma returned_iff [outcome_simps]: "returned r \<longleftrightarrow> (\<exists>v. r = Return v)"
  by (cases r) auto

lemma not_returned_iff [outcome_simps]: "\<not> returned r \<longleftrightarrow> (\<exists>p. r = Panic p)"
  by (cases r) auto

fun bind_outcome :: "'a outcome \<Rightarrow> ('a \<Rightarrow> 'b outcome) \<Rightarrow> 'b outcome" where
  "bind_outcome (Return v) f = f v"
| "bind_outcome (Panic p) f = Panic p"

lemma bind_outcome_Return_iff [outcome_simps]:
  "bind_outcome r f = Return v \<longleftrightarrow> (\<exists>u. r = Return u \<and> f u = Return v)"
  by (cases r) auto

text \<open>The slice expression \<open>s[lo:hi]\<close>, which panics when the bounds are out of range.\<close>

definition go_slice :: "string \<Rightarrow> int \<Rightarrow> int \<Rightarrow> string outcome" where
  "go_slice s lo hi =
     (if 0 \<le> lo \<and> lo \<le> hi \<and> hi \<le> int (length s)
      then Return (take (nat hi - nat lo) (drop (nat lo) s))
      else Panic ''slice bounds out of range'')"

text \<open>The index expression \<open>xs[i]\<close>.\<close>

definition go_index :: "'a list \<Rightarrow> int \<Rightarrow> 'a outcome" where
  "go_index xs i =
     (if 0 \<le> i \<and> i < int (length xs) then Return (xs ! nat i)
      else Panic ''index out of range'')"

section \<open>The package strings\<close>

text \<open>\<open>find_sub sub s\<close> is the position of the first occurrence of \<open>sub\<close> in \<open>s\<close>.\<close>

fun find_sub :: "string \<Rightarrow> string \<Rightarrow> nat option" where
  "find_sub sub [] = (if sub = [] then Some 0 else None)"
| "find_sub sub (c # s) =
     (if prefix sub (c # s) then Some 0 else map_option Suc (find_sub sub s))"

definition Index :: "string \<Rightarrow> string \<Rightarrow> int" where
  "Index s sub = (case find_sub sub s of None \<Rightarrow> -1 | Some i \<Rightarrow> int i)"

fun find_last :: "string \<Rightarrow> string \<Rightarrow> nat option" where
  "find_last sub [] = (if sub = [] then Some 0 else None)"
| "find_last sub (c # s) =
     (case find_last sub s of
        Some i \<Rightarrow> Some (Suc i)
      | None \<Rightarrow> if prefix sub (c # s) then Some 0 else None)"

definition LastIndex :: "string \<Rightarrow> string \<Rightarrow> int" where
  "LastIndex s sub = (case find_last sub s of None \<Rightarrow> -1 | Some i \<Rightarrow> int i)"

definition Contains :: "string \<Rightarrow> string \<Rightarrow> bool" where
  "Contains s sub \<longleftrightarrow> 0 \<le> Index s sub"

text \<open>
  \<open>Split\<close> and \<open>ReplaceAll\<close> are called with a non-empty separator everywhere in the repository;
  the guard on the empty one only makes the recursion total.
\<close>

lemma find_sub_bound: "find_sub sub s = Some i \<Longrightarrow> i + length sub \<le> length s"
  by (induction sub s arbitrary: i rule: find_sub.induct)
    (auto split: if_splits dest: prefix_length_le)

function Split :: "string \<Rightarrow> string \<Rightarrow> string list" where
  "Split s sep =
     (if sep = [] then [s]
      else case find_sub sep s of
             None \<Rightarrow> [s]
           | Some i \<Rightarrow> take i s # Split (drop (i + length sep) s) sep)"
  by pat_completeness auto
termination
proof (relation "measure (\<lambda>(s, sep). length s)")
  fix s sep i
  assume "sep \<noteq> ([] :: string)" "find_sub sep s = Some i"
  then show "((drop (i + length sep) s, sep), (s, sep)) \<in> measure (\<lambda>(s, sep). length s)"
    using find_sub_bound [of sep s i] by (cases sep) auto
qed simp

declare Split.simps [simp del]

function ReplaceAll :: "string \<Rightarrow> string \<Rightarrow> string \<Rightarrow> string" where
  "ReplaceAll s old new =
     (if old = [] then s
      else case s of
             [] \<Rightarrow> []
           | c # cs \<Rightarrow>
               if prefix old s then new @ ReplaceAll (drop (length old) s) old new
               else c # ReplaceAll cs old new)"
  by pat_completeness auto
termination
proof (relation "measure (\<lambda>(s, old, new). length s)", goal_cases)
  case (2 s old new c cs)
  then show ?case by (cases old) auto
qed auto

declare ReplaceAll.simps [simp del]

fun Join :: "string list \<Rightarrow> string \<Rightarrow> string" where
  "Join [] sep = []"
| "Join [x] sep = x"
| "Join (x # xs) sep = x @ sep @ Join xs sep"

subsection \<open>Facts about the package strings\<close>

lemma find_sub_Some:
  "find_sub sub s = Some i \<Longrightarrow> s = take i s @ sub @ drop (i + length sub) s"
  by (induction sub s arbitrary: i rule: find_sub.induct)
    (auto split: if_splits simp: prefix_def)

lemma find_sub_None_iff: "find_sub sub s = None \<longleftrightarrow> \<not> sublist sub s"
  by (induction sub s rule: find_sub.induct) (auto simp: sublist_Cons_right)

lemma Contains_iff_sublist [go_strings]: "Contains s sub \<longleftrightarrow> sublist sub s"
  using find_sub_None_iff [of sub s]
  by (auto simp: Contains_def Index_def split: option.splits)

lemma find_sub_single: "find_sub [c] (p @ c # q) = Some (length p)" if "c \<notin> set p"
  using that by (induction p) auto

lemma find_sub_single_None: "find_sub [c] s = None \<longleftrightarrow> c \<notin> set s"
  by (induction s) auto

lemma find_last_single_None: "find_last [c] s = None \<longleftrightarrow> c \<notin> set s"
  by (induction s) (auto split: option.splits)

lemma find_last_single: "find_last [c] (p @ c # q) = Some (length p)" if "c \<notin> set q"
  using that by (induction p) (auto split: option.splits simp: find_last_single_None)

lemma Index_single [go_strings]: "c \<notin> set p \<Longrightarrow> Index (p @ c # q) [c] = int (length p)"
  by (simp add: Index_def find_sub_single)

lemma LastIndex_single [go_strings]: "c \<notin> set q \<Longrightarrow> LastIndex (p @ c # q) [c] = int (length p)"
  by (simp add: LastIndex_def find_last_single)

lemma Split_single_hit [go_strings]: "c \<notin> set p \<Longrightarrow> Split (p @ c # q) [c] = p # Split q [c]"
  by (subst Split.simps) (simp add: find_sub_single)

lemma Split_single_miss [go_strings]: "c \<notin> set s \<Longrightarrow> Split s [c] = [s]"
  using find_sub_single_None [of c s] by (subst Split.simps) simp

lemma Split_ne [go_strings]: "Split s sep \<noteq> []"
  by (subst Split.simps) (auto split: option.splits)

lemma hd_Split_single [go_strings]: "hd (Split s [c]) = takeWhile (\<lambda>x. x \<noteq> c) s"
proof (cases "c \<in> set s")
  case True
  then obtain p q where s: "s = p @ c # q" and "c \<notin> set p"
    using split_list_first by fastforce
  then show ?thesis by (simp add: Split_single_hit takeWhile_append)
next
  case False
  then have "s = takeWhile (\<lambda>x. x \<noteq> c) s"
    by (induction s) auto
  with False show ?thesis by (metis Split_single_miss list.sel(1))
qed

lemma Join_Cons: "xs \<noteq> [] \<Longrightarrow> Join (x # xs) sep = x @ sep @ Join xs sep"
  by (cases xs) auto

lemma Join_Split [go_strings]: "sep \<noteq> [] \<Longrightarrow> Join (Split s sep) sep = s"
proof (induction s sep rule: Split.induct)
  case (1 s sep)
  show ?case
  proof (cases "find_sub sep s")
    case None
    then show ?thesis using "1.prems" by (subst Split.simps) simp
  next
    case (Some i)
    have "Join (Split s sep) sep = take i s @ sep @ Join (Split (drop (i + length sep) s) sep) sep"
      using Some "1.prems" by (subst Split.simps) (simp add: Join_Cons Split_ne)
    also have "\<dots> = s"
      using "1.IH" [OF "1.prems" Some] "1.prems" find_sub_Some [OF Some] by simp
    finally show ?thesis .
  qed
qed

lemma Split_Join:
  assumes "xs \<noteq> []" "\<And>x. x \<in> set xs \<Longrightarrow> c \<notin> set x"
  shows "Split (Join xs [c]) [c] = xs"
  using assms
proof (induction xs rule: list_nonempty_induct)
  case (single x)
  then show ?case by (simp add: Split_single_miss)
next
  case (cons x xs)
  then show ?case by (simp add: Join_Cons Split_single_hit)
qed

lemma Split_no_sep: "x \<in> set (Split s [c]) \<Longrightarrow> c \<notin> set x"
proof (induction s "[c]" rule: Split.induct)
  case (1 s)
  show ?case
  proof (cases "c \<in> set s")
    case True
    then obtain p q where s: "s = p @ c # q" and p: "c \<notin> set p" using split_list_first by fastforce
    then have f: "find_sub [c] s = Some (length p)" by (simp add: find_sub_single)
    have "x = p \<or> x \<in> set (Split q [c])" using "1.prems" s p by (simp add: Split_single_hit)
    then show ?thesis using "1.hyps" [OF _ f] p s by auto
  next
    case False
    then show ?thesis using "1.prems" by (simp add: Split_single_miss)
  qed
qed

lemma Join_snoc: "xs \<noteq> [] \<Longrightarrow> Join (xs @ [x]) sep = Join xs sep @ sep @ x"
  by (induction xs rule: list_nonempty_induct) (simp_all add: Join_Cons)

lemma Split_snoc:
  assumes "c \<notin> set e"
  shows "Split (p @ c # e) [c] = Split p [c] @ [e]"
proof -
  have "Join (Split p [c] @ [e]) [c] = p @ c # e"
    using Join_snoc [OF Split_ne, of p "[c]" e "[c]"] Join_Split [of "[c]" p] by simp
  moreover have "Split (Join (Split p [c] @ [e]) [c]) [c] = Split p [c] @ [e]"
    using assms by (intro Split_Join) (auto dest: Split_no_sep)
  ultimately show ?thesis by simp
qed

lemma hd_Join: "e \<noteq> '''' \<Longrightarrow> Join (e # es) sep \<noteq> '''' \<and> hd (Join (e # es) sep) = hd e"
  by (cases "es = []") (simp_all add: Join_Cons)

lemma ReplaceAll_Nil [simp]: "ReplaceAll [] old new = []"
  by (subst ReplaceAll.simps) simp

lemma ReplaceAll_miss [go_strings]: "\<not> sublist old s \<Longrightarrow> ReplaceAll s old new = s"
  by (induction s) (auto simp: ReplaceAll.simps [of "_ # _"] sublist_Cons_right)

lemma ReplaceAll_prefix [go_strings]:
  "old \<noteq> [] \<Longrightarrow> ReplaceAll (old @ s) old new = new @ ReplaceAll s old new"
  by (cases old) (auto simp: ReplaceAll.simps [of "_ # _"])

lemma ReplaceAll_step [go_strings]:
  "\<not> prefix old (c # s) \<Longrightarrow> ReplaceAll (c # s) old new = c # ReplaceAll s old new"
  by (subst ReplaceAll.simps) auto

end
