(* ===== verification/Go_Encoding.thy ===== *)
theory Go_Encoding
  imports Go_Prelude "HOL-Library.Word"
begin

text \<open>
  The two encodings of the Go standard library the machine scope uses: the IEEE CRC-32 checksum
  of \<^verbatim>\<open>hash/crc32\<close> (with the conversion of the checksum to \<open>int\<close> and the truncating remainder that
  turn it into a slice index) and the standard base64 encoding of \<^verbatim>\<open>encoding/base64\<close>.
  The decoder is not part of the repository: it states what the encoding means.
\<close>

unbundle bit_operations_syntax

section \<open>CRC-32\<close>

text \<open>The reflected IEEE polynomial, and one bit and one byte of the checksum.\<close>

definition IEEE_poly :: "32 word" where
  "IEEE_poly = 0xEDB88320"

definition crc_bit :: "32 word \<Rightarrow> 32 word" where
  "crc_bit w = (if odd w then drop_bit 1 w XOR IEEE_poly else drop_bit 1 w)"

definition crc_byte :: "32 word \<Rightarrow> char \<Rightarrow> 32 word" where
  "crc_byte w c = (crc_bit ^^ 8) (w XOR of_char c)"

definition ChecksumIEEE :: "string \<Rightarrow> 32 word" where
  "ChecksumIEEE s = NOT (foldl crc_byte (NOT 0) s)"

text \<open>
  \<open>int(x)\<close> of a \<open>uint32\<close> on a platform with 64-bit \<open>int\<close> (the Makefile builds for amd64), and Go's
  remainder, which truncates towards zero.
\<close>

definition int_of_uint32 :: "32 word \<Rightarrow> int" where
  "int_of_uint32 w = sint (ucast w :: 64 word)"

definition go_rem :: "int \<Rightarrow> int \<Rightarrow> int" where
  "go_rem a b = sgn a * (\<bar>a\<bar> mod \<bar>b\<bar>)"

lemma int_of_uint32_uint: "int_of_uint32 w = uint w"
proof -
  have bound: "uint w < 2 ^ 32"
    using uint_lt2p [of w] by simp
  have "uint (ucast w :: 64 word) = uint w"
    by (simp add: uint_up_ucast is_up)
  then have "int_of_uint32 w = signed_take_bit 63 (uint w)"
    by (simp add: int_of_uint32_def sint_uint)
  also have "\<dots> = uint w"
    using bound by (intro signed_take_bit_int_eq_self) (auto intro: order_trans [of _ 0])
  finally show ?thesis .
qed

lemma go_rem_bounds: "0 \<le> a \<Longrightarrow> 0 < b \<Longrightarrow> 0 \<le> go_rem a b \<and> go_rem a b < b"
  by (cases "a = 0") (auto simp: go_rem_def)

lemma crc_index_bounds:
  "0 < n \<Longrightarrow> 0 \<le> go_rem (int_of_uint32 w) (int n) \<and> go_rem (int_of_uint32 w) (int n) < int n"
  by (rule go_rem_bounds) (auto simp: int_of_uint32_uint)

section \<open>Base64\<close>

definition base64_alphabet :: string where
  "base64_alphabet = ''ABCDEFGHIJKLMNOPQRSTUVWXYZabcdefghijklmnopqrstuvwxyz0123456789+/''"

definition b64_char :: "nat \<Rightarrow> char" where
  "b64_char n = base64_alphabet ! n"

fun EncodeToString :: "string \<Rightarrow> string" where
  "EncodeToString [] = []"
| "EncodeToString [a] =
     [b64_char (of_char a div 4), b64_char (of_char a mod 4 * 16), CHR ''='', CHR ''='']"
| "EncodeToString [a, b] =
     [b64_char (of_char a div 4), b64_char (of_char a mod 4 * 16 + of_char b div 16),
      b64_char (of_char b mod 16 * 4), CHR ''='']"
| "EncodeToString (a # b # c # cs) =
     b64_char (of_char a div 4) # b64_char (of_char a mod 4 * 16 + of_char b div 16) #
     b64_char (of_char b mod 16 * 4 + of_char c div 64) # b64_char (of_char c mod 64) #
     EncodeToString cs"

text \<open>The value of a base64 digit, and the decoder that gives the encoding its meaning.\<close>

fun position :: "'a \<Rightarrow> 'a list \<Rightarrow> nat option" where
  "position x [] = None"
| "position x (y # ys) = (if x = y then Some 0 else map_option Suc (position x ys))"

definition b64_value :: "char \<Rightarrow> nat option" where
  "b64_value c = position c base64_alphabet"

fun DecodeString :: "string \<Rightarrow> string option" where
  "DecodeString [] = Some []"
| "DecodeString (a # b # c # d # cs) =
     (case (b64_value a, b64_value b, b64_value c, b64_value d) of
        (Some w, Some x, Some y, Some z) \<Rightarrow>
          map_option (\<lambda>r. char_of (w * 4 + x div 16) # char_of (x mod 16 * 16 + y div 4) #
                          char_of (y mod 4 * 64 + z) # r) (DecodeString cs)
      | (Some w, Some x, Some y, None) \<Rightarrow>
          if d = CHR ''='' \<and> cs = []
          then Some [char_of (w * 4 + x div 16), char_of (x mod 16 * 16 + y div 4)] else None
      | (Some w, Some x, None, None) \<Rightarrow>
          if c = CHR ''='' \<and> d = CHR ''='' \<and> cs = [] then Some [char_of (w * 4 + x div 16)] else None
      | _ \<Rightarrow> None)"
| "DecodeString _ = None"

lemma position_nth: "distinct xs \<Longrightarrow> n < length xs \<Longrightarrow> position (xs ! n) xs = Some n"
proof (induction xs arbitrary: n)
  case (Cons x xs)
  then show ?case by (cases n) (auto simp: nth_mem)
qed simp

lemma distinct_alphabet: "distinct base64_alphabet"
  by (simp add: base64_alphabet_def)

lemma length_alphabet: "length base64_alphabet = 64"
  by (simp add: base64_alphabet_def)

lemma b64_value_char [simp]: "n < 64 \<Longrightarrow> b64_value (b64_char n) = Some n"
  by (simp add: b64_value_def b64_char_def position_nth distinct_alphabet length_alphabet)

lemma b64_value_pad [simp]: "b64_value (CHR ''='') = None"
  by (simp add: b64_value_def base64_alphabet_def)

lemma of_char_less_256 [simp]: "(of_char c :: nat) < 256"
  by simp

text \<open>The digits of a group are below 64, and a byte is rebuilt from its two parts.\<close>

lemma digit_bounds:
  fixes a b :: nat
  assumes "a < 256" "b < 256"
  shows "a div 4 < 64" "a mod 4 * 16 + b div 16 < 64" "b mod 16 * 4 + a div 64 < 64"
    "a mod 4 * 16 < 64" "b mod 16 * 4 < 64" "a mod 64 < 64"
  using assms by auto

lemma digit_parts:
  fixes x y n :: nat
  assumes "y < n"
  shows "(x * n + y) div n = x" "(x * n + y) mod n = y"
  using assms by auto

lemma byte_parts:
  fixes a b c :: nat
  assumes "b < 256" "c < 256"
  shows "a div 4 * 4 + (a mod 4 * 16 + b div 16) div 16 = a"
    "(a mod 4 * 16 + b div 16) mod 16 * 16 + (b mod 16 * 4 + c div 64) div 4 = b"
    "(b mod 16 * 4 + c div 64) mod 4 * 64 + c mod 64 = c"
    "(a mod 4 * 16 + b div 16) mod 16 * 16 + b mod 16 * 4 div 4 = b"
proof -
  have "b div 16 < 16" "c div 64 < 4" using assms by auto
  then show "a div 4 * 4 + (a mod 4 * 16 + b div 16) div 16 = a"
    "(a mod 4 * 16 + b div 16) mod 16 * 16 + (b mod 16 * 4 + c div 64) div 4 = b"
    "(b mod 16 * 4 + c div 64) mod 4 * 64 + c mod 64 = c"
    "(a mod 4 * 16 + b div 16) mod 16 * 16 + b mod 16 * 4 div 4 = b"
    by (simp_all only: digit_parts div_mult_mod_eq) simp
qed

lemma DecodeString_EncodeToString: "DecodeString (EncodeToString bs) = Some bs"
proof (induction bs rule: EncodeToString.induct)
  case (2 a)
  show ?case using digit_bounds [of "of_char a" "of_char a"] byte_parts(1) [of 0 0 "of_char a"]
    by simp
next
  case (3 a b)
  show ?case
    using digit_bounds [of "of_char a" "of_char b"] digit_bounds(5) [of "of_char a" "of_char b"]
      byte_parts(1,4) [of "of_char b" 0 "of_char a"]
    by simp
next
  case (4 a b c cs)
  then show ?case
    using digit_bounds [of "of_char a" "of_char b"] digit_bounds [of "of_char c" "of_char b"]
      byte_parts(1,2) [of "of_char b" "of_char c" "of_char a"]
      byte_parts(3) [of "of_char b" "of_char c"]
    by simp
qed simp

end
