(* ===== verification/Go_Heap.thy ===== *)
theory Go_Heap
  imports Go_Prelude "HOL-Library.AList"
begin

text \<open>
  Memory. The component theories pass Go values around by value; where a claim depends on what two
  objects share, this theory gives the memory behind them: a heap of cells, pointers, slices and maps
  as references to cells, and the layout of a value in memory (is it well typed, which value does it
  stand for, which cells does it own). A copy is deep when it stands for the same value and owns only
  cells that were not there before; the locale \<open>deep_copier\<close> is this contract, and the combinators
  below build the copy of a pointer, a slice, a map or a struct from the copies of its parts.
\<close>

section \<open>Heaps\<close>

text \<open>A heap is the list of its cells in the order of their allocation; an address is an index.\<close>

type_synonym addr = nat
type_synonym 'c heap = "'c list"

definition load :: "'c heap \<Rightarrow> addr \<Rightarrow> 'c option" where
  "load h a = (if a < length h then Some (h ! a) else None)"

definition new_cell :: "'c \<Rightarrow> 'c heap \<Rightarrow> addr \<times> 'c heap" where
  "new_cell c h = (length h, h @ [c])"

definition store :: "addr \<Rightarrow> 'c \<Rightarrow> 'c heap \<Rightarrow> 'c heap" where
  "store a c h = h[a := c]"

text \<open>What a type stores in a cell: the cell's tag, and the zero value \<open>new\<close> and \<open>make\<close> put there.\<close>

record ('x, 'c) cell_type =
  ct_mk :: "'x \<Rightarrow> 'c"
  ct_un :: "'c \<Rightarrow> 'x option"
  ct_zero :: 'x

definition typed :: "('x, 'c) cell_type \<Rightarrow> 'c heap \<Rightarrow> addr \<Rightarrow> bool" where
  "typed A h a \<longleftrightarrow> Option.bind (load h a) (ct_un A) \<noteq> None"

definition deref :: "('x, 'c) cell_type \<Rightarrow> 'c heap \<Rightarrow> addr \<Rightarrow> 'x" where
  "deref A h a = (case Option.bind (load h a) (ct_un A) of None \<Rightarrow> ct_zero A | Some x \<Rightarrow> x)"

definition tagged :: "('x, 'c) cell_type \<Rightarrow> bool" where
  "tagged A \<longleftrightarrow> (\<forall>x. ct_un A (ct_mk A x) = Some x)"

text \<open>A Go slice: nil, or a window into an array. The capacity plays no role here.\<close>

datatype gslice = SNil | Slice addr nat nat

section \<open>Copies\<close>

text \<open>\<open>out := new(T); in.DeepCopyInto(out)\<close> for a pointer that may be nil.\<close>

definition ptr_copy ::
  "('x, 'c) cell_type \<Rightarrow> ('x \<Rightarrow> 'c heap \<Rightarrow> 'x \<times> 'c heap) \<Rightarrow> addr option \<Rightarrow> 'c heap \<Rightarrow> addr option \<times> 'c heap" where
  "ptr_copy A copy p h =
     (case p of
        None \<Rightarrow> (None, h)
      | Some a \<Rightarrow>
          let (out, h1) = new_cell (ct_mk A (ct_zero A)) h;
              (y, h2) = copy (deref A h1 a) h1
          in (Some out, store out (ct_mk A y) h2))"

text \<open>
  \<open>*out = make([]T, len( *in)); for i := range *in { ( *in)[i].DeepCopyInto(&( *out)[i]) }\<close> for a slice
  that may be nil. The loop reads the element and the array it writes from the heap as it is then.
\<close>

fun copy_loop ::
  "('x list, 'c) cell_type \<Rightarrow> ('x \<Rightarrow> 'c heap \<Rightarrow> 'x \<times> 'c heap) \<Rightarrow> addr \<Rightarrow> nat \<Rightarrow> addr \<Rightarrow> nat list \<Rightarrow>
   'c heap \<Rightarrow> 'c heap" where
  "copy_loop A copy a off out [] h = h"
| "copy_loop A copy a off out (i # is) h =
     (let (y, h1) = copy (deref A h a ! (off + i)) h
      in copy_loop A copy a off out is (store out (ct_mk A ((deref A h1 out)[i := y])) h1))"

definition slice_copy ::
  "('x list, 'c) cell_type \<Rightarrow> 'x \<Rightarrow> ('x \<Rightarrow> 'c heap \<Rightarrow> 'x \<times> 'c heap) \<Rightarrow> gslice \<Rightarrow> 'c heap \<Rightarrow> gslice \<times> 'c heap" where
  "slice_copy A z copy s h =
     (case s of
        SNil \<Rightarrow> (SNil, h)
      | Slice a off n \<Rightarrow>
          let (out, h1) = new_cell (ct_mk A (replicate n z)) h
          in (Slice out 0 n, copy_loop A copy a off out [0..<n] h1))"

text \<open>\<open>*out = make([]T, len( *in)); copy( *out, *in)\<close>\<close>

definition slice_copy_flat :: "('x list, 'c) cell_type \<Rightarrow> 'x \<Rightarrow> gslice \<Rightarrow> 'c heap \<Rightarrow> gslice \<times> 'c heap" where
  "slice_copy_flat A z s h =
     (case s of
        SNil \<Rightarrow> (SNil, h)
      | Slice a off n \<Rightarrow>
          let (out, h1) = new_cell (ct_mk A (replicate n z)) h
          in (Slice out 0 n, store out (ct_mk A (take n (drop off (deref A h1 a)))) h1))"

text \<open>
  \<open>*out = make(M, len( *in)); for key, val := range *in { ( *out)[key] = *val.DeepCopy() }\<close> for a map
  that may be nil. The cell of a map lists its entries in the order in which the loop visits them.
\<close>

fun map_loop ::
  "(('k \<times> 'x) list, 'c) cell_type \<Rightarrow> ('x \<Rightarrow> 'c heap \<Rightarrow> 'x \<times> 'c heap) \<Rightarrow> addr \<Rightarrow> ('k \<times> 'x) list \<Rightarrow>
   'c heap \<Rightarrow> 'c heap" where
  "map_loop A copy out [] h = h"
| "map_loop A copy out ((key, val) # rest) h =
     (let (y, h1) = copy val h
      in map_loop A copy out rest (store out (ct_mk A (AList.update key y (deref A h1 out))) h1))"

definition map_copy ::
  "(('k \<times> 'x) list, 'c) cell_type \<Rightarrow> ('x \<Rightarrow> 'c heap \<Rightarrow> 'x \<times> 'c heap) \<Rightarrow> addr option \<Rightarrow> 'c heap \<Rightarrow>
   addr option \<times> 'c heap" where
  "map_copy A copy p h =
     (case p of
        None \<Rightarrow> (None, h)
      | Some a \<Rightarrow>
          let (out, h1) = new_cell (ct_mk A []) h
          in (Some out, map_loop A copy out (deref A h1 a) h1))"

section \<open>Layouts\<close>

text \<open>
  The layout of a type: whether a value of the type is well typed in a heap (its references lead to
  cells of the right type), which mathematical value it stands for, and which cells it owns.
\<close>

record ('x, 'v, 'c) layout =
  ly_wt :: "'c heap \<Rightarrow> 'x \<Rightarrow> bool"
  ly_read :: "'c heap \<Rightarrow> 'x \<Rightarrow> 'v"
  ly_owned :: "'c heap \<Rightarrow> 'x \<Rightarrow> addr set"

definition agree :: "addr set \<Rightarrow> 'c heap \<Rightarrow> 'c heap \<Rightarrow> bool" where
  "agree S h h' \<longleftrightarrow> (\<forall>a \<in> S. load h' a = load h a)"

definition flat_layout :: "('x, 'x, 'c) layout" where
  "flat_layout = \<lparr>ly_wt = \<lambda>h x. True, ly_read = \<lambda>h x. x, ly_owned = \<lambda>h x. {}\<rparr>"

definition flat_copy :: "'x \<Rightarrow> 'c heap \<Rightarrow> 'x \<times> 'c heap" where
  "flat_copy x h = (x, h)"

definition ptr_layout :: "('x, 'c) cell_type \<Rightarrow> ('x, 'v, 'c) layout \<Rightarrow> (addr option, 'v option, 'c) layout" where
  "ptr_layout A L =
     \<lparr>ly_wt = \<lambda>h p. case p of None \<Rightarrow> True | Some a \<Rightarrow> typed A h a \<and> ly_wt L h (deref A h a),
      ly_read = \<lambda>h p. map_option (\<lambda>a. ly_read L h (deref A h a)) p,
      ly_owned = \<lambda>h p. case p of None \<Rightarrow> {} | Some a \<Rightarrow> insert a (ly_owned L h (deref A h a))\<rparr>"

definition window :: "('x list, 'c) cell_type \<Rightarrow> 'c heap \<Rightarrow> addr \<Rightarrow> nat \<Rightarrow> nat \<Rightarrow> 'x list" where
  "window A h a off n = take n (drop off (deref A h a))"

definition slice_layout ::
  "('x list, 'c) cell_type \<Rightarrow> ('x, 'v, 'c) layout \<Rightarrow> (gslice, 'v list option, 'c) layout" where
  "slice_layout A L =
     \<lparr>ly_wt = \<lambda>h s. case s of SNil \<Rightarrow> True | Slice a off n \<Rightarrow>
        typed A h a \<and> off + n \<le> length (deref A h a) \<and> list_all (ly_wt L h) (window A h a off n),
      ly_read = \<lambda>h s. case s of SNil \<Rightarrow> None | Slice a off n \<Rightarrow> Some (map (ly_read L h) (window A h a off n)),
      ly_owned = \<lambda>h s. case s of SNil \<Rightarrow> {} | Slice a off n \<Rightarrow>
        insert a (\<Union> (ly_owned L h ` set (window A h a off n)))\<rparr>"

definition map_layout ::
  "(('k \<times> 'x) list, 'c) cell_type \<Rightarrow> ('x, 'v, 'c) layout \<Rightarrow> (addr option, ('k \<times> 'v) list option, 'c) layout" where
  "map_layout A L =
     \<lparr>ly_wt = \<lambda>h p. case p of None \<Rightarrow> True | Some a \<Rightarrow>
        typed A h a \<and> distinct (map fst (deref A h a)) \<and> list_all (ly_wt L h) (map snd (deref A h a)),
      ly_read = \<lambda>h p. map_option (\<lambda>a. map (\<lambda>(k, x). (k, ly_read L h x)) (deref A h a)) p,
      ly_owned = \<lambda>h p. case p of None \<Rightarrow> {} | Some a \<Rightarrow>
        insert a (\<Union> (ly_owned L h ` set (map snd (deref A h a))))\<rparr>"

definition pair_layout :: "('x, 'v, 'c) layout \<Rightarrow> ('y, 'w, 'c) layout \<Rightarrow> ('x \<times> 'y, 'v \<times> 'w, 'c) layout" where
  "pair_layout L M =
     \<lparr>ly_wt = \<lambda>h (x, y). ly_wt L h x \<and> ly_wt M h y,
      ly_read = \<lambda>h (x, y). (ly_read L h x, ly_read M h y),
      ly_owned = \<lambda>h (x, y). ly_owned L h x \<union> ly_owned M h y\<rparr>"

definition pair_copy ::
  "('x \<Rightarrow> 'c heap \<Rightarrow> 'x \<times> 'c heap) \<Rightarrow> ('y \<Rightarrow> 'c heap \<Rightarrow> 'y \<times> 'c heap) \<Rightarrow> 'x \<times> 'y \<Rightarrow> 'c heap \<Rightarrow> ('x \<times> 'y) \<times> 'c heap" where
  "pair_copy c d = (\<lambda>(x, y) h. let (x', h1) = c x h; (y', h2) = d y h1 in ((x', y'), h2))"

text \<open>A struct is laid out as the tuple \<open>f\<close> of its fields; \<open>g\<close> builds the value from theirs.\<close>

definition struct_layout :: "('s \<Rightarrow> 'x) \<Rightarrow> ('v \<Rightarrow> 'w) \<Rightarrow> ('x, 'v, 'c) layout \<Rightarrow> ('s, 'w, 'c) layout" where
  "struct_layout f g L =
     \<lparr>ly_wt = \<lambda>h s. ly_wt L h (f s), ly_read = \<lambda>h s. g (ly_read L h (f s)), ly_owned = \<lambda>h s. ly_owned L h (f s)\<rparr>"

section \<open>The contract of a deep copy\<close>

locale memory_layout =
  fixes L :: "('x, 'v, 'c) layout"
  assumes owned_allocated: "ly_wt L h x \<Longrightarrow> ly_owned L h x \<subseteq> {..<length h}"
    and local: "ly_wt L h x \<Longrightarrow> agree (ly_owned L h x) h h' \<Longrightarrow>
      ly_wt L h' x \<and> ly_read L h' x = ly_read L h x \<and> ly_owned L h' x = ly_owned L h x"

locale deep_copier = memory_layout L for L :: "('x, 'v, 'c) layout" +
  fixes copy :: "'x \<Rightarrow> 'c heap \<Rightarrow> 'x \<times> 'c heap"
  assumes copies: "ly_wt L h x \<Longrightarrow> copy x h = (y, h') \<Longrightarrow>
    prefix h h' \<and> ly_wt L h' y \<and> ly_read L h' y = ly_read L h x \<and> ly_owned L h' y \<subseteq> {length h..<length h'}"

lemma load_prefix: "prefix h h' \<Longrightarrow> a < length h \<Longrightarrow> load h' a = load h a"
  by (auto simp: load_def prefix_def nth_append)

lemma agree_prefix: "prefix h h' \<Longrightarrow> S \<subseteq> {..<length h} \<Longrightarrow> agree S h h'"
  by (auto simp: agree_def load_prefix)

lemma agree_store: "a \<notin> S \<Longrightarrow> agree S h (store a c h)"
  unfolding agree_def store_def load_def length_list_update by (metis nth_list_update_neq)

lemma agree_trans: "agree S h h' \<Longrightarrow> agree S h' h'' \<Longrightarrow> agree S h h''"
  by (simp add: agree_def)

lemma agree_mono: "agree S h h' \<Longrightarrow> R \<subseteq> S \<Longrightarrow> agree R h h'"
  by (auto simp: agree_def)

lemma agree_access: "agree (insert a S) h h' \<Longrightarrow> typed A h' a = typed A h a \<and> deref A h' a = deref A h a"
  by (simp add: agree_def typed_def deref_def)

lemma store_new: "length h \<le> a \<Longrightarrow> prefix h h' \<Longrightarrow> prefix h (store a c h')"
  by (auto simp: store_def prefix_def list_update_append)

lemma load_store: "a < length h \<Longrightarrow> load (store a c h) a = Some c"
  by (simp add: load_def store_def)

lemma length_store [simp]: "length (store a c h) = length h"
  by (simp add: store_def)

lemma access_mk: "tagged A \<Longrightarrow> load h a = Some (ct_mk A x) \<Longrightarrow> typed A h a \<and> deref A h a = x"
  by (simp add: typed_def deref_def tagged_def)

lemma typed_bound: "typed A h a \<Longrightarrow> a < length h"
  by (auto simp: typed_def load_def split: if_splits)

context memory_layout
begin

lemma stable: "ly_wt L h x \<Longrightarrow> prefix h h' \<Longrightarrow>
    ly_wt L h' x \<and> ly_read L h' x = ly_read L h x \<and> ly_owned L h' x = ly_owned L h x"
  by (rule local) (simp_all add: agree_prefix owned_allocated)

lemma unaffected: "ly_wt L h x \<Longrightarrow> a \<notin> ly_owned L h x \<Longrightarrow>
    ly_wt L (store a c h) x \<and> ly_read L (store a c h) x = ly_read L h x \<and> ly_owned L (store a c h) x = ly_owned L h x"
  by (rule local) (auto intro: agree_store)

end

context deep_copier
begin

text \<open>What holds after a copy of the original and the copy, and that neither sees a write to the other.\<close>

lemma copied:
  assumes "ly_wt L h x" "copy x h = (y, h')"
  shows "prefix h h'" "ly_wt L h' y" "ly_read L h' y = ly_read L h x"
    "ly_owned L h' y \<subseteq> {length h..<length h'}" "ly_wt L h' x" "ly_read L h' x = ly_read L h x"
    "ly_owned L h' x = ly_owned L h x" "ly_owned L h' x \<inter> ly_owned L h' y = {}"
proof -
  show p: "prefix h h'" and "ly_wt L h' y" "ly_read L h' y = ly_read L h x"
    and o: "ly_owned L h' y \<subseteq> {length h..<length h'}" using copies [OF assms] by auto
  show "ly_wt L h' x" "ly_read L h' x = ly_read L h x" and s: "ly_owned L h' x = ly_owned L h x"
    using stable [OF assms(1) p] by auto
  show "ly_owned L h' x \<inter> ly_owned L h' y = {}"
    using o s owned_allocated [OF assms(1)] by fastforce
qed

lemma write_original:
  assumes "ly_wt L h x" "copy x h = (y, h')" "a < length h"
  shows "ly_read L (store a c h') y = ly_read L h x"
proof -
  have "a \<notin> ly_owned L h' y" using copied(4) [OF assms(1,2)] assms(3) by auto
  then show ?thesis using unaffected [OF copied(2) [OF assms(1,2)]] copied(3) [OF assms(1,2)] by simp
qed

lemma write_copy:
  assumes "ly_wt L h x" "copy x h = (y, h')" "a \<in> ly_owned L h' y"
  shows "ly_read L (store a c h') x = ly_read L h x"
proof -
  have "a \<notin> ly_owned L h' x" using copied(8) [OF assms(1,2)] assms(3) by auto
  then show ?thesis using unaffected [OF copied(5) [OF assms(1,2)]] copied(6) [OF assms(1,2)] by simp
qed

end

section \<open>Copies of composed values\<close>

lemma flat_copier: "deep_copier flat_layout flat_copy"
  by unfold_locales (simp_all add: flat_layout_def flat_copy_def)

lemma pair_layoutI:
  assumes "memory_layout L" "memory_layout M"
  shows "memory_layout (pair_layout L M)"
proof -
  note l = memory_layout.owned_allocated [OF assms(1)] memory_layout.owned_allocated [OF assms(2)]
    and m = memory_layout.local [OF assms(1)] memory_layout.local [OF assms(2)]
  show ?thesis
  proof
    fix h h' and x :: "'a \<times> 'd"
    assume wt: "ly_wt (pair_layout L M) h x"
    then show "ly_owned (pair_layout L M) h x \<subseteq> {..<length h}"
      using l by (auto simp: pair_layout_def split: prod.splits)
    assume "agree (ly_owned (pair_layout L M) h x) h h'"
    then have "agree (ly_owned L h (fst x)) h h'" "agree (ly_owned M h (snd x)) h h'"
      by (auto simp: pair_layout_def agree_def split: prod.splits)
    with wt m [of h _ h'] show "ly_wt (pair_layout L M) h' x \<and> ly_read (pair_layout L M) h' x = ly_read (pair_layout L M) h x \<and>
        ly_owned (pair_layout L M) h' x = ly_owned (pair_layout L M) h x"
      by (simp add: pair_layout_def split: prod.splits)
  qed
qed

lemma pair_copier:
  assumes "deep_copier L c" "deep_copier M d"
  shows "deep_copier (pair_layout L M) (pair_copy c d)"
proof (intro deep_copier.intro pair_layoutI deep_copier_axioms.intro)
  show "memory_layout L" "memory_layout M" using assms by (auto intro: deep_copier.axioms(1))
  fix h h' :: "'c list" and x y :: "'a \<times> 'd"
  assume wt: "ly_wt (pair_layout L M) h x" and cp: "pair_copy c d x h = (y, h')"
  obtain x1 x2 y1 y2 h1 where xy: "x = (x1, x2)" "y = (y1, y2)" and c: "c x1 h = (y1, h1)" and d: "d x2 h1 = (y2, h')"
    using cp by (auto simp: pair_copy_def split: prod.splits)
  have w: "ly_wt L h x1" "ly_wt M h x2" using wt by (simp_all add: pair_layout_def xy)
  note c' = deep_copier.copied [OF assms(1) w(1) c]
  note s = memory_layout.stable [OF deep_copier.axioms(1) [OF assms(2)] w(2) c'(1)]
  note d' = deep_copier.copied [OF assms(2) conjunct1 [OF s] d]
  note t = memory_layout.stable [OF deep_copier.axioms(1) [OF assms(1)] c'(2) d'(1)]
  have "length h \<le> length h1" "length h1 \<le> length h'" using c'(1) d'(1) by (auto intro: prefix_length_le)
  then show "prefix h h' \<and> ly_wt (pair_layout L M) h' y \<and> ly_read (pair_layout L M) h' y = ly_read (pair_layout L M) h x \<and>
      ly_owned (pair_layout L M) h' y \<subseteq> {length h..<length h'}"
    using c'(1,3,4) d'(1-4) s t by (fastforce simp: pair_layout_def xy intro: prefix_order.trans)
qed

text \<open>A struct: its copy does to the tuple of its fields what the copy of the tuple does.\<close>

lemma struct_copier:
  assumes "deep_copier L c" "\<And>s h. c (f s) h = (f (fst (copy s h)), snd (copy s h))"
  shows "deep_copier (struct_layout f g L) copy"
proof -
  note l = memory_layout.owned_allocated [OF deep_copier.axioms(1) [OF assms(1)]]
    and m = memory_layout.local [OF deep_copier.axioms(1) [OF assms(1)]]
  show ?thesis
  proof
    show "ly_owned (struct_layout f g L) h x \<subseteq> {..<length h}" if "ly_wt (struct_layout f g L) h x" for h x
      using that l [of h "f x"] by (simp add: struct_layout_def)
    show "ly_wt (struct_layout f g L) h' x \<and> ly_read (struct_layout f g L) h' x = ly_read (struct_layout f g L) h x \<and>
        ly_owned (struct_layout f g L) h' x = ly_owned (struct_layout f g L) h x"
      if "ly_wt (struct_layout f g L) h x" "agree (ly_owned (struct_layout f g L) h x) h h'" for h h' x
      using that m [of h "f x" h'] by (simp add: struct_layout_def)
    show "prefix h h' \<and> ly_wt (struct_layout f g L) h' y \<and> ly_read (struct_layout f g L) h' y = ly_read (struct_layout f g L) h x \<and>
        ly_owned (struct_layout f g L) h' y \<subseteq> {length h..<length h'}"
      if "ly_wt (struct_layout f g L) h x" "copy x h = (y, h')" for h h' x y
      using deep_copier.copied(1-4) [OF assms(1), of h "f x" "f y" h'] assms(2) [of x h] that
      by (simp add: struct_layout_def)
  qed
qed

lemma ptr_layoutI:
  assumes "memory_layout L"
  shows "memory_layout (ptr_layout A L)"
proof
  fix h h' :: "'c list" and p :: "addr option"
  assume wt: "ly_wt (ptr_layout A L) h p"
  then show "ly_owned (ptr_layout A L) h p \<subseteq> {..<length h}"
    using memory_layout.owned_allocated [OF assms] typed_bound [of A h]
    by (auto simp: ptr_layout_def split: option.splits)
  assume ag: "agree (ly_owned (ptr_layout A L) h p) h h'"
  show "ly_wt (ptr_layout A L) h' p \<and> ly_read (ptr_layout A L) h' p = ly_read (ptr_layout A L) h p \<and>
      ly_owned (ptr_layout A L) h' p = ly_owned (ptr_layout A L) h p"
  proof (cases p)
    case (Some a)
    then have ins: "agree (insert a (ly_owned L h (deref A h a))) h h'" using ag by (simp add: ptr_layout_def)
    then have "agree (ly_owned L h (deref A h a)) h h'" by (rule agree_mono) blast
    with agree_access [OF ins, of A] memory_layout.local [OF assms, of h "deref A h a" h'] wt Some
    show ?thesis by (simp add: ptr_layout_def)
  qed (simp add: ptr_layout_def)
qed

lemma ptr_copier:
  assumes "deep_copier L c" "tagged A"
  shows "deep_copier (ptr_layout A L) (ptr_copy A c)"
proof (intro deep_copier.intro ptr_layoutI deep_copier_axioms.intro)
  show lay: "memory_layout L" using assms(1) by (rule deep_copier.axioms(1))
  fix h h' :: "'c list" and p q :: "addr option"
  assume wt: "ly_wt (ptr_layout A L) h p" and cp: "ptr_copy A c p h = (q, h')"
  show "prefix h h' \<and> ly_wt (ptr_layout A L) h' q \<and> ly_read (ptr_layout A L) h' q = ly_read (ptr_layout A L) h p \<and>
      ly_owned (ptr_layout A L) h' q \<subseteq> {length h..<length h'}"
  proof (cases p)
    case None
    then show ?thesis using cp by (simp add: ptr_copy_def ptr_layout_def)
  next
    case (Some a)
    let ?h1 = "h @ [ct_mk A (ct_zero A)]" and ?out = "length h"
    have a: "typed A h a" and x: "ly_wt L h (deref A h a)" using wt Some by (simp_all add: ptr_layout_def)
    have eq: "deref A ?h1 a = deref A h a"
      using load_prefix [of h ?h1 a] typed_bound [OF a] by (simp add: deref_def)
    obtain y h2 where c: "c (deref A h a) ?h1 = (y, h2)" by fastforce
    then have q: "q = Some ?out" and h': "h' = store ?out (ct_mk A y) h2"
      using cp Some eq by (simp_all add: ptr_copy_def new_cell_def)
    note s = memory_layout.stable [OF lay x, of ?h1]
    note k = deep_copier.copied(1-4) [OF assms(1) _ c]
    have x1: "ly_wt L ?h1 (deref A h a)" using s by simp
    note k = k [OF x1]
    have le: "Suc ?out \<le> length h2" using prefix_length_le [OF k(1)] by simp
    have "?out \<notin> ly_owned L h2 y" using k(4) by auto
    note u = memory_layout.unaffected [OF lay k(2) this, of "ct_mk A y"]
    have "load h' ?out = Some (ct_mk A y)" using le by (simp add: h' load_store)
    note m = access_mk [OF assms(2) this]
    have "prefix h h2" using k(1) append_prefixD by blast
    then have "prefix h h'" using store_new [of h ?out h2] by (simp add: h')
    then show ?thesis
      using m u k s Some le by (auto simp: ptr_layout_def q h')
  qed
qed

text \<open>
  The loops. Before step \<open>i\<close> the new array (the cell after the old heap) has the copies of the first
  \<open>i\<close> elements, which own only cells after it.
\<close>

definition copied_upto ::
  "('x list, 'c) cell_type \<Rightarrow> ('x, 'v, 'c) layout \<Rightarrow> 'x list \<Rightarrow> 'c heap \<Rightarrow> nat \<Rightarrow> 'c heap \<Rightarrow> bool" where
  "copied_upto A L xs h0 i h \<longleftrightarrow> prefix h0 h \<and> (\<exists>ys. load h (length h0) = Some (ct_mk A ys) \<and> length ys = length xs \<and>
     (\<forall>j < i. ly_wt L h (ys ! j) \<and> ly_read L h (ys ! j) = ly_read L h0 (xs ! j) \<and>
        ly_owned L h (ys ! j) \<subseteq> {Suc (length h0)..<length h}))"

lemma copied_upto_step:
  assumes dc: "deep_copier L c" and tag: "tagged A" and inv: "copied_upto A L xs h0 i h" and i: "i < length xs"
    and wt: "ly_wt L h0 (xs ! i)" and cp: "c (xs ! i) h = (y, h1)"
  shows "copied_upto A L xs h0 (Suc i) (store (length h0) (ct_mk A ((deref A h1 (length h0))[i := y])) h1)"
proof -
  let ?o = "length h0"
  note lay = deep_copier.axioms(1) [OF dc]
  obtain ys where p0: "prefix h0 h" and ys: "load h ?o = Some (ct_mk A ys)" "length ys = length xs"
    and prev: "\<And>j. j < i \<Longrightarrow> ly_wt L h (ys ! j) \<and> ly_read L h (ys ! j) = ly_read L h0 (xs ! j) \<and>
        ly_owned L h (ys ! j) \<subseteq> {Suc ?o..<length h}"
    using inv unfolding copied_upto_def by blast
  have o: "?o < length h" using ys(1) by (auto simp: load_def split: if_splits)
  note x = memory_layout.stable [OF lay wt p0]
  note k = deep_copier.copied(1-4) [OF dc conjunct1 [OF x] cp]
  have le: "length h \<le> length h1" by (rule prefix_length_le) (rule k(1))
  have ys1: "deref A h1 ?o = ys"
    using access_mk [OF tag, of h1 ?o ys] load_prefix [OF k(1) o] ys(1) by simp
  define h2 where "h2 = store ?o (ct_mk A (ys[i := y])) h1"
  have p2: "prefix h0 h2" unfolding h2_def by (rule store_new) (auto intro: prefix_order.trans [OF p0 k(1)])
  have l2: "load h2 ?o = Some (ct_mk A (ys[i := y]))" unfolding h2_def using o le by (intro load_store) simp
  have keep: "ly_wt L h2 z \<and> ly_read L h2 z = ly_read L h1 z \<and> ly_owned L h2 z = ly_owned L h1 z"
    if "ly_wt L h1 z" "ly_owned L h1 z \<subseteq> {Suc ?o..}" for z
    unfolding h2_def by (rule memory_layout.unaffected [OF lay that(1)]) (use that(2) in auto)
  have "ly_wt L h2 (ys[i := y] ! j) \<and> ly_read L h2 (ys[i := y] ! j) = ly_read L h0 (xs ! j) \<and>
      ly_owned L h2 (ys[i := y] ! j) \<subseteq> {Suc ?o..<length h2}" if "j < Suc i" for j
  proof (cases "j = i")
    case True
    have "ly_owned L h1 y \<subseteq> {Suc ?o..}" using k(4) o by auto
    from keep [OF k(2) this] show ?thesis using True i ys(2) k x o by (auto simp: h2_def)
  next
    case False
    then have j: "j < i" using that by simp
    note d = prev [OF j]
    note s = memory_layout.stable [OF lay conjunct1 [OF d] k(1)]
    have "ly_owned L h1 (ys ! j) \<subseteq> {Suc ?o..}" using s d by auto
    from keep [OF conjunct1 [OF s] this] show ?thesis
      using False s d le by (auto simp: h2_def)
  qed
  then have "\<forall>j < Suc i. ly_wt L h2 (ys[i := y] ! j) \<and> ly_read L h2 (ys[i := y] ! j) = ly_read L h0 (xs ! j) \<and>
      ly_owned L h2 (ys[i := y] ! j) \<subseteq> {Suc ?o..<length h2}" by blast
  moreover have "length (ys[i := y]) = length xs" by (simp add: ys(2))
  ultimately show ?thesis using p2 l2 unfolding copied_upto_def ys1 h2_def [symmetric] by blast
qed

lemma copy_loop_copies:
  assumes dc: "deep_copier L c" and tag: "tagged A" and a: "typed A h0 a" and n: "off + n \<le> length (deref A h0 a)"
    and wt: "list_all (ly_wt L h0) (window A h0 a off n)"
  shows "copied_upto A L (window A h0 a off n) h0 i h \<Longrightarrow> i \<le> n \<Longrightarrow>
    copied_upto A L (window A h0 a off n) h0 n (copy_loop A c a off (length h0) [i..<n] h)"
proof (induction "n - i" arbitrary: i h)
  case (Suc d)
  let ?xs = "window A h0 a off n"
  have i: "i < n" using Suc by simp
  have len: "length ?xs = n" using n by (simp add: window_def)
  have p: "prefix h0 h" using Suc.prems(1) by (simp add: copied_upto_def)
  have "deref A h a = deref A h0 a" using load_prefix [OF p typed_bound [OF a]] by (simp add: deref_def)
  then have x: "deref A h a ! (off + i) = ?xs ! i" using i n by (simp add: window_def)
  obtain y h1 where c: "c (?xs ! i) h = (y, h1)" by fastforce
  have "ly_wt L h0 (?xs ! i)" using wt i len by (simp add: list_all_length)
  from copied_upto_step [OF dc tag Suc.prems(1) _ this c] i len
  have "copied_upto A L ?xs h0 (Suc i) (store (length h0) (ct_mk A ((deref A h1 (length h0))[i := y])) h1)" by simp
  moreover have "d = n - Suc i" using Suc.hyps(2) by simp
  ultimately show ?case
    using Suc.hyps(1) [of "Suc i"] i by (simp add: upt_conv_Cons [OF i] x c)
qed simp

lemma slice_layoutI:
  assumes "memory_layout L"
  shows "memory_layout (slice_layout A L)"
proof
  fix h h' :: "'c list" and s :: gslice
  assume wt: "ly_wt (slice_layout A L) h s"
  then show "ly_owned (slice_layout A L) h s \<subseteq> {..<length h}"
    using memory_layout.owned_allocated [OF assms] typed_bound [of A h]
    by (fastforce simp: slice_layout_def list_all_iff split: gslice.splits)
  assume ag: "agree (ly_owned (slice_layout A L) h s) h h'"
  show "ly_wt (slice_layout A L) h' s \<and> ly_read (slice_layout A L) h' s = ly_read (slice_layout A L) h s \<and>
      ly_owned (slice_layout A L) h' s = ly_owned (slice_layout A L) h s"
  proof (cases s)
    case (Slice a off n)
    let ?xs = "window A h a off n"
    have ins: "agree (insert a (\<Union> (ly_owned L h ` set ?xs))) h h'" using ag Slice by (simp add: slice_layout_def)
    note acc = agree_access [OF ins, of A]
    have w: "window A h' a off n = ?xs" using acc by (simp add: window_def)
    have el: "ly_wt L h' x \<and> ly_read L h' x = ly_read L h x \<and> ly_owned L h' x = ly_owned L h x" if "x \<in> set ?xs" for x
    proof (rule memory_layout.local [OF assms])
      show "ly_wt L h x" using wt Slice that by (simp add: slice_layout_def list_all_iff)
      show "agree (ly_owned L h x) h h'" using that by (intro agree_mono [OF ins]) blast
    qed
    show ?thesis using wt Slice acc el by (simp add: slice_layout_def w list_all_iff)
  qed (simp add: slice_layout_def)
qed

lemma copied_upto_slice:
  assumes tag: "tagged A" and inv: "copied_upto A L xs h0 (length xs) h"
  defines "s \<equiv> Slice (length h0) 0 (length xs)"
  shows "prefix h0 h \<and> ly_wt (slice_layout A L) h s \<and> ly_read (slice_layout A L) h s = Some (map (ly_read L h0) xs) \<and>
    ly_owned (slice_layout A L) h s \<subseteq> {length h0..<length h}"
proof -
  obtain ys where p: "prefix h0 h" and ys: "load h (length h0) = Some (ct_mk A ys)" "length ys = length xs"
    and el: "\<forall>j < length xs. ly_wt L h (ys ! j) \<and> ly_read L h (ys ! j) = ly_read L h0 (xs ! j) \<and>
        ly_owned L h (ys ! j) \<subseteq> {Suc (length h0)..<length h}"
    using inv unfolding copied_upto_def by blast
  note acc = access_mk [OF tag ys(1)]
  have w: "window A h (length h0) 0 (length xs) = ys" using acc ys(2) by (simp add: window_def)
  have "list_all (ly_wt L h) ys" using el ys(2) by (simp add: list_all_length)
  moreover have "map (ly_read L h) ys = map (ly_read L h0) xs" using el ys(2) by (auto intro: nth_equalityI)
  moreover have "ly_owned L h y \<subseteq> {length h0..<length h}" if "y \<in> set ys" for y
    using that el ys(2) by (fastforce simp: in_set_conv_nth)
  moreover have "length h0 < length h" using acc typed_bound by blast
  ultimately show ?thesis using p acc ys(2) by (auto simp: s_def slice_layout_def w)
qed

lemma slice_copier:
  assumes "deep_copier L c" "tagged A"
  shows "deep_copier (slice_layout A L) (slice_copy A z c)"
proof (intro deep_copier.intro slice_layoutI deep_copier_axioms.intro)
  show lay: "memory_layout L" using assms(1) by (rule deep_copier.axioms(1))
  fix h h' :: "'c list" and s t :: gslice
  assume wt: "ly_wt (slice_layout A L) h s" and cp: "slice_copy A z c s h = (t, h')"
  show "prefix h h' \<and> ly_wt (slice_layout A L) h' t \<and> ly_read (slice_layout A L) h' t = ly_read (slice_layout A L) h s \<and>
      ly_owned (slice_layout A L) h' t \<subseteq> {length h..<length h'}"
  proof (cases s)
    case SNil
    then show ?thesis using cp by (simp add: slice_copy_def slice_layout_def)
  next
    case (Slice a off n)
    let ?xs = "window A h a off n" and ?h1 = "h @ [ct_mk A (replicate n z)]"
    have t: "t = Slice (length h) 0 n" and h': "h' = copy_loop A c a off (length h) [0..<n] ?h1"
      using cp Slice by (simp_all add: slice_copy_def new_cell_def)
    have w: "typed A h a" "off + n \<le> length (deref A h a)" "list_all (ly_wt L h) ?xs"
      using wt Slice by (simp_all add: slice_layout_def)
    have len: "length ?xs = n" using w(2) by (simp add: window_def)
    have "copied_upto A L ?xs h 0 ?h1" 
      by (auto simp: copied_upto_def load_def len intro!: exI [of _ "replicate n z"])
    from copy_loop_copies [OF assms w this] have "copied_upto A L ?xs h (length ?xs) h'" by (simp add: h' len)
    from copied_upto_slice [OF assms(2) this] show ?thesis by (simp add: t len Slice) (simp add: slice_layout_def)
  qed
qed

lemma slice_copier_flat:
  assumes "tagged A"
  shows "deep_copier (slice_layout A flat_layout) (slice_copy_flat A z)"
proof (intro deep_copier.intro slice_layoutI deep_copier_axioms.intro)
  show "memory_layout flat_layout" by (rule deep_copier.axioms(1)) (rule flat_copier)
  fix h h' :: "'b list" and s t :: gslice
  assume wt: "ly_wt (slice_layout A flat_layout) h s" and cp: "slice_copy_flat A z s h = (t, h')"
  show "prefix h h' \<and> ly_wt (slice_layout A flat_layout) h' t \<and>
      ly_read (slice_layout A flat_layout) h' t = ly_read (slice_layout A flat_layout) h s \<and>
      ly_owned (slice_layout A flat_layout) h' t \<subseteq> {length h..<length h'}"
  proof (cases s)
    case SNil
    then show ?thesis using cp by (simp add: slice_copy_flat_def slice_layout_def)
  next
    case (Slice a off n)
    let ?h1 = "h @ [ct_mk A (replicate n z)]" and ?xs = "window A h a off n"
    have w: "typed A h a" "off + n \<le> length (deref A h a)" using wt Slice by (simp_all add: slice_layout_def)
    have "deref A ?h1 a = deref A h a"
      using load_prefix [of h ?h1 a] typed_bound [OF w(1)] by (simp add: deref_def)
    then have t: "t = Slice (length h) 0 (length ?xs)" and h': "h' = store (length h) (ct_mk A ?xs) ?h1"
      using cp Slice w(2) by (simp_all add: slice_copy_flat_def new_cell_def window_def)
    have "load h' (length h) = Some (ct_mk A ?xs)" by (simp add: h' load_store)
    moreover have "prefix h h'" unfolding h' by (rule store_new) simp_all
    ultimately have "copied_upto A flat_layout ?xs h (length ?xs) h'"
      by (auto simp: copied_upto_def flat_layout_def intro!: exI [of _ ?xs])
    from copied_upto_slice [OF assms this] show ?thesis by (simp add: t Slice) (simp add: slice_layout_def)
  qed
qed

text \<open>The loop over a map: the entries visited so far are in the new map, in the order of the visits.\<close>

definition entered ::
  "(('k \<times> 'x) list, 'c) cell_type \<Rightarrow> ('x, 'v, 'c) layout \<Rightarrow> 'c heap \<Rightarrow> ('k \<times> 'x) list \<Rightarrow> 'c heap \<Rightarrow> bool" where
  "entered A L h0 seen h \<longleftrightarrow> prefix h0 h \<and> (\<exists>ys. load h (length h0) = Some (ct_mk A ys) \<and>
     list_all2 (\<lambda>(k, x) (k', y). k' = k \<and> ly_wt L h y \<and> ly_read L h y = ly_read L h0 x \<and>
       ly_owned L h y \<subseteq> {Suc (length h0)..<length h}) seen ys)"

lemma update_new: "k \<notin> fst ` set m \<Longrightarrow> AList.update k y m = m @ [(k, y)]"
  by (induction m) auto

lemma entered_step:
  assumes dc: "deep_copier L c" and tag: "tagged A" and inv: "entered A L h0 seen h"
    and new: "k \<notin> fst ` set seen" and wt: "ly_wt L h0 x" and cp: "c x h = (y, h1)"
  shows "entered A L h0 (seen @ [(k, x)]) (store (length h0) (ct_mk A (AList.update k y (deref A h1 (length h0)))) h1)"
proof -
  let ?o = "length h0"
  note lay = deep_copier.axioms(1) [OF dc]
  obtain ys where p0: "prefix h0 h" and ys: "load h ?o = Some (ct_mk A ys)"
    and prev: "list_all2 (\<lambda>(k, x) (k', y). k' = k \<and> ly_wt L h y \<and> ly_read L h y = ly_read L h0 x \<and>
       ly_owned L h y \<subseteq> {Suc ?o..<length h}) seen ys"
    using inv unfolding entered_def by blast
  have o: "?o < length h" using ys by (auto simp: load_def split: if_splits)
  note s = memory_layout.stable [OF lay wt p0]
  note k = deep_copier.copied(1-4) [OF dc conjunct1 [OF s] cp]
  have le: "length h \<le> length h1" by (rule prefix_length_le) (rule k(1))
  have ys1: "deref A h1 ?o = ys" using access_mk [OF tag, of h1 ?o ys] load_prefix [OF k(1) o] ys by simp
  have "map fst ys = map fst seen" using prev by (induction rule: list_all2_induct) auto
  then have "fst ` set ys = fst ` set seen" by (metis list.set_map)
  then have upd: "AList.update k y ys = ys @ [(k, y)]" using new by (simp add: update_new)
  define h2 where "h2 = store ?o (ct_mk A (ys @ [(k, y)])) h1"
  have p2: "prefix h0 h2" unfolding h2_def by (rule store_new) (auto intro: prefix_order.trans [OF p0 k(1)])
  have l2: "load h2 ?o = Some (ct_mk A (ys @ [(k, y)]))" unfolding h2_def using o le by (intro load_store) simp
  have keep: "ly_wt L h2 z \<and> ly_read L h2 z = ly_read L h1 z \<and> ly_owned L h2 z = ly_owned L h1 z"
    if "ly_wt L h1 z" "ly_owned L h1 z \<subseteq> {Suc ?o..}" for z
    unfolding h2_def by (rule memory_layout.unaffected [OF lay that(1)]) (use that(2) in auto)
  have "ly_wt L h2 z \<and> ly_read L h2 z = ly_read L h z \<and> ly_owned L h2 z \<subseteq> {Suc ?o..<length h2}"
    if "ly_wt L h z" "ly_owned L h z \<subseteq> {Suc ?o..<length h}" for z
  proof -
    note t = memory_layout.stable [OF lay that(1) k(1)]
    have "ly_owned L h1 z \<subseteq> {Suc ?o..}" using t that(2) by auto
    from keep [OF conjunct1 [OF t] this] show ?thesis using t that(2) le by (auto simp: h2_def)
  qed
  then have old: "list_all2 (\<lambda>(k, x) (k', y). k' = k \<and> ly_wt L h2 y \<and> ly_read L h2 y = ly_read L h0 x \<and>
       ly_owned L h2 y \<subseteq> {Suc ?o..<length h2}) seen ys"
    using prev by (elim list_all2_mono) auto
  have "ly_owned L h1 y \<subseteq> {Suc ?o..}" using k(4) o by auto
  from keep [OF k(2) this] have "ly_wt L h2 y \<and> ly_read L h2 y = ly_read L h0 x \<and> ly_owned L h2 y \<subseteq> {Suc ?o..<length h2}"
    using k s o by (auto simp: h2_def)
  with old have "list_all2 (\<lambda>(k, x) (k', y). k' = k \<and> ly_wt L h2 y \<and> ly_read L h2 y = ly_read L h0 x \<and>
       ly_owned L h2 y \<subseteq> {Suc ?o..<length h2}) (seen @ [(k, x)]) (ys @ [(k, y)])"
    by (simp add: list_all2_appendI)
  with p2 l2 show ?thesis unfolding entered_def ys1 upd h2_def [symmetric] by blast
qed

lemma map_loop_copies:
  assumes dc: "deep_copier L c" and tag: "tagged A"
  shows "entered A L h0 seen h \<Longrightarrow> distinct (map fst (seen @ todo)) \<Longrightarrow> list_all (ly_wt L h0) (map snd todo) \<Longrightarrow>
    entered A L h0 (seen @ todo) (map_loop A c (length h0) todo h)"
proof (induction todo arbitrary: seen h)
  case (Cons e todo)
  obtain k x where e: "e = (k, x)" by fastforce
  obtain y h1 where c: "c x h = (y, h1)" by fastforce
  have "k \<notin> fst ` set seen" "ly_wt L h0 x" using Cons.prems(2,3) by (auto simp: e)
  from entered_step [OF dc tag Cons.prems(1) this c] Cons.IH [of "seen @ [(k, x)]"] Cons.prems(2,3)
  show ?case by (simp add: e c)
qed simp

lemma map_layoutI:
  assumes "memory_layout L"
  shows "memory_layout (map_layout A L)"
proof
  fix h h' :: "'c list" and p :: "addr option"
  assume wt: "ly_wt (map_layout A L) h p"
  then show "ly_owned (map_layout A L) h p \<subseteq> {..<length h}"
    using memory_layout.owned_allocated [OF assms] typed_bound [of A h]
    by (fastforce simp: map_layout_def list_all_iff split: option.splits)
  assume ag: "agree (ly_owned (map_layout A L) h p) h h'"
  show "ly_wt (map_layout A L) h' p \<and> ly_read (map_layout A L) h' p = ly_read (map_layout A L) h p \<and>
      ly_owned (map_layout A L) h' p = ly_owned (map_layout A L) h p"
  proof (cases p)
    case (Some a)
    let ?xs = "deref A h a"
    have ins: "agree (insert a (\<Union> (ly_owned L h ` set (map snd ?xs)))) h h'" using ag Some by (simp add: map_layout_def)
    note acc = agree_access [OF ins, of A]
    have el: "ly_wt L h' x \<and> ly_read L h' x = ly_read L h x \<and> ly_owned L h' x = ly_owned L h x" if "x \<in> set (map snd ?xs)" for x
    proof (rule memory_layout.local [OF assms])
      show "ly_wt L h x" using wt Some that by (auto simp: map_layout_def list_all_iff)
      show "agree (ly_owned L h x) h h'" using that by (intro agree_mono [OF ins]) blast
    qed
    have "ly_read L h' (snd e) = ly_read L h (snd e)" "ly_owned L h' (snd e) = ly_owned L h (snd e)" "ly_wt L h' (snd e)"
      if "e \<in> set ?xs" for e using el [of "snd e"] that by simp_all
    then show ?thesis using wt Some acc by (simp add: map_layout_def list_all_iff case_prod_unfold)
  qed (simp add: map_layout_def)
qed

lemma map_copier:
  assumes "deep_copier L c" "tagged A"
  shows "deep_copier (map_layout A L) (map_copy A c)"
proof (intro deep_copier.intro map_layoutI deep_copier_axioms.intro)
  show lay: "memory_layout L" using assms(1) by (rule deep_copier.axioms(1))
  fix h h' :: "'c list" and p q :: "addr option"
  assume wt: "ly_wt (map_layout A L) h p" and cp: "map_copy A c p h = (q, h')"
  show "prefix h h' \<and> ly_wt (map_layout A L) h' q \<and> ly_read (map_layout A L) h' q = ly_read (map_layout A L) h p \<and>
      ly_owned (map_layout A L) h' q \<subseteq> {length h..<length h'}"
  proof (cases p)
    case None
    then show ?thesis using cp by (simp add: map_copy_def map_layout_def)
  next
    case (Some a)
    let ?xs = "deref A h a" and ?h1 = "h @ [ct_mk A []]"
    have w: "typed A h a" "distinct (map fst ?xs)" "list_all (ly_wt L h) (map snd ?xs)"
      using wt Some by (simp_all add: map_layout_def)
    have "deref A ?h1 a = ?xs" using load_prefix [of h ?h1 a] typed_bound [OF w(1)] by (simp add: deref_def)
    then have q: "q = Some (length h)" and h': "h' = map_loop A c (length h) ?xs ?h1"
      using cp Some by (simp_all add: map_copy_def new_cell_def)
    have "entered A L h [] ?h1" by (auto simp: entered_def load_def)
    from map_loop_copies [OF assms this, of ?xs] w have "entered A L h ?xs h'" by (simp add: h')
    then obtain ys where p: "prefix h h'" and ys: "load h' (length h) = Some (ct_mk A ys)"
      and el: "list_all2 (\<lambda>(k, x) (k', y). k' = k \<and> ly_wt L h' y \<and> ly_read L h' y = ly_read L h x \<and>
        ly_owned L h' y \<subseteq> {Suc (length h)..<length h'}) ?xs ys" unfolding entered_def by blast
    note acc = access_mk [OF assms(2) ys]
    have "map fst ys = map fst ?xs" "list_all (ly_wt L h') (map snd ys)"
      "map (\<lambda>(k, x). (k, ly_read L h' x)) ys = map (\<lambda>(k, x). (k, ly_read L h x)) ?xs"
      "\<Union> (ly_owned L h' ` set (map snd ys)) \<subseteq> {Suc (length h)..<length h'}"
      using el by (induction rule: list_all2_induct) auto
    moreover have "length h < length h'" using acc typed_bound by blast
    ultimately show ?thesis using p acc w(2) by (auto simp: map_layout_def q Some)
  qed
qed

section \<open>Independence\<close>

definition writes :: "(addr \<times> 'c) list \<Rightarrow> 'c heap \<Rightarrow> 'c heap" where
  "writes ws h = fold (\<lambda>(a, c). store a c) ws h"

text \<open>
  A copy is separate from its original: whatever is written, with whatever contents, to the cells that
  were there before the copy, the copy keeps the value of the original; and whatever is written to
  the cells the copy has made, the original keeps its value.
\<close>

definition separate_copy :: "('x, 'v, 'c) layout \<Rightarrow> ('x \<Rightarrow> 'c heap \<Rightarrow> 'x \<times> 'c heap) \<Rightarrow> bool" where
  "separate_copy L copy \<longleftrightarrow>
     (\<forall>h x y h' ws. ly_wt L h x \<and> copy x h = (y, h') \<longrightarrow>
        (list_all (\<lambda>(a, c). a < length h) ws \<longrightarrow> ly_read L (writes ws h') y = ly_read L h x) \<and>
        (list_all (\<lambda>(a, c). length h \<le> a) ws \<longrightarrow> ly_read L (writes ws h') x = ly_read L h x))"

context memory_layout
begin

lemma unaffected_writes:
  assumes "ly_wt L h x" "list_all (\<lambda>(a, c). a \<notin> ly_owned L h x) ws"
  shows "ly_read L (writes ws h) x = ly_read L h x"
proof -
  have "agree (ly_owned L h x) h (writes ws h)"
    using assms(2) unfolding writes_def
  proof (induction ws rule: rev_induct)
    case (snoc w ws)
    then show ?case using agree_trans agree_store by (cases w) fastforce
  qed (simp add: agree_def)
  with assms(1) show ?thesis using local by blast
qed

end

context deep_copier
begin

lemma separate: "separate_copy L copy"
  unfolding separate_copy_def
proof (intro allI impI conjI; elim conjE)
  fix h x y h' and ws :: "(addr \<times> 'c) list"
  assume x: "ly_wt L h x" and cp: "copy x h = (y, h')"
  note k = copied [OF x cp]
  have own: "ly_owned L h x \<subseteq> {..<length h}" by (rule owned_allocated) (rule x)
  show "ly_read L (writes ws h') y = ly_read L h x" if "list_all (\<lambda>(a, c). a < length h) ws"
  proof -
    have "list_all (\<lambda>(a, c). a \<notin> ly_owned L h' y) ws" using that k(4) by (fastforce simp: list_all_iff)
    then show ?thesis using unaffected_writes [OF k(2)] k(3) by simp
  qed
  show "ly_read L (writes ws h') x = ly_read L h x" if "list_all (\<lambda>(a, c). length h \<le> a) ws"
  proof -
    have "list_all (\<lambda>(a, c). a \<notin> ly_owned L h' x) ws" using that k(7) own by (fastforce simp: list_all_iff)
    then show ?thesis using unaffected_writes [OF k(5)] k(6) by simp
  qed
qed

end

end
