(* ===== verification/Go_Errors.thy ===== *)
theory Go_Errors
  imports Go_Prelude
begin

text \<open>
  Error values. An error of code outside the repository (the API server, the flintlock service, a
  patch helper) is opaque but for the two observations the repository makes of it: its text
  (\<open>err.Error()\<close>) and whether \<open>apierrors.IsNotFound\<close> recognises it. The repository's own errors are
  the \<open>errors.New\<close> values of \<^verbatim>\<open>controllers/errors.go\<close> and \<^verbatim>\<open>internal/scope/errors.go\<close>, the type
  \<open>tlsError\<close>, and errors wrapped with \<open>fmt.Errorf("...: %w", err)\<close>.
\<close>

datatype error =
    External (ext_text: string) (ext_not_found: bool)
  | New string
  | Errorf string error
  | tlsError string

fun tlsError_Error :: "string \<Rightarrow> string" where
  "tlsError_Error key = ''required key missing from TLS config data: '' @ key"

fun Error :: "error \<Rightarrow> string" where
  "Error (External t _) = t"
| "Error (New t) = t"
| "Error (Errorf t e) = t @ '': '' @ Error e"
| "Error (tlsError key) = tlsError_Error key"

text \<open>\<open>apierrors.IsNotFound\<close> looks through wrapped errors (it uses \<open>errors.As\<close>).\<close>

fun IsNotFound :: "error \<Rightarrow> bool" where
  "IsNotFound (External _ nf) = nf"
| "IsNotFound (Errorf _ e) = IsNotFound e"
| "IsNotFound _ = False"

section \<open>controllers/errors.go\<close>

definition errControlplaneEndpointRequired :: error where
  "errControlplaneEndpointRequired = New ''controlplane endpoint is required on cluster or mvmcluster''"

definition errClientFactoryFuncRequired :: error where
  "errClientFactoryFuncRequired = New ''factory function required to create grpc client''"

definition errMicrovmFailed :: error where
  "errMicrovmFailed = New ''microvm is in a failed state''"

definition errMicrovmUnknownState :: error where
  "errMicrovmUnknownState = New ''microvm is in an unknown/unsupported state''"

definition errExpectedMicrovmCluster :: error where
  "errExpectedMicrovmCluster = New ''expected microvm cluster''"

definition errNoPlacement :: error where
  "errNoPlacement = New ''no placement specified''"

section \<open>internal/scope/errors.go\<close>

definition errClusterRequired :: error where
  "errClusterRequired = New ''cluster required to create scope''"

definition errMicrovmClusterRequired :: error where
  "errMicrovmClusterRequired = New ''microvm cluster required to create scope''"

definition errMachineRequired :: error where
  "errMachineRequired = New ''machine required to create scope''"

definition errMicrovmMachineRequied :: error where
  "errMicrovmMachineRequied = New ''microvm machine required to create scope''"

definition errClientRequired :: error where
  "errClientRequired = New ''controller-runtime client required to create scope''"

definition errMissingBootstrapDataSecret :: error where
  "errMissingBootstrapDataSecret = New ''missing bootstrap data secret''"

definition errMissingBootstrapSecretKey :: error where
  "errMissingBootstrapSecretKey = New ''missing bootstrap secrey value key''"

definition errFailureDomainNotFound :: error where
  "errFailureDomainNotFound = New ''no failure domains found on the cluster''"

lemmas sentinel_defs =
  errControlplaneEndpointRequired_def errClientFactoryFuncRequired_def errMicrovmFailed_def
  errMicrovmUnknownState_def errExpectedMicrovmCluster_def errNoPlacement_def
  errClusterRequired_def errMicrovmClusterRequired_def errMachineRequired_def
  errMicrovmMachineRequied_def errClientRequired_def errMissingBootstrapDataSecret_def
  errMissingBootstrapSecretKey_def errFailureDomainNotFound_def

text \<open>
  The sentinels are told apart by identity in Go; here their texts do it, so no two of them are
  confused by the model.
\<close>

lemma sentinels_distinct:
  "distinct [errControlplaneEndpointRequired, errClientFactoryFuncRequired, errMicrovmFailed,
     errMicrovmUnknownState, errExpectedMicrovmCluster, errNoPlacement, errClusterRequired,
     errMicrovmClusterRequired, errMachineRequired, errMicrovmMachineRequied, errClientRequired,
     errMissingBootstrapDataSecret, errMissingBootstrapSecretKey, errFailureDomainNotFound]"
  by (simp add: sentinel_defs)

section \<open>isSpecNotFound (controllers/microvmmachine\_controller.go)\<close>

text \<open>
  The controller recognises a missing microvm by the text of the error: any error whose text has
  \<open>not found\<close> in it counts.
\<close>

definition isSpecNotFound :: "error \<Rightarrow> bool" where
  "isSpecNotFound err = Contains (Error err) ''not found''"

lemma isSpecNotFound_iff: "isSpecNotFound err \<longleftrightarrow> (\<exists>p s. Error err = p @ ''not found'' @ s)"
  by (simp add: isSpecNotFound_def Contains_iff_sublist sublist_def)

lemma isSpecNotFound_Errorf: "isSpecNotFound err \<Longrightarrow> isSpecNotFound (Errorf t err)"
proof -
  assume "isSpecNotFound err"
  then obtain p s where "Error err = p @ ''not found'' @ s"
    unfolding isSpecNotFound_iff by blast
  then have "Error (Errorf t err) = (t @ '': '' @ p) @ ''not found'' @ s"
    by simp
  then show ?thesis unfolding isSpecNotFound_iff by blast
qed

end
