(* ===== verification/Api_Types.thy ===== *)
theory Api_Types
  imports Go_Errors
begin

text \<open>
  The API types: the custom resources of \<^verbatim>\<open>api/v1alpha1\<close> field by field, and of the types of
  Kubernetes, Cluster API, controller-pkg and flintlock the fields the repository reads or writes
  (what it only carries along is one opaque field). A pointer is an option, a slice or map that may
  be nil is an option too, because \<open>reflect.DeepEqual\<close> and the generated copies tell nil from empty.
\<close>

type_synonym 'a slice = "'a list option"
type_synonym string_map = "(string \<rightharpoonup> string) option"
type_synonym time = int

text \<open>The elements a \<open>range\<close> loop over a slice visits: none for nil.\<close>

definition elems :: "'a slice \<Rightarrow> 'a list" where
  "elems s = (case s of None \<Rightarrow> [] | Some xs \<Rightarrow> xs)"

lemma elems_simps [simp]: "elems None = []" "elems (Some xs) = xs"
  by (simp_all add: elems_def)

section \<open>Types of other modules\<close>

record NamespacedName =
  nn_Namespace :: string
  nn_Name :: string

record TypeMeta =
  tm_Kind :: string
  tm_APIVersion :: string

record OwnerReference =
  or_APIVersion :: string
  or_Kind :: string
  or_Name :: string

record ObjectMeta =
  om_Name :: string
  om_Namespace :: string
  om_Labels :: string_map
  om_Annotations :: string_map
  om_OwnerReferences :: "OwnerReference list"
  om_Finalizers :: "string list"
  om_DeletionTimestamp :: "time option"

record ListMeta =
  lm_ResourceVersion :: string
  lm_Continue :: string
  lm_RemainingItemCount :: "int option"

record ObjectReference =
  ref_Namespace :: string
  ref_Name :: string

record APIEndpoint =
  ep_Host :: string
  ep_Port :: int

record FailureDomainSpec =
  fd_ControlPlane :: bool
  fd_Attributes :: string_map

text \<open>
  A Go map with string keys whose keys are enumerated: the entries in the order in which one
  \<open>range\<close> loop visits them. The keys are distinct; the order is not determined by the map.
\<close>

type_synonym FailureDomains = "(string \<times> FailureDomainSpec) list option"

datatype ConditionStatus = ConditionTrue | ConditionFalse | ConditionUnknown

datatype ConditionSeverity =
  ConditionSeverityError | ConditionSeverityWarning | ConditionSeverityInfo | ConditionSeverityNone

type_synonym ConditionType = string

record Condition =
  cond_Type :: ConditionType
  cond_Status :: ConditionStatus
  cond_Severity :: ConditionSeverity
  cond_Reason :: string
  cond_Message :: string

type_synonym Conditions = "Condition slice"

record MachineAddress =
  ma_Type :: string
  ma_Address :: string

record Machine =
  m_ObjectMeta :: ObjectMeta
  m_Spec_FailureDomain :: "string option"
  m_Spec_ProviderID :: "string option"
  m_Spec_Bootstrap_DataSecretName :: "string option"
  m_Spec_InfrastructureRef :: ObjectReference

record Cluster =
  cl_ObjectMeta :: ObjectMeta
  cl_Spec_Paused :: bool
  cl_Spec_ControlPlaneEndpoint :: APIEndpoint
  cl_Spec_InfrastructureRef :: "ObjectReference option"
  cl_Status_InfrastructureReady :: bool
  cl_Status_FailureDomains :: FailureDomains

record Secret =
  sec_Name :: string
  sec_Data :: "string \<rightharpoonup> string"

datatype Proxy = Proxy string

record NetworkInterface =
  ni_GuestDeviceName :: string
  ni_GuestMAC :: string
  ni_Type :: string
  ni_Address :: string

text \<open>\<open>microvm.VMSpec\<close>: the repository reads the labels and writes the interfaces' MACs.\<close>

record VMSpec =
  vm_Labels :: string_map
  vm_NetworkInterfaces :: "NetworkInterface slice"
  vm_Other :: string

record VMSSHPublicKey =
  ssh_User :: string
  ssh_AuthorizedKeys :: "string slice"

datatype VMState =
  VMStatePending | VMStateRunning | VMStateFailed | VMStateUnknown | VMStateOther string

record ClientTLSConfig =
  ctls_Cert :: string
  ctls_Key :: string
  ctls_CACert :: string

text \<open>\<open>flintlocktypes.MicroVM\<close>: nested messages and the uid are pointers; the state is an open enum.\<close>

datatype MicroVMState = PENDING | CREATED | FAILED | DELETING | OtherState int

record MicroVM =
  mv_Spec :: "string option option"   \<comment> \<open>the message \<open>Spec\<close>, of which only \<open>Uid\<close> is read\<close>
  mv_Status :: "MicroVMState option"  \<comment> \<open>the message \<open>Status\<close>, of which only \<open>State\<close> is read\<close>

section \<open>api/v1alpha1/types.go\<close>

record MicrovmHost =
  host_Name :: string
  host_Endpoint :: string
  host_ControlPlaneAllowed :: bool

record StaticPoolPlacement =
  sp_Hosts :: "MicrovmHost slice"
  sp_BasicAuthSecret :: string

record Placement =
  pl_StaticPool :: "StaticPoolPlacement option"

definition IsSet :: "Placement \<Rightarrow> bool" where
  "IsSet p \<longleftrightarrow> pl_StaticPool p \<noteq> None"

record TLSConfig =
  tls_Cert :: "string option"
  tls_Key :: "string option"
  tls_CACert :: "string option"

section \<open>api/v1alpha1/condition\_consts.go\<close>

definition LoadBalancerAvailableCondition :: ConditionType where
  "LoadBalancerAvailableCondition = ''LoadBalancerAvailable''"

definition LoadBalancerFailedReason :: string where
  "LoadBalancerFailedReason = ''LoadBalancerAvailabilityFailed''"

definition LoadBalancerNotAvailableReason :: string where
  "LoadBalancerNotAvailableReason = ''LoadBalancerNotAvailable''"

definition MicrovmReadyCondition :: ConditionType where
  "MicrovmReadyCondition = ''MicrovmReady''"

definition MicrovmProvisionFailedReason :: string where
  "MicrovmProvisionFailedReason = ''MicrovmProvisionFailed''"

definition MicrovmPendingReason :: string where
  "MicrovmPendingReason = ''MicrovmPending''"

definition MicrovmDeletingReason :: string where
  "MicrovmDeletingReason = ''MicrovmDeleting''"

definition MicrovmDeleteFailedReason :: string where
  "MicrovmDeleteFailedReason = ''MicrovmDeleteFailed''"

definition MicrovmUnknownStateReason :: string where
  "MicrovmUnknownStateReason = ''MicrovmUnknownState''"

definition WaitingForClusterInfraReason :: string where
  "WaitingForClusterInfraReason = ''WaitingForClusterInfra''"

definition WaitingForBootstrapDataReason :: string where
  "WaitingForBootstrapDataReason = ''WaitingForBoostrapData''"

text \<open>\<open>clusterv1.ReadyCondition\<close>, the summary condition of Cluster API.\<close>

definition ReadyCondition :: ConditionType where
  "ReadyCondition = ''Ready''"

lemmas reason_defs =
  LoadBalancerFailedReason_def LoadBalancerNotAvailableReason_def MicrovmProvisionFailedReason_def
  MicrovmPendingReason_def MicrovmDeletingReason_def MicrovmDeleteFailedReason_def
  MicrovmUnknownStateReason_def WaitingForClusterInfraReason_def WaitingForBootstrapDataReason_def

lemmas condition_type_defs =
  LoadBalancerAvailableCondition_def MicrovmReadyCondition_def ReadyCondition_def

section \<open>api/v1alpha1/microvmmachine\_types.go\<close>

definition MachineFinalizer :: string where
  "MachineFinalizer = ''microvmmachine.infrastructure.cluster.x-k8s.io''"

record MicrovmMachineSpec =
  ms_VMSpec :: VMSpec
  ms_SSHPublicKeys :: "VMSSHPublicKey slice"
  ms_ProviderID :: "string option"

record MicrovmMachineStatus =
  mst_Ready :: bool
  mst_VMState :: "VMState option"
  mst_Addresses :: "MachineAddress slice"
  mst_FailureReason :: "string option"
  mst_FailureMessage :: "string option"
  mst_Conditions :: Conditions

record MicrovmMachine =
  mm_TypeMeta :: TypeMeta
  mm_ObjectMeta :: ObjectMeta
  mm_Spec :: MicrovmMachineSpec
  mm_Status :: MicrovmMachineStatus

definition MicrovmMachine_GetConditions :: "MicrovmMachine \<Rightarrow> Conditions" where
  "MicrovmMachine_GetConditions r = mst_Conditions (mm_Status r)"

definition MicrovmMachine_SetConditions :: "Conditions \<Rightarrow> MicrovmMachine \<Rightarrow> MicrovmMachine" where
  "MicrovmMachine_SetConditions cs r = r\<lparr>mm_Status := (mm_Status r)\<lparr>mst_Conditions := cs\<rparr>\<rparr>"

record MicrovmMachineList =
  mml_TypeMeta :: TypeMeta
  mml_ListMeta :: ListMeta
  mml_Items :: "MicrovmMachine slice"

section \<open>api/v1alpha1/microvmcluster\_types.go\<close>

record MicrovmClusterSpec =
  cs_ControlPlaneEndpoint :: APIEndpoint
  cs_SSHPublicKeys :: "VMSSHPublicKey slice"
  cs_Placement :: Placement
  cs_MicrovmProxy :: "Proxy option"
  cs_TLSSecretRef :: string

record SSHPublicKey =
  sk_User :: string
  sk_AuthorizedKeys :: "string slice"

record MicrovmClusterStatus =
  cst_Ready :: bool
  cst_Conditions :: Conditions
  cst_FailureDomains :: FailureDomains

record MicrovmCluster =
  mc_TypeMeta :: TypeMeta
  mc_ObjectMeta :: ObjectMeta
  mc_Spec :: MicrovmClusterSpec
  mc_Status :: MicrovmClusterStatus

definition MicrovmCluster_GetConditions :: "MicrovmCluster \<Rightarrow> Conditions" where
  "MicrovmCluster_GetConditions r = cst_Conditions (mc_Status r)"

definition MicrovmCluster_SetConditions :: "Conditions \<Rightarrow> MicrovmCluster \<Rightarrow> MicrovmCluster" where
  "MicrovmCluster_SetConditions cs r = r\<lparr>mc_Status := (mc_Status r)\<lparr>cst_Conditions := cs\<rparr>\<rparr>"

record MicrovmClusterList =
  mcl_TypeMeta :: TypeMeta
  mcl_ListMeta :: ListMeta
  mcl_Items :: "MicrovmCluster slice"

section \<open>api/v1alpha1/microvmmachinetemplate\_types.go\<close>

record TemplateObjectMeta =
  tom_Labels :: string_map
  tom_Annotations :: string_map

record MicrovmMachineTemplateResource =
  mtr_ObjectMeta :: TemplateObjectMeta
  mtr_Spec :: MicrovmMachineSpec

record MicrovmMachineTemplateSpec =
  mts_Template :: MicrovmMachineTemplateResource

record MicrovmMachineTemplate =
  mt_TypeMeta :: TypeMeta
  mt_ObjectMeta :: ObjectMeta
  mt_Spec :: MicrovmMachineTemplateSpec

record MicrovmMachineTemplateList =
  mtl_TypeMeta :: TypeMeta
  mtl_ListMeta :: ListMeta
  mtl_Items :: "MicrovmMachineTemplate slice"

section \<open>Reading and writing the parts of a machine and of a cluster\<close>

abbreviation machine_name :: "MicrovmMachine \<Rightarrow> string" where
  "machine_name m \<equiv> om_Name (mm_ObjectMeta m)"

abbreviation machine_finalizers :: "MicrovmMachine \<Rightarrow> string list" where
  "machine_finalizers m \<equiv> om_Finalizers (mm_ObjectMeta m)"

abbreviation machine_provider_id :: "MicrovmMachine \<Rightarrow> string option" where
  "machine_provider_id m \<equiv> ms_ProviderID (mm_Spec m)"

abbreviation machine_ready :: "MicrovmMachine \<Rightarrow> bool" where
  "machine_ready m \<equiv> mst_Ready (mm_Status m)"

abbreviation machine_vmstate :: "MicrovmMachine \<Rightarrow> VMState option" where
  "machine_vmstate m \<equiv> mst_VMState (mm_Status m)"

abbreviation cluster_ready :: "MicrovmCluster \<Rightarrow> bool" where
  "cluster_ready c \<equiv> cst_Ready (mc_Status c)"

definition set_finalizers :: "string list \<Rightarrow> MicrovmMachine \<Rightarrow> MicrovmMachine" where
  "set_finalizers fs m = m\<lparr>mm_ObjectMeta := (mm_ObjectMeta m)\<lparr>om_Finalizers := fs\<rparr>\<rparr>"

definition set_machine_ready :: "bool \<Rightarrow> MicrovmMachine \<Rightarrow> MicrovmMachine" where
  "set_machine_ready b m = m\<lparr>mm_Status := (mm_Status m)\<lparr>mst_Ready := b\<rparr>\<rparr>"

definition set_vmstate :: "VMState \<Rightarrow> MicrovmMachine \<Rightarrow> MicrovmMachine" where
  "set_vmstate v m = m\<lparr>mm_Status := (mm_Status m)\<lparr>mst_VMState := Some v\<rparr>\<rparr>"

definition set_provider_id :: "string \<Rightarrow> MicrovmMachine \<Rightarrow> MicrovmMachine" where
  "set_provider_id s m = m\<lparr>mm_Spec := (mm_Spec m)\<lparr>ms_ProviderID := Some s\<rparr>\<rparr>"

definition set_vm_labels :: "string_map \<Rightarrow> MicrovmMachine \<Rightarrow> MicrovmMachine" where
  "set_vm_labels ls m =
     m\<lparr>mm_Spec := (mm_Spec m)\<lparr>ms_VMSpec := (ms_VMSpec (mm_Spec m))\<lparr>vm_Labels := ls\<rparr>\<rparr>\<rparr>"

named_theorems machine_parts \<open>writing one part of an object and reading another\<close>

lemmas machine_setter_defs =
  set_finalizers_def set_machine_ready_def set_vmstate_def set_provider_id_def set_vm_labels_def
  MicrovmMachine_SetConditions_def MicrovmMachine_GetConditions_def

lemma set_finalizers_parts [machine_parts]:
  "machine_finalizers (set_finalizers fs m) = fs"
  "om_DeletionTimestamp (mm_ObjectMeta (set_finalizers fs m)) = om_DeletionTimestamp (mm_ObjectMeta m)"
  "machine_name (set_finalizers fs m) = machine_name m"
  "om_Namespace (mm_ObjectMeta (set_finalizers fs m)) = om_Namespace (mm_ObjectMeta m)"
  "mm_Spec (set_finalizers fs m) = mm_Spec m"
  "mm_Status (set_finalizers fs m) = mm_Status m"
  by (simp_all add: set_finalizers_def)

lemma set_machine_ready_parts [machine_parts]:
  "mm_ObjectMeta (set_machine_ready b m) = mm_ObjectMeta m"
  "mm_Spec (set_machine_ready b m) = mm_Spec m"
  "machine_ready (set_machine_ready b m) = b"
  "machine_vmstate (set_machine_ready b m) = machine_vmstate m"
  "mst_Conditions (mm_Status (set_machine_ready b m)) = mst_Conditions (mm_Status m)"
  by (simp_all add: set_machine_ready_def)

lemma set_vmstate_parts [machine_parts]:
  "mm_ObjectMeta (set_vmstate v m) = mm_ObjectMeta m"
  "mm_Spec (set_vmstate v m) = mm_Spec m"
  "machine_ready (set_vmstate v m) = machine_ready m"
  "machine_vmstate (set_vmstate v m) = Some v"
  "mst_Conditions (mm_Status (set_vmstate v m)) = mst_Conditions (mm_Status m)"
  by (simp_all add: set_vmstate_def)

lemma set_provider_id_parts [machine_parts]:
  "mm_ObjectMeta (set_provider_id s m) = mm_ObjectMeta m"
  "machine_provider_id (set_provider_id s m) = Some s"
  "ms_VMSpec (mm_Spec (set_provider_id s m)) = ms_VMSpec (mm_Spec m)"
  "ms_SSHPublicKeys (mm_Spec (set_provider_id s m)) = ms_SSHPublicKeys (mm_Spec m)"
  "mm_Status (set_provider_id s m) = mm_Status m"
  by (simp_all add: set_provider_id_def)

lemma SetConditions_parts [machine_parts]:
  "mm_ObjectMeta (MicrovmMachine_SetConditions cs m) = mm_ObjectMeta m"
  "mm_Spec (MicrovmMachine_SetConditions cs m) = mm_Spec m"
  "machine_ready (MicrovmMachine_SetConditions cs m) = machine_ready m"
  "machine_vmstate (MicrovmMachine_SetConditions cs m) = machine_vmstate m"
  "mst_Conditions (mm_Status (MicrovmMachine_SetConditions cs m)) = cs"
  "MicrovmMachine_GetConditions (MicrovmMachine_SetConditions cs m) = cs"
  by (simp_all add: MicrovmMachine_SetConditions_def MicrovmMachine_GetConditions_def)

lemma set_vm_labels_parts [machine_parts]:
  "mm_ObjectMeta (set_vm_labels ls m) = mm_ObjectMeta m"
  "machine_provider_id (set_vm_labels ls m) = machine_provider_id m"
  "ms_SSHPublicKeys (mm_Spec (set_vm_labels ls m)) = ms_SSHPublicKeys (mm_Spec m)"
  "vm_Labels (ms_VMSpec (mm_Spec (set_vm_labels ls m))) = ls"
  "vm_NetworkInterfaces (ms_VMSpec (mm_Spec (set_vm_labels ls m))) =
     vm_NetworkInterfaces (ms_VMSpec (mm_Spec m))"
  "mm_Status (set_vm_labels ls m) = mm_Status m"
  by (simp_all add: set_vm_labels_def)

section \<open>The Go interface conditions.Setter\<close>

text \<open>
  Both resources implement the interface of Cluster API's conditions package; what the package
  relies on is that a getter returns what the setter stored and that nothing else is touched.
\<close>

locale conditions_setter =
  fixes get_conditions :: "'o \<Rightarrow> Conditions"
    and set_conditions :: "Conditions \<Rightarrow> 'o \<Rightarrow> 'o"
  assumes get_set: "get_conditions (set_conditions cs o') = cs"
    and set_get: "set_conditions (get_conditions o') o' = o'"
    and set_set: "set_conditions cs (set_conditions cs' o') = set_conditions cs o'"
begin

text \<open>Rewriting the conditions through the interface, and composing two rewritings.\<close>

lemma update_id: "set_conditions (id (get_conditions x)) x = x"
  by (simp add: set_get)

lemma update_comp:
  "set_conditions (g (get_conditions (set_conditions (f (get_conditions x)) x)))
     (set_conditions (f (get_conditions x)) x) = set_conditions (g (f (get_conditions x))) x"
  by (simp add: get_set set_set)

end

interpretation machine_conditions: conditions_setter
  MicrovmMachine_GetConditions MicrovmMachine_SetConditions
  by unfold_locales (simp_all add: MicrovmMachine_GetConditions_def MicrovmMachine_SetConditions_def)

interpretation cluster_conditions: conditions_setter
  MicrovmCluster_GetConditions MicrovmCluster_SetConditions
  by unfold_locales (simp_all add: MicrovmCluster_GetConditions_def MicrovmCluster_SetConditions_def)

end
