(* ===== verification/Memory_Types.thy ===== *)
theory Memory_Types
  imports Go_Heap Api_Types
begin

text \<open>
  The API types as they lie in memory: every struct with its pointers, slices and maps as references
  to cells, the cells, and the layout that relates a struct in memory to the value of \<open>Api_Types\<close> it
  stands for. The structs of other modules appear with the fields \<open>Api_Types\<close> gives them.
\<close>

section \<open>Structs in memory\<close>

text \<open>Types of other modules.\<close>

record ObjectMeta_h =
  hom_Name :: string
  hom_Namespace :: string
  hom_Labels :: "addr option"
  hom_Annotations :: "addr option"
  hom_OwnerReferences :: gslice
  hom_Finalizers :: gslice
  hom_DeletionTimestamp :: "addr option"

record ListMeta_h =
  hlm_ResourceVersion :: string
  hlm_Continue :: string
  hlm_RemainingItemCount :: "addr option"

record TemplateObjectMeta_h =
  htom_Labels :: "addr option"
  htom_Annotations :: "addr option"

record FailureDomainSpec_h =
  hfd_ControlPlane :: bool
  hfd_Attributes :: "addr option"

record VMSpec_h =
  hvm_Labels :: "addr option"
  hvm_NetworkInterfaces :: gslice
  hvm_Other :: string

record VMSSHPublicKey_h =
  hssh_User :: string
  hssh_AuthorizedKeys :: gslice

text \<open>Types of \<^verbatim>\<open>api/v1alpha1\<close>; a \<open>MicrovmHost\<close> has no references.\<close>

record StaticPoolPlacement_h =
  hsp_Hosts :: gslice
  hsp_BasicAuthSecret :: string

record Placement_h =
  hpl_StaticPool :: "addr option"

record TLSConfig_h =
  htls_Cert :: gslice
  htls_Key :: gslice
  htls_CACert :: gslice

record SSHPublicKey_h =
  hsk_User :: string
  hsk_AuthorizedKeys :: gslice

record MicrovmMachineSpec_h =
  hms_VMSpec :: VMSpec_h
  hms_SSHPublicKeys :: gslice
  hms_ProviderID :: "addr option"

record MicrovmMachineStatus_h =
  hmst_Ready :: bool
  hmst_VMState :: "addr option"
  hmst_Addresses :: gslice
  hmst_FailureReason :: "addr option"
  hmst_FailureMessage :: "addr option"
  hmst_Conditions :: gslice

record MicrovmMachine_h =
  hmm_TypeMeta :: TypeMeta
  hmm_ObjectMeta :: ObjectMeta_h
  hmm_Spec :: MicrovmMachineSpec_h
  hmm_Status :: MicrovmMachineStatus_h

record MicrovmMachineList_h =
  hmml_TypeMeta :: TypeMeta
  hmml_ListMeta :: ListMeta_h
  hmml_Items :: gslice

record MicrovmClusterSpec_h =
  hcs_ControlPlaneEndpoint :: APIEndpoint
  hcs_SSHPublicKeys :: gslice
  hcs_Placement :: Placement_h
  hcs_MicrovmProxy :: "addr option"
  hcs_TLSSecretRef :: string

record MicrovmClusterStatus_h =
  hcst_Ready :: bool
  hcst_Conditions :: gslice
  hcst_FailureDomains :: "addr option"

record MicrovmCluster_h =
  hmc_TypeMeta :: TypeMeta
  hmc_ObjectMeta :: ObjectMeta_h
  hmc_Spec :: MicrovmClusterSpec_h
  hmc_Status :: MicrovmClusterStatus_h

record MicrovmClusterList_h =
  hmcl_TypeMeta :: TypeMeta
  hmcl_ListMeta :: ListMeta_h
  hmcl_Items :: gslice

record MicrovmMachineTemplateResource_h =
  hmtr_ObjectMeta :: TemplateObjectMeta_h
  hmtr_Spec :: MicrovmMachineSpec_h

record MicrovmMachineTemplateSpec_h =
  hmts_Template :: MicrovmMachineTemplateResource_h

record MicrovmMachineTemplate_h =
  hmt_TypeMeta :: TypeMeta
  hmt_ObjectMeta :: ObjectMeta_h
  hmt_Spec :: MicrovmMachineTemplateSpec_h

record MicrovmMachineTemplateList_h =
  hmtl_TypeMeta :: TypeMeta
  hmtl_ListMeta :: ListMeta_h
  hmtl_Items :: gslice

section \<open>Cells\<close>

text \<open>
  What a reference may lead to: a map, a value behind a pointer, the array behind a slice, or an
  object of its own.
\<close>

datatype cell =
    C_stringmap "string \<rightharpoonup> string"
  | C_time "time"
  | C_int "int"
  | C_string "string"
  | C_statuserror "string"
  | C_vmstate "VMState"
  | C_proxy "Proxy"
  | A_string "string list"
  | A_byte "char list"
  | A_owner "OwnerReference list"
  | A_interface "NetworkInterface list"
  | A_address "MachineAddress list"
  | A_condition "Condition list"
  | A_host "MicrovmHost list"
  | A_key "VMSSHPublicKey_h list"
  | A_cluster "MicrovmCluster_h list"
  | A_machine "MicrovmMachine_h list"
  | A_template "MicrovmMachineTemplate_h list"
  | M_domain "(string \<times> FailureDomainSpec_h) list"
  | O_MicrovmCluster MicrovmCluster_h
  | O_MicrovmClusterList MicrovmClusterList_h
  | O_MicrovmClusterSpec MicrovmClusterSpec_h
  | O_MicrovmClusterStatus MicrovmClusterStatus_h
  | O_MicrovmHost MicrovmHost
  | O_MicrovmMachine MicrovmMachine_h
  | O_MicrovmMachineList MicrovmMachineList_h
  | O_MicrovmMachineSpec MicrovmMachineSpec_h
  | O_MicrovmMachineStatus MicrovmMachineStatus_h
  | O_MicrovmMachineTemplate MicrovmMachineTemplate_h
  | O_MicrovmMachineTemplateList MicrovmMachineTemplateList_h
  | O_MicrovmMachineTemplateResource MicrovmMachineTemplateResource_h
  | O_MicrovmMachineTemplateSpec MicrovmMachineTemplateSpec_h
  | O_Placement Placement_h
  | O_SSHPublicKey SSHPublicKey_h
  | O_StaticPoolPlacement StaticPoolPlacement_h
  | O_TLSConfig TLSConfig_h

text \<open>Zero values.\<close>

definition zero_TypeMeta :: TypeMeta where
  "zero_TypeMeta = \<lparr>tm_Kind = '''', tm_APIVersion = ''''\<rparr>"

definition zero_APIEndpoint :: APIEndpoint where
  "zero_APIEndpoint = \<lparr>ep_Host = '''', ep_Port = 0\<rparr>"

definition zero_MicrovmHost :: MicrovmHost where
  "zero_MicrovmHost = \<lparr>host_Name = '''', host_Endpoint = '''', host_ControlPlaneAllowed = False\<rparr>"

definition zero_MachineAddress :: MachineAddress where
  "zero_MachineAddress = \<lparr>ma_Type = '''', ma_Address = ''''\<rparr>"

definition zero_ObjectMeta_h :: ObjectMeta_h where
  "zero_ObjectMeta_h = \<lparr>hom_Name = '''', hom_Namespace = '''', hom_Labels = None, hom_Annotations = None,
     hom_OwnerReferences = SNil, hom_Finalizers = SNil, hom_DeletionTimestamp = None\<rparr>"

definition zero_ListMeta_h :: ListMeta_h where
  "zero_ListMeta_h = \<lparr>hlm_ResourceVersion = '''', hlm_Continue = '''', hlm_RemainingItemCount = None\<rparr>"

definition zero_TemplateObjectMeta_h :: TemplateObjectMeta_h where
  "zero_TemplateObjectMeta_h = \<lparr>htom_Labels = None, htom_Annotations = None\<rparr>"

definition zero_VMSpec_h :: VMSpec_h where
  "zero_VMSpec_h = \<lparr>hvm_Labels = None, hvm_NetworkInterfaces = SNil, hvm_Other = ''''\<rparr>"

definition zero_VMSSHPublicKey_h :: VMSSHPublicKey_h where
  "zero_VMSSHPublicKey_h = \<lparr>hssh_User = '''', hssh_AuthorizedKeys = SNil\<rparr>"

definition zero_StaticPoolPlacement_h :: StaticPoolPlacement_h where
  "zero_StaticPoolPlacement_h = \<lparr>hsp_Hosts = SNil, hsp_BasicAuthSecret = ''''\<rparr>"

definition zero_Placement_h :: Placement_h where
  "zero_Placement_h = \<lparr>hpl_StaticPool = None\<rparr>"

definition zero_TLSConfig_h :: TLSConfig_h where
  "zero_TLSConfig_h = \<lparr>htls_Cert = SNil, htls_Key = SNil, htls_CACert = SNil\<rparr>"

definition zero_SSHPublicKey_h :: SSHPublicKey_h where
  "zero_SSHPublicKey_h = \<lparr>hsk_User = '''', hsk_AuthorizedKeys = SNil\<rparr>"

definition zero_MicrovmMachineSpec_h :: MicrovmMachineSpec_h where
  "zero_MicrovmMachineSpec_h = \<lparr>hms_VMSpec = zero_VMSpec_h, hms_SSHPublicKeys = SNil, hms_ProviderID = None\<rparr>"

definition zero_MicrovmMachineStatus_h :: MicrovmMachineStatus_h where
  "zero_MicrovmMachineStatus_h = \<lparr>hmst_Ready = False, hmst_VMState = None, hmst_Addresses = SNil,
     hmst_FailureReason = None, hmst_FailureMessage = None, hmst_Conditions = SNil\<rparr>"

definition zero_MicrovmMachine_h :: MicrovmMachine_h where
  "zero_MicrovmMachine_h = \<lparr>hmm_TypeMeta = zero_TypeMeta, hmm_ObjectMeta = zero_ObjectMeta_h,
     hmm_Spec = zero_MicrovmMachineSpec_h, hmm_Status = zero_MicrovmMachineStatus_h\<rparr>"

definition zero_MicrovmMachineList_h :: MicrovmMachineList_h where
  "zero_MicrovmMachineList_h = \<lparr>hmml_TypeMeta = zero_TypeMeta, hmml_ListMeta = zero_ListMeta_h, hmml_Items = SNil\<rparr>"

definition zero_MicrovmClusterSpec_h :: MicrovmClusterSpec_h where
  "zero_MicrovmClusterSpec_h = \<lparr>hcs_ControlPlaneEndpoint = zero_APIEndpoint, hcs_SSHPublicKeys = SNil,
     hcs_Placement = zero_Placement_h, hcs_MicrovmProxy = None, hcs_TLSSecretRef = ''''\<rparr>"

definition zero_MicrovmClusterStatus_h :: MicrovmClusterStatus_h where
  "zero_MicrovmClusterStatus_h = \<lparr>hcst_Ready = False, hcst_Conditions = SNil, hcst_FailureDomains = None\<rparr>"

definition zero_MicrovmCluster_h :: MicrovmCluster_h where
  "zero_MicrovmCluster_h = \<lparr>hmc_TypeMeta = zero_TypeMeta, hmc_ObjectMeta = zero_ObjectMeta_h,
     hmc_Spec = zero_MicrovmClusterSpec_h, hmc_Status = zero_MicrovmClusterStatus_h\<rparr>"

definition zero_MicrovmClusterList_h :: MicrovmClusterList_h where
  "zero_MicrovmClusterList_h = \<lparr>hmcl_TypeMeta = zero_TypeMeta, hmcl_ListMeta = zero_ListMeta_h, hmcl_Items = SNil\<rparr>"

definition zero_MicrovmMachineTemplateResource_h :: MicrovmMachineTemplateResource_h where
  "zero_MicrovmMachineTemplateResource_h = \<lparr>hmtr_ObjectMeta = zero_TemplateObjectMeta_h, hmtr_Spec = zero_MicrovmMachineSpec_h\<rparr>"

definition zero_MicrovmMachineTemplateSpec_h :: MicrovmMachineTemplateSpec_h where
  "zero_MicrovmMachineTemplateSpec_h = \<lparr>hmts_Template = zero_MicrovmMachineTemplateResource_h\<rparr>"

definition zero_MicrovmMachineTemplate_h :: MicrovmMachineTemplate_h where
  "zero_MicrovmMachineTemplate_h = \<lparr>hmt_TypeMeta = zero_TypeMeta, hmt_ObjectMeta = zero_ObjectMeta_h,
     hmt_Spec = zero_MicrovmMachineTemplateSpec_h\<rparr>"

definition zero_MicrovmMachineTemplateList_h :: MicrovmMachineTemplateList_h where
  "zero_MicrovmMachineTemplateList_h = \<lparr>hmtl_TypeMeta = zero_TypeMeta, hmtl_ListMeta = zero_ListMeta_h, hmtl_Items = SNil\<rparr>"

text \<open>The type of each kind of cell.\<close>

definition string_map_cell :: "(string \<rightharpoonup> string, cell) cell_type" where
  "string_map_cell = \<lparr>ct_mk = C_stringmap, ct_un = \<lambda>c. case c of C_stringmap x \<Rightarrow> Some x | _ \<Rightarrow> None, ct_zero = Map.empty\<rparr>"

definition time_cell :: "(time, cell) cell_type" where
  "time_cell = \<lparr>ct_mk = C_time, ct_un = \<lambda>c. case c of C_time x \<Rightarrow> Some x | _ \<Rightarrow> None, ct_zero = 0\<rparr>"

definition int_cell :: "(int, cell) cell_type" where
  "int_cell = \<lparr>ct_mk = C_int, ct_un = \<lambda>c. case c of C_int x \<Rightarrow> Some x | _ \<Rightarrow> None, ct_zero = 0\<rparr>"

definition string_cell :: "(string, cell) cell_type" where
  "string_cell = \<lparr>ct_mk = C_string, ct_un = \<lambda>c. case c of C_string x \<Rightarrow> Some x | _ \<Rightarrow> None, ct_zero = ''''\<rparr>"

definition status_error_cell :: "(string, cell) cell_type" where
  "status_error_cell = \<lparr>ct_mk = C_statuserror, ct_un = \<lambda>c. case c of C_statuserror x \<Rightarrow> Some x | _ \<Rightarrow> None, ct_zero = ''''\<rparr>"

definition vmstate_cell :: "(VMState, cell) cell_type" where
  "vmstate_cell = \<lparr>ct_mk = C_vmstate, ct_un = \<lambda>c. case c of C_vmstate x \<Rightarrow> Some x | _ \<Rightarrow> None, ct_zero = VMStateOther ''''\<rparr>"

definition proxy_cell :: "(Proxy, cell) cell_type" where
  "proxy_cell = \<lparr>ct_mk = C_proxy, ct_un = \<lambda>c. case c of C_proxy x \<Rightarrow> Some x | _ \<Rightarrow> None, ct_zero = Proxy ''''\<rparr>"

definition string_array :: "(string list, cell) cell_type" where
  "string_array = \<lparr>ct_mk = A_string, ct_un = \<lambda>c. case c of A_string x \<Rightarrow> Some x | _ \<Rightarrow> None, ct_zero = []\<rparr>"

definition byte_array :: "(char list, cell) cell_type" where
  "byte_array = \<lparr>ct_mk = A_byte, ct_un = \<lambda>c. case c of A_byte x \<Rightarrow> Some x | _ \<Rightarrow> None, ct_zero = []\<rparr>"

definition owner_array :: "(OwnerReference list, cell) cell_type" where
  "owner_array = \<lparr>ct_mk = A_owner, ct_un = \<lambda>c. case c of A_owner x \<Rightarrow> Some x | _ \<Rightarrow> None, ct_zero = []\<rparr>"

definition interface_array :: "(NetworkInterface list, cell) cell_type" where
  "interface_array = \<lparr>ct_mk = A_interface, ct_un = \<lambda>c. case c of A_interface x \<Rightarrow> Some x | _ \<Rightarrow> None, ct_zero = []\<rparr>"

definition address_array :: "(MachineAddress list, cell) cell_type" where
  "address_array = \<lparr>ct_mk = A_address, ct_un = \<lambda>c. case c of A_address x \<Rightarrow> Some x | _ \<Rightarrow> None, ct_zero = []\<rparr>"

definition condition_array :: "(Condition list, cell) cell_type" where
  "condition_array = \<lparr>ct_mk = A_condition, ct_un = \<lambda>c. case c of A_condition x \<Rightarrow> Some x | _ \<Rightarrow> None, ct_zero = []\<rparr>"

definition host_array :: "(MicrovmHost list, cell) cell_type" where
  "host_array = \<lparr>ct_mk = A_host, ct_un = \<lambda>c. case c of A_host x \<Rightarrow> Some x | _ \<Rightarrow> None, ct_zero = []\<rparr>"

definition key_array :: "(VMSSHPublicKey_h list, cell) cell_type" where
  "key_array = \<lparr>ct_mk = A_key, ct_un = \<lambda>c. case c of A_key x \<Rightarrow> Some x | _ \<Rightarrow> None, ct_zero = []\<rparr>"

definition cluster_array :: "(MicrovmCluster_h list, cell) cell_type" where
  "cluster_array = \<lparr>ct_mk = A_cluster, ct_un = \<lambda>c. case c of A_cluster x \<Rightarrow> Some x | _ \<Rightarrow> None, ct_zero = []\<rparr>"

definition machine_array :: "(MicrovmMachine_h list, cell) cell_type" where
  "machine_array = \<lparr>ct_mk = A_machine, ct_un = \<lambda>c. case c of A_machine x \<Rightarrow> Some x | _ \<Rightarrow> None, ct_zero = []\<rparr>"

definition template_array :: "(MicrovmMachineTemplate_h list, cell) cell_type" where
  "template_array = \<lparr>ct_mk = A_template, ct_un = \<lambda>c. case c of A_template x \<Rightarrow> Some x | _ \<Rightarrow> None, ct_zero = []\<rparr>"

definition domain_map :: "((string \<times> FailureDomainSpec_h) list, cell) cell_type" where
  "domain_map = \<lparr>ct_mk = M_domain, ct_un = \<lambda>c. case c of M_domain x \<Rightarrow> Some x | _ \<Rightarrow> None, ct_zero = []\<rparr>"

definition MicrovmCluster_cell :: "(MicrovmCluster_h, cell) cell_type" where
  "MicrovmCluster_cell = \<lparr>ct_mk = O_MicrovmCluster, ct_un = \<lambda>c. case c of O_MicrovmCluster x \<Rightarrow> Some x | _ \<Rightarrow> None,
     ct_zero = zero_MicrovmCluster_h\<rparr>"

definition MicrovmClusterList_cell :: "(MicrovmClusterList_h, cell) cell_type" where
  "MicrovmClusterList_cell = \<lparr>ct_mk = O_MicrovmClusterList, ct_un = \<lambda>c. case c of O_MicrovmClusterList x \<Rightarrow> Some x | _ \<Rightarrow> None,
     ct_zero = zero_MicrovmClusterList_h\<rparr>"

definition MicrovmClusterSpec_cell :: "(MicrovmClusterSpec_h, cell) cell_type" where
  "MicrovmClusterSpec_cell = \<lparr>ct_mk = O_MicrovmClusterSpec, ct_un = \<lambda>c. case c of O_MicrovmClusterSpec x \<Rightarrow> Some x | _ \<Rightarrow> None,
     ct_zero = zero_MicrovmClusterSpec_h\<rparr>"

definition MicrovmClusterStatus_cell :: "(MicrovmClusterStatus_h, cell) cell_type" where
  "MicrovmClusterStatus_cell = \<lparr>ct_mk = O_MicrovmClusterStatus, ct_un = \<lambda>c. case c of O_MicrovmClusterStatus x \<Rightarrow> Some x | _ \<Rightarrow> None,
     ct_zero = zero_MicrovmClusterStatus_h\<rparr>"

definition MicrovmHost_cell :: "(MicrovmHost, cell) cell_type" where
  "MicrovmHost_cell = \<lparr>ct_mk = O_MicrovmHost, ct_un = \<lambda>c. case c of O_MicrovmHost x \<Rightarrow> Some x | _ \<Rightarrow> None,
     ct_zero = zero_MicrovmHost\<rparr>"

definition MicrovmMachine_cell :: "(MicrovmMachine_h, cell) cell_type" where
  "MicrovmMachine_cell = \<lparr>ct_mk = O_MicrovmMachine, ct_un = \<lambda>c. case c of O_MicrovmMachine x \<Rightarrow> Some x | _ \<Rightarrow> None,
     ct_zero = zero_MicrovmMachine_h\<rparr>"

definition MicrovmMachineList_cell :: "(MicrovmMachineList_h, cell) cell_type" where
  "MicrovmMachineList_cell = \<lparr>ct_mk = O_MicrovmMachineList, ct_un = \<lambda>c. case c of O_MicrovmMachineList x \<Rightarrow> Some x | _ \<Rightarrow> None,
     ct_zero = zero_MicrovmMachineList_h\<rparr>"

definition MicrovmMachineSpec_cell :: "(MicrovmMachineSpec_h, cell) cell_type" where
  "MicrovmMachineSpec_cell = \<lparr>ct_mk = O_MicrovmMachineSpec, ct_un = \<lambda>c. case c of O_MicrovmMachineSpec x \<Rightarrow> Some x | _ \<Rightarrow> None,
     ct_zero = zero_MicrovmMachineSpec_h\<rparr>"

definition MicrovmMachineStatus_cell :: "(MicrovmMachineStatus_h, cell) cell_type" where
  "MicrovmMachineStatus_cell = \<lparr>ct_mk = O_MicrovmMachineStatus, ct_un = \<lambda>c. case c of O_MicrovmMachineStatus x \<Rightarrow> Some x | _ \<Rightarrow> None,
     ct_zero = zero_MicrovmMachineStatus_h\<rparr>"

definition MicrovmMachineTemplate_cell :: "(MicrovmMachineTemplate_h, cell) cell_type" where
  "MicrovmMachineTemplate_cell = \<lparr>ct_mk = O_MicrovmMachineTemplate, ct_un = \<lambda>c. case c of O_MicrovmMachineTemplate x \<Rightarrow> Some x | _ \<Rightarrow> None,
     ct_zero = zero_MicrovmMachineTemplate_h\<rparr>"

definition MicrovmMachineTemplateList_cell :: "(MicrovmMachineTemplateList_h, cell) cell_type" where
  "MicrovmMachineTemplateList_cell = \<lparr>ct_mk = O_MicrovmMachineTemplateList, ct_un = \<lambda>c. case c of O_MicrovmMachineTemplateList x \<Rightarrow> Some x | _ \<Rightarrow> None,
     ct_zero = zero_MicrovmMachineTemplateList_h\<rparr>"

definition MicrovmMachineTemplateResource_cell :: "(MicrovmMachineTemplateResource_h, cell) cell_type" where
  "MicrovmMachineTemplateResource_cell = \<lparr>ct_mk = O_MicrovmMachineTemplateResource, ct_un = \<lambda>c. case c of O_MicrovmMachineTemplateResource x \<Rightarrow> Some x | _ \<Rightarrow> None,
     ct_zero = zero_MicrovmMachineTemplateResource_h\<rparr>"

definition MicrovmMachineTemplateSpec_cell :: "(MicrovmMachineTemplateSpec_h, cell) cell_type" where
  "MicrovmMachineTemplateSpec_cell = \<lparr>ct_mk = O_MicrovmMachineTemplateSpec, ct_un = \<lambda>c. case c of O_MicrovmMachineTemplateSpec x \<Rightarrow> Some x | _ \<Rightarrow> None,
     ct_zero = zero_MicrovmMachineTemplateSpec_h\<rparr>"

definition Placement_cell :: "(Placement_h, cell) cell_type" where
  "Placement_cell = \<lparr>ct_mk = O_Placement, ct_un = \<lambda>c. case c of O_Placement x \<Rightarrow> Some x | _ \<Rightarrow> None,
     ct_zero = zero_Placement_h\<rparr>"

definition SSHPublicKey_cell :: "(SSHPublicKey_h, cell) cell_type" where
  "SSHPublicKey_cell = \<lparr>ct_mk = O_SSHPublicKey, ct_un = \<lambda>c. case c of O_SSHPublicKey x \<Rightarrow> Some x | _ \<Rightarrow> None,
     ct_zero = zero_SSHPublicKey_h\<rparr>"

definition StaticPoolPlacement_cell :: "(StaticPoolPlacement_h, cell) cell_type" where
  "StaticPoolPlacement_cell = \<lparr>ct_mk = O_StaticPoolPlacement, ct_un = \<lambda>c. case c of O_StaticPoolPlacement x \<Rightarrow> Some x | _ \<Rightarrow> None,
     ct_zero = zero_StaticPoolPlacement_h\<rparr>"

definition TLSConfig_cell :: "(TLSConfig_h, cell) cell_type" where
  "TLSConfig_cell = \<lparr>ct_mk = O_TLSConfig, ct_un = \<lambda>c. case c of O_TLSConfig x \<Rightarrow> Some x | _ \<Rightarrow> None,
     ct_zero = zero_TLSConfig_h\<rparr>"

lemmas cell_type_defs =
  string_map_cell_def time_cell_def int_cell_def string_cell_def status_error_cell_def
  vmstate_cell_def proxy_cell_def string_array_def byte_array_def owner_array_def
  interface_array_def address_array_def condition_array_def host_array_def key_array_def
  cluster_array_def machine_array_def template_array_def domain_map_def MicrovmCluster_cell_def
  MicrovmClusterList_cell_def MicrovmClusterSpec_cell_def MicrovmClusterStatus_cell_def
  MicrovmHost_cell_def MicrovmMachine_cell_def MicrovmMachineList_cell_def
  MicrovmMachineSpec_cell_def MicrovmMachineStatus_cell_def MicrovmMachineTemplate_cell_def
  MicrovmMachineTemplateList_cell_def MicrovmMachineTemplateResource_cell_def
  MicrovmMachineTemplateSpec_cell_def Placement_cell_def SSHPublicKey_cell_def
  StaticPoolPlacement_cell_def TLSConfig_cell_def

lemma cell_types_tagged [simp]:
  "tagged string_map_cell" "tagged time_cell" "tagged int_cell" "tagged string_cell"
  "tagged status_error_cell" "tagged vmstate_cell" "tagged proxy_cell" "tagged string_array"
  "tagged byte_array" "tagged owner_array" "tagged interface_array" "tagged address_array"
  "tagged condition_array" "tagged host_array" "tagged key_array" "tagged cluster_array"
  "tagged machine_array" "tagged template_array" "tagged domain_map" "tagged MicrovmCluster_cell"
  "tagged MicrovmClusterList_cell" "tagged MicrovmClusterSpec_cell"
  "tagged MicrovmClusterStatus_cell" "tagged MicrovmHost_cell" "tagged MicrovmMachine_cell"
  "tagged MicrovmMachineList_cell" "tagged MicrovmMachineSpec_cell"
  "tagged MicrovmMachineStatus_cell" "tagged MicrovmMachineTemplate_cell"
  "tagged MicrovmMachineTemplateList_cell" "tagged MicrovmMachineTemplateResource_cell"
  "tagged MicrovmMachineTemplateSpec_cell" "tagged Placement_cell" "tagged SSHPublicKey_cell"
  "tagged StaticPoolPlacement_cell" "tagged TLSConfig_cell"
  by (simp_all add: tagged_def cell_type_defs)

section \<open>Layouts\<close>

definition ObjectMeta_layout :: "(ObjectMeta_h, ObjectMeta, cell) layout" where
  "ObjectMeta_layout = struct_layout
     (\<lambda>s. (hom_Name s, hom_Namespace s, hom_Labels s, hom_Annotations s, hom_OwnerReferences s, hom_Finalizers s, hom_DeletionTimestamp s))
     (\<lambda>(a, b, c, d, e, f, g). \<lparr>om_Name = a, om_Namespace = b, om_Labels = c, om_Annotations = d, om_OwnerReferences = elems e, om_Finalizers = elems f, om_DeletionTimestamp = g\<rparr>)
     (pair_layout flat_layout
       (pair_layout flat_layout
       (pair_layout (ptr_layout string_map_cell flat_layout)
       (pair_layout (ptr_layout string_map_cell flat_layout)
       (pair_layout (slice_layout owner_array flat_layout)
       (pair_layout (slice_layout string_array flat_layout)
       (ptr_layout time_cell flat_layout)))))))"

definition ListMeta_layout :: "(ListMeta_h, ListMeta, cell) layout" where
  "ListMeta_layout = struct_layout
     (\<lambda>s. (hlm_ResourceVersion s, hlm_Continue s, hlm_RemainingItemCount s))
     (\<lambda>(a, b, c). \<lparr>lm_ResourceVersion = a, lm_Continue = b, lm_RemainingItemCount = c\<rparr>)
     (pair_layout flat_layout
       (pair_layout flat_layout
       (ptr_layout int_cell flat_layout)))"

definition TemplateObjectMeta_layout :: "(TemplateObjectMeta_h, TemplateObjectMeta, cell) layout" where
  "TemplateObjectMeta_layout = struct_layout
     (\<lambda>s. (htom_Labels s, htom_Annotations s))
     (\<lambda>(a, b). \<lparr>tom_Labels = a, tom_Annotations = b\<rparr>)
     (pair_layout (ptr_layout string_map_cell flat_layout)
       (ptr_layout string_map_cell flat_layout))"

definition FailureDomainSpec_layout :: "(FailureDomainSpec_h, FailureDomainSpec, cell) layout" where
  "FailureDomainSpec_layout = struct_layout
     (\<lambda>s. (hfd_ControlPlane s, hfd_Attributes s))
     (\<lambda>(a, b). \<lparr>fd_ControlPlane = a, fd_Attributes = b\<rparr>)
     (pair_layout flat_layout
       (ptr_layout string_map_cell flat_layout))"

definition VMSpec_layout :: "(VMSpec_h, VMSpec, cell) layout" where
  "VMSpec_layout = struct_layout
     (\<lambda>s. (hvm_Labels s, hvm_NetworkInterfaces s, hvm_Other s))
     (\<lambda>(a, b, c). \<lparr>vm_Labels = a, vm_NetworkInterfaces = b, vm_Other = c\<rparr>)
     (pair_layout (ptr_layout string_map_cell flat_layout)
       (pair_layout (slice_layout interface_array flat_layout)
       flat_layout))"

definition VMSSHPublicKey_layout :: "(VMSSHPublicKey_h, VMSSHPublicKey, cell) layout" where
  "VMSSHPublicKey_layout = struct_layout
     (\<lambda>s. (hssh_User s, hssh_AuthorizedKeys s))
     (\<lambda>(a, b). \<lparr>ssh_User = a, ssh_AuthorizedKeys = b\<rparr>)
     (pair_layout flat_layout
       (slice_layout string_array flat_layout))"

definition StaticPoolPlacement_layout :: "(StaticPoolPlacement_h, StaticPoolPlacement, cell) layout" where
  "StaticPoolPlacement_layout = struct_layout
     (\<lambda>s. (hsp_Hosts s, hsp_BasicAuthSecret s))
     (\<lambda>(a, b). \<lparr>sp_Hosts = a, sp_BasicAuthSecret = b\<rparr>)
     (pair_layout (slice_layout host_array flat_layout)
       flat_layout)"

definition Placement_layout :: "(Placement_h, Placement, cell) layout" where
  "Placement_layout = struct_layout
     (\<lambda>s. hpl_StaticPool s)
     (\<lambda>a. \<lparr>pl_StaticPool = a\<rparr>)
     (ptr_layout StaticPoolPlacement_cell StaticPoolPlacement_layout)"

definition TLSConfig_layout :: "(TLSConfig_h, TLSConfig, cell) layout" where
  "TLSConfig_layout = struct_layout
     (\<lambda>s. (htls_Cert s, htls_Key s, htls_CACert s))
     (\<lambda>(a, b, c). \<lparr>tls_Cert = a, tls_Key = b, tls_CACert = c\<rparr>)
     (pair_layout (slice_layout byte_array flat_layout)
       (pair_layout (slice_layout byte_array flat_layout)
       (slice_layout byte_array flat_layout)))"

definition SSHPublicKey_layout :: "(SSHPublicKey_h, SSHPublicKey, cell) layout" where
  "SSHPublicKey_layout = struct_layout
     (\<lambda>s. (hsk_User s, hsk_AuthorizedKeys s))
     (\<lambda>(a, b). \<lparr>sk_User = a, sk_AuthorizedKeys = b\<rparr>)
     (pair_layout flat_layout
       (slice_layout string_array flat_layout))"

definition MicrovmMachineSpec_layout :: "(MicrovmMachineSpec_h, MicrovmMachineSpec, cell) layout" where
  "MicrovmMachineSpec_layout = struct_layout
     (\<lambda>s. (hms_VMSpec s, hms_SSHPublicKeys s, hms_ProviderID s))
     (\<lambda>(a, b, c). \<lparr>ms_VMSpec = a, ms_SSHPublicKeys = b, ms_ProviderID = c\<rparr>)
     (pair_layout VMSpec_layout
       (pair_layout (slice_layout key_array VMSSHPublicKey_layout)
       (ptr_layout string_cell flat_layout)))"

definition MicrovmMachineStatus_layout :: "(MicrovmMachineStatus_h, MicrovmMachineStatus, cell) layout" where
  "MicrovmMachineStatus_layout = struct_layout
     (\<lambda>s. (hmst_Ready s, hmst_VMState s, hmst_Addresses s, hmst_FailureReason s, hmst_FailureMessage s, hmst_Conditions s))
     (\<lambda>(a, b, c, d, e, f). \<lparr>mst_Ready = a, mst_VMState = b, mst_Addresses = c, mst_FailureReason = d, mst_FailureMessage = e, mst_Conditions = f\<rparr>)
     (pair_layout flat_layout
       (pair_layout (ptr_layout vmstate_cell flat_layout)
       (pair_layout (slice_layout address_array flat_layout)
       (pair_layout (ptr_layout status_error_cell flat_layout)
       (pair_layout (ptr_layout string_cell flat_layout)
       (slice_layout condition_array flat_layout))))))"

definition MicrovmMachine_layout :: "(MicrovmMachine_h, MicrovmMachine, cell) layout" where
  "MicrovmMachine_layout = struct_layout
     (\<lambda>s. (hmm_TypeMeta s, hmm_ObjectMeta s, hmm_Spec s, hmm_Status s))
     (\<lambda>(a, b, c, d). \<lparr>mm_TypeMeta = a, mm_ObjectMeta = b, mm_Spec = c, mm_Status = d\<rparr>)
     (pair_layout flat_layout
       (pair_layout ObjectMeta_layout
       (pair_layout MicrovmMachineSpec_layout
       MicrovmMachineStatus_layout)))"

definition MicrovmMachineList_layout :: "(MicrovmMachineList_h, MicrovmMachineList, cell) layout" where
  "MicrovmMachineList_layout = struct_layout
     (\<lambda>s. (hmml_TypeMeta s, hmml_ListMeta s, hmml_Items s))
     (\<lambda>(a, b, c). \<lparr>mml_TypeMeta = a, mml_ListMeta = b, mml_Items = c\<rparr>)
     (pair_layout flat_layout
       (pair_layout ListMeta_layout
       (slice_layout machine_array MicrovmMachine_layout)))"

definition MicrovmClusterSpec_layout :: "(MicrovmClusterSpec_h, MicrovmClusterSpec, cell) layout" where
  "MicrovmClusterSpec_layout = struct_layout
     (\<lambda>s. (hcs_ControlPlaneEndpoint s, hcs_SSHPublicKeys s, hcs_Placement s, hcs_MicrovmProxy s, hcs_TLSSecretRef s))
     (\<lambda>(a, b, c, d, e). \<lparr>cs_ControlPlaneEndpoint = a, cs_SSHPublicKeys = b, cs_Placement = c, cs_MicrovmProxy = d, cs_TLSSecretRef = e\<rparr>)
     (pair_layout flat_layout
       (pair_layout (slice_layout key_array VMSSHPublicKey_layout)
       (pair_layout Placement_layout
       (pair_layout (ptr_layout proxy_cell flat_layout)
       flat_layout))))"

definition MicrovmClusterStatus_layout :: "(MicrovmClusterStatus_h, MicrovmClusterStatus, cell) layout" where
  "MicrovmClusterStatus_layout = struct_layout
     (\<lambda>s. (hcst_Ready s, hcst_Conditions s, hcst_FailureDomains s))
     (\<lambda>(a, b, c). \<lparr>cst_Ready = a, cst_Conditions = b, cst_FailureDomains = c\<rparr>)
     (pair_layout flat_layout
       (pair_layout (slice_layout condition_array flat_layout)
       (map_layout domain_map FailureDomainSpec_layout)))"

definition MicrovmCluster_layout :: "(MicrovmCluster_h, MicrovmCluster, cell) layout" where
  "MicrovmCluster_layout = struct_layout
     (\<lambda>s. (hmc_TypeMeta s, hmc_ObjectMeta s, hmc_Spec s, hmc_Status s))
     (\<lambda>(a, b, c, d). \<lparr>mc_TypeMeta = a, mc_ObjectMeta = b, mc_Spec = c, mc_Status = d\<rparr>)
     (pair_layout flat_layout
       (pair_layout ObjectMeta_layout
       (pair_layout MicrovmClusterSpec_layout
       MicrovmClusterStatus_layout)))"

definition MicrovmClusterList_layout :: "(MicrovmClusterList_h, MicrovmClusterList, cell) layout" where
  "MicrovmClusterList_layout = struct_layout
     (\<lambda>s. (hmcl_TypeMeta s, hmcl_ListMeta s, hmcl_Items s))
     (\<lambda>(a, b, c). \<lparr>mcl_TypeMeta = a, mcl_ListMeta = b, mcl_Items = c\<rparr>)
     (pair_layout flat_layout
       (pair_layout ListMeta_layout
       (slice_layout cluster_array MicrovmCluster_layout)))"

definition MicrovmMachineTemplateResource_layout :: "(MicrovmMachineTemplateResource_h, MicrovmMachineTemplateResource, cell) layout" where
  "MicrovmMachineTemplateResource_layout = struct_layout
     (\<lambda>s. (hmtr_ObjectMeta s, hmtr_Spec s))
     (\<lambda>(a, b). \<lparr>mtr_ObjectMeta = a, mtr_Spec = b\<rparr>)
     (pair_layout TemplateObjectMeta_layout
       MicrovmMachineSpec_layout)"

definition MicrovmMachineTemplateSpec_layout :: "(MicrovmMachineTemplateSpec_h, MicrovmMachineTemplateSpec, cell) layout" where
  "MicrovmMachineTemplateSpec_layout = struct_layout
     (\<lambda>s. hmts_Template s)
     (\<lambda>a. \<lparr>mts_Template = a\<rparr>)
     MicrovmMachineTemplateResource_layout"

definition MicrovmMachineTemplate_layout :: "(MicrovmMachineTemplate_h, MicrovmMachineTemplate, cell) layout" where
  "MicrovmMachineTemplate_layout = struct_layout
     (\<lambda>s. (hmt_TypeMeta s, hmt_ObjectMeta s, hmt_Spec s))
     (\<lambda>(a, b, c). \<lparr>mt_TypeMeta = a, mt_ObjectMeta = b, mt_Spec = c\<rparr>)
     (pair_layout flat_layout
       (pair_layout ObjectMeta_layout
       MicrovmMachineTemplateSpec_layout))"

definition MicrovmMachineTemplateList_layout :: "(MicrovmMachineTemplateList_h, MicrovmMachineTemplateList, cell) layout" where
  "MicrovmMachineTemplateList_layout = struct_layout
     (\<lambda>s. (hmtl_TypeMeta s, hmtl_ListMeta s, hmtl_Items s))
     (\<lambda>(a, b, c). \<lparr>mtl_TypeMeta = a, mtl_ListMeta = b, mtl_Items = c\<rparr>)
     (pair_layout flat_layout
       (pair_layout ListMeta_layout
       (slice_layout template_array MicrovmMachineTemplate_layout)))"

end
