(* ===== verification/Deep_Copy.thy ===== *)
theory Deep_Copy
  imports Memory_Types
begin

text \<open>
  \<^verbatim>\<open>api/v1alpha1/zz_generated.deepcopy.go\<close>: the copy functions of the API types on the heap of
  \<open>Memory_Types\<close>. \<open>DeepCopyInto\<close> gets the struct it reads and returns the struct it writes to \<open>out\<close>
  (the assignment \<open>*out = *in\<close> comes first, so nothing of the old contents of \<open>out\<close> remains);
  \<open>DeepCopy\<close> gets and returns a pointer that may be nil. Every copy is shown to satisfy the contract
  \<open>deep_copier\<close>: the same value, and nothing shared with the original.
\<close>

section \<open>Copies of other modules\<close>

text \<open>
  The copy functions of the structs of other modules, and the zero value of their type \<open>Condition\<close>.
  What the generated code relies on is that each of them is a deep copy.
\<close>

record copies =
  x_ObjectMeta :: "ObjectMeta_h \<Rightarrow> cell heap \<Rightarrow> ObjectMeta_h \<times> cell heap"
  x_ListMeta :: "ListMeta_h \<Rightarrow> cell heap \<Rightarrow> ListMeta_h \<times> cell heap"
  x_TemplateObjectMeta :: "TemplateObjectMeta_h \<Rightarrow> cell heap \<Rightarrow> TemplateObjectMeta_h \<times> cell heap"
  x_FailureDomainSpec :: "FailureDomainSpec_h \<Rightarrow> cell heap \<Rightarrow> FailureDomainSpec_h \<times> cell heap"
  x_VMSpec :: "VMSpec_h \<Rightarrow> cell heap \<Rightarrow> VMSpec_h \<times> cell heap"
  x_SSHPublicKey :: "VMSSHPublicKey_h \<Rightarrow> cell heap \<Rightarrow> VMSSHPublicKey_h \<times> cell heap"
  x_Condition :: "Condition \<Rightarrow> cell heap \<Rightarrow> Condition \<times> cell heap"
  x_zero_Condition :: Condition

definition copies_ok :: "copies \<Rightarrow> bool" where
  "copies_ok X \<longleftrightarrow>
     deep_copier ObjectMeta_layout (x_ObjectMeta X) \<and>
     deep_copier ListMeta_layout (x_ListMeta X) \<and>
     deep_copier TemplateObjectMeta_layout (x_TemplateObjectMeta X) \<and>
     deep_copier FailureDomainSpec_layout (x_FailureDomainSpec X) \<and>
     deep_copier VMSpec_layout (x_VMSpec X) \<and>
     deep_copier VMSSHPublicKey_layout (x_SSHPublicKey X) \<and>
     deep_copier flat_layout (x_Condition X)"

lemma copies_okD:
  assumes "copies_ok X"
  shows "deep_copier ObjectMeta_layout (x_ObjectMeta X)" "deep_copier ListMeta_layout (x_ListMeta X)"
    "deep_copier TemplateObjectMeta_layout (x_TemplateObjectMeta X)"
    "deep_copier FailureDomainSpec_layout (x_FailureDomainSpec X)" "deep_copier VMSpec_layout (x_VMSpec X)"
    "deep_copier VMSSHPublicKey_layout (x_SSHPublicKey X)" "deep_copier flat_layout (x_Condition X)"
  using assms by (simp_all add: copies_ok_def)

section \<open>DeepCopyInto\<close>

definition MicrovmHost_DeepCopyInto :: "MicrovmHost \<Rightarrow> cell heap \<Rightarrow> MicrovmHost \<times> cell heap" where
  "MicrovmHost_DeepCopyInto src h = (src, h)"

definition StaticPoolPlacement_DeepCopyInto :: "StaticPoolPlacement_h \<Rightarrow> cell heap \<Rightarrow> StaticPoolPlacement_h \<times> cell heap" where
  "StaticPoolPlacement_DeepCopyInto src h =
     (let (hosts, h1) = slice_copy_flat host_array zero_MicrovmHost (hsp_Hosts src) h
      in (src\<lparr>hsp_Hosts := hosts\<rparr>, h1))"

definition Placement_DeepCopyInto :: "Placement_h \<Rightarrow> cell heap \<Rightarrow> Placement_h \<times> cell heap" where
  "Placement_DeepCopyInto src h =
     (let (staticPool, h1) = ptr_copy StaticPoolPlacement_cell StaticPoolPlacement_DeepCopyInto (hpl_StaticPool src) h
      in (src\<lparr>hpl_StaticPool := staticPool\<rparr>, h1))"

definition TLSConfig_DeepCopyInto :: "TLSConfig_h \<Rightarrow> cell heap \<Rightarrow> TLSConfig_h \<times> cell heap" where
  "TLSConfig_DeepCopyInto src h =
     (let (cert, h1) = slice_copy_flat byte_array (CHR 0x00) (htls_Cert src) h;
          (key, h2) = slice_copy_flat byte_array (CHR 0x00) (htls_Key src) h1;
          (cACert, h3) = slice_copy_flat byte_array (CHR 0x00) (htls_CACert src) h2
      in (src\<lparr>htls_Cert := cert, htls_Key := key, htls_CACert := cACert\<rparr>, h3))"

definition SSHPublicKey_DeepCopyInto :: "SSHPublicKey_h \<Rightarrow> cell heap \<Rightarrow> SSHPublicKey_h \<times> cell heap" where
  "SSHPublicKey_DeepCopyInto src h =
     (let (authorizedKeys, h1) = slice_copy_flat string_array '''' (hsk_AuthorizedKeys src) h
      in (src\<lparr>hsk_AuthorizedKeys := authorizedKeys\<rparr>, h1))"

definition MicrovmMachineSpec_DeepCopyInto :: "copies \<Rightarrow> MicrovmMachineSpec_h \<Rightarrow> cell heap \<Rightarrow> MicrovmMachineSpec_h \<times> cell heap" where
  "MicrovmMachineSpec_DeepCopyInto X src h =
     (let (vMSpec, h1) = x_VMSpec X (hms_VMSpec src) h;
          (sSHPublicKeys, h2) = slice_copy key_array zero_VMSSHPublicKey_h (x_SSHPublicKey X) (hms_SSHPublicKeys src) h1;
          (providerID, h3) = ptr_copy string_cell flat_copy (hms_ProviderID src) h2
      in (src\<lparr>hms_VMSpec := vMSpec, hms_SSHPublicKeys := sSHPublicKeys, hms_ProviderID := providerID\<rparr>, h3))"

definition MicrovmMachineStatus_DeepCopyInto :: "copies \<Rightarrow> MicrovmMachineStatus_h \<Rightarrow> cell heap \<Rightarrow> MicrovmMachineStatus_h \<times> cell heap" where
  "MicrovmMachineStatus_DeepCopyInto X src h =
     (let (vMState, h1) = ptr_copy vmstate_cell flat_copy (hmst_VMState src) h;
          (addresses, h2) = slice_copy_flat address_array zero_MachineAddress (hmst_Addresses src) h1;
          (failureReason, h3) = ptr_copy status_error_cell flat_copy (hmst_FailureReason src) h2;
          (failureMessage, h4) = ptr_copy string_cell flat_copy (hmst_FailureMessage src) h3;
          (conditions, h5) = slice_copy condition_array (x_zero_Condition X) (x_Condition X) (hmst_Conditions src) h4
      in (src\<lparr>hmst_VMState := vMState, hmst_Addresses := addresses, hmst_FailureReason := failureReason,
             hmst_FailureMessage := failureMessage, hmst_Conditions := conditions\<rparr>, h5))"

definition MicrovmMachine_DeepCopyInto :: "copies \<Rightarrow> MicrovmMachine_h \<Rightarrow> cell heap \<Rightarrow> MicrovmMachine_h \<times> cell heap" where
  "MicrovmMachine_DeepCopyInto X src h =
     (let (objectMeta, h1) = x_ObjectMeta X (hmm_ObjectMeta src) h;
          (spec, h2) = MicrovmMachineSpec_DeepCopyInto X (hmm_Spec src) h1;
          (status, h3) = MicrovmMachineStatus_DeepCopyInto X (hmm_Status src) h2
      in (src\<lparr>hmm_ObjectMeta := objectMeta, hmm_Spec := spec, hmm_Status := status\<rparr>, h3))"

definition MicrovmMachineList_DeepCopyInto :: "copies \<Rightarrow> MicrovmMachineList_h \<Rightarrow> cell heap \<Rightarrow> MicrovmMachineList_h \<times> cell heap" where
  "MicrovmMachineList_DeepCopyInto X src h =
     (let (listMeta, h1) = x_ListMeta X (hmml_ListMeta src) h;
          (items, h2) = slice_copy machine_array zero_MicrovmMachine_h (MicrovmMachine_DeepCopyInto X) (hmml_Items src) h1
      in (src\<lparr>hmml_ListMeta := listMeta, hmml_Items := items\<rparr>, h2))"

definition MicrovmClusterSpec_DeepCopyInto :: "copies \<Rightarrow> MicrovmClusterSpec_h \<Rightarrow> cell heap \<Rightarrow> MicrovmClusterSpec_h \<times> cell heap" where
  "MicrovmClusterSpec_DeepCopyInto X src h =
     (let (sSHPublicKeys, h1) = slice_copy key_array zero_VMSSHPublicKey_h (x_SSHPublicKey X) (hcs_SSHPublicKeys src) h;
          (placement, h2) = Placement_DeepCopyInto (hcs_Placement src) h1;
          (microvmProxy, h3) = ptr_copy proxy_cell flat_copy (hcs_MicrovmProxy src) h2
      in (src\<lparr>hcs_SSHPublicKeys := sSHPublicKeys, hcs_Placement := placement,
             hcs_MicrovmProxy := microvmProxy\<rparr>, h3))"

definition MicrovmClusterStatus_DeepCopyInto :: "copies \<Rightarrow> MicrovmClusterStatus_h \<Rightarrow> cell heap \<Rightarrow> MicrovmClusterStatus_h \<times> cell heap" where
  "MicrovmClusterStatus_DeepCopyInto X src h =
     (let (conditions, h1) = slice_copy condition_array (x_zero_Condition X) (x_Condition X) (hcst_Conditions src) h;
          (failureDomains, h2) = map_copy domain_map (x_FailureDomainSpec X) (hcst_FailureDomains src) h1
      in (src\<lparr>hcst_Conditions := conditions, hcst_FailureDomains := failureDomains\<rparr>, h2))"

definition MicrovmCluster_DeepCopyInto :: "copies \<Rightarrow> MicrovmCluster_h \<Rightarrow> cell heap \<Rightarrow> MicrovmCluster_h \<times> cell heap" where
  "MicrovmCluster_DeepCopyInto X src h =
     (let (objectMeta, h1) = x_ObjectMeta X (hmc_ObjectMeta src) h;
          (spec, h2) = MicrovmClusterSpec_DeepCopyInto X (hmc_Spec src) h1;
          (status, h3) = MicrovmClusterStatus_DeepCopyInto X (hmc_Status src) h2
      in (src\<lparr>hmc_ObjectMeta := objectMeta, hmc_Spec := spec, hmc_Status := status\<rparr>, h3))"

definition MicrovmClusterList_DeepCopyInto :: "copies \<Rightarrow> MicrovmClusterList_h \<Rightarrow> cell heap \<Rightarrow> MicrovmClusterList_h \<times> cell heap" where
  "MicrovmClusterList_DeepCopyInto X src h =
     (let (listMeta, h1) = x_ListMeta X (hmcl_ListMeta src) h;
          (items, h2) = slice_copy cluster_array zero_MicrovmCluster_h (MicrovmCluster_DeepCopyInto X) (hmcl_Items src) h1
      in (src\<lparr>hmcl_ListMeta := listMeta, hmcl_Items := items\<rparr>, h2))"

definition MicrovmMachineTemplateResource_DeepCopyInto :: "copies \<Rightarrow> MicrovmMachineTemplateResource_h \<Rightarrow> cell heap \<Rightarrow> MicrovmMachineTemplateResource_h \<times> cell heap" where
  "MicrovmMachineTemplateResource_DeepCopyInto X src h =
     (let (objectMeta, h1) = x_TemplateObjectMeta X (hmtr_ObjectMeta src) h;
          (spec, h2) = MicrovmMachineSpec_DeepCopyInto X (hmtr_Spec src) h1
      in (src\<lparr>hmtr_ObjectMeta := objectMeta, hmtr_Spec := spec\<rparr>, h2))"

definition MicrovmMachineTemplateSpec_DeepCopyInto :: "copies \<Rightarrow> MicrovmMachineTemplateSpec_h \<Rightarrow> cell heap \<Rightarrow> MicrovmMachineTemplateSpec_h \<times> cell heap" where
  "MicrovmMachineTemplateSpec_DeepCopyInto X src h =
     (let (template, h1) = MicrovmMachineTemplateResource_DeepCopyInto X (hmts_Template src) h
      in (src\<lparr>hmts_Template := template\<rparr>, h1))"

definition MicrovmMachineTemplate_DeepCopyInto :: "copies \<Rightarrow> MicrovmMachineTemplate_h \<Rightarrow> cell heap \<Rightarrow> MicrovmMachineTemplate_h \<times> cell heap" where
  "MicrovmMachineTemplate_DeepCopyInto X src h =
     (let (objectMeta, h1) = x_ObjectMeta X (hmt_ObjectMeta src) h;
          (spec, h2) = MicrovmMachineTemplateSpec_DeepCopyInto X (hmt_Spec src) h1
      in (src\<lparr>hmt_ObjectMeta := objectMeta, hmt_Spec := spec\<rparr>, h2))"

definition MicrovmMachineTemplateList_DeepCopyInto :: "copies \<Rightarrow> MicrovmMachineTemplateList_h \<Rightarrow> cell heap \<Rightarrow> MicrovmMachineTemplateList_h \<times> cell heap" where
  "MicrovmMachineTemplateList_DeepCopyInto X src h =
     (let (listMeta, h1) = x_ListMeta X (hmtl_ListMeta src) h;
          (items, h2) = slice_copy template_array zero_MicrovmMachineTemplate_h (MicrovmMachineTemplate_DeepCopyInto X) (hmtl_Items src) h1
      in (src\<lparr>hmtl_ListMeta := listMeta, hmtl_Items := items\<rparr>, h2))"

section \<open>DeepCopy and DeepCopyObject\<close>

definition MicrovmCluster_DeepCopy :: "copies \<Rightarrow> addr option \<Rightarrow> cell heap \<Rightarrow> addr option \<times> cell heap" where
  "MicrovmCluster_DeepCopy X = ptr_copy MicrovmCluster_cell (MicrovmCluster_DeepCopyInto X)"

definition MicrovmClusterList_DeepCopy :: "copies \<Rightarrow> addr option \<Rightarrow> cell heap \<Rightarrow> addr option \<times> cell heap" where
  "MicrovmClusterList_DeepCopy X = ptr_copy MicrovmClusterList_cell (MicrovmClusterList_DeepCopyInto X)"

definition MicrovmClusterSpec_DeepCopy :: "copies \<Rightarrow> addr option \<Rightarrow> cell heap \<Rightarrow> addr option \<times> cell heap" where
  "MicrovmClusterSpec_DeepCopy X = ptr_copy MicrovmClusterSpec_cell (MicrovmClusterSpec_DeepCopyInto X)"

definition MicrovmClusterStatus_DeepCopy :: "copies \<Rightarrow> addr option \<Rightarrow> cell heap \<Rightarrow> addr option \<times> cell heap" where
  "MicrovmClusterStatus_DeepCopy X = ptr_copy MicrovmClusterStatus_cell (MicrovmClusterStatus_DeepCopyInto X)"

definition MicrovmHost_DeepCopy :: "addr option \<Rightarrow> cell heap \<Rightarrow> addr option \<times> cell heap" where
  "MicrovmHost_DeepCopy = ptr_copy MicrovmHost_cell MicrovmHost_DeepCopyInto"

definition MicrovmMachine_DeepCopy :: "copies \<Rightarrow> addr option \<Rightarrow> cell heap \<Rightarrow> addr option \<times> cell heap" where
  "MicrovmMachine_DeepCopy X = ptr_copy MicrovmMachine_cell (MicrovmMachine_DeepCopyInto X)"

definition MicrovmMachineList_DeepCopy :: "copies \<Rightarrow> addr option \<Rightarrow> cell heap \<Rightarrow> addr option \<times> cell heap" where
  "MicrovmMachineList_DeepCopy X = ptr_copy MicrovmMachineList_cell (MicrovmMachineList_DeepCopyInto X)"

definition MicrovmMachineSpec_DeepCopy :: "copies \<Rightarrow> addr option \<Rightarrow> cell heap \<Rightarrow> addr option \<times> cell heap" where
  "MicrovmMachineSpec_DeepCopy X = ptr_copy MicrovmMachineSpec_cell (MicrovmMachineSpec_DeepCopyInto X)"

definition MicrovmMachineStatus_DeepCopy :: "copies \<Rightarrow> addr option \<Rightarrow> cell heap \<Rightarrow> addr option \<times> cell heap" where
  "MicrovmMachineStatus_DeepCopy X = ptr_copy MicrovmMachineStatus_cell (MicrovmMachineStatus_DeepCopyInto X)"

definition MicrovmMachineTemplate_DeepCopy :: "copies \<Rightarrow> addr option \<Rightarrow> cell heap \<Rightarrow> addr option \<times> cell heap" where
  "MicrovmMachineTemplate_DeepCopy X = ptr_copy MicrovmMachineTemplate_cell (MicrovmMachineTemplate_DeepCopyInto X)"

definition MicrovmMachineTemplateList_DeepCopy :: "copies \<Rightarrow> addr option \<Rightarrow> cell heap \<Rightarrow> addr option \<times> cell heap" where
  "MicrovmMachineTemplateList_DeepCopy X = ptr_copy MicrovmMachineTemplateList_cell (MicrovmMachineTemplateList_DeepCopyInto X)"

definition MicrovmMachineTemplateResource_DeepCopy :: "copies \<Rightarrow> addr option \<Rightarrow> cell heap \<Rightarrow> addr option \<times> cell heap" where
  "MicrovmMachineTemplateResource_DeepCopy X = ptr_copy MicrovmMachineTemplateResource_cell (MicrovmMachineTemplateResource_DeepCopyInto X)"

definition MicrovmMachineTemplateSpec_DeepCopy :: "copies \<Rightarrow> addr option \<Rightarrow> cell heap \<Rightarrow> addr option \<times> cell heap" where
  "MicrovmMachineTemplateSpec_DeepCopy X = ptr_copy MicrovmMachineTemplateSpec_cell (MicrovmMachineTemplateSpec_DeepCopyInto X)"

definition Placement_DeepCopy :: "addr option \<Rightarrow> cell heap \<Rightarrow> addr option \<times> cell heap" where
  "Placement_DeepCopy = ptr_copy Placement_cell Placement_DeepCopyInto"

definition SSHPublicKey_DeepCopy :: "addr option \<Rightarrow> cell heap \<Rightarrow> addr option \<times> cell heap" where
  "SSHPublicKey_DeepCopy = ptr_copy SSHPublicKey_cell SSHPublicKey_DeepCopyInto"

definition StaticPoolPlacement_DeepCopy :: "addr option \<Rightarrow> cell heap \<Rightarrow> addr option \<times> cell heap" where
  "StaticPoolPlacement_DeepCopy = ptr_copy StaticPoolPlacement_cell StaticPoolPlacement_DeepCopyInto"

definition TLSConfig_DeepCopy :: "addr option \<Rightarrow> cell heap \<Rightarrow> addr option \<times> cell heap" where
  "TLSConfig_DeepCopy = ptr_copy TLSConfig_cell TLSConfig_DeepCopyInto"

text \<open>
  An interface value is nil or has a dynamic type and a pointer; the pointer may be nil, and such a
  value is not the nil interface.
\<close>

datatype dynamic_type =
  T_MicrovmCluster | T_MicrovmClusterList | T_MicrovmMachine | T_MicrovmMachineList |
  T_MicrovmMachineTemplate | T_MicrovmMachineTemplateList

type_synonym runtime_Object = "(dynamic_type \<times> addr option) option"

definition object_of :: "dynamic_type \<Rightarrow> addr option \<times> cell heap \<Rightarrow> runtime_Object \<times> cell heap" where
  "object_of T r = (case r of (Some c, h) \<Rightarrow> (Some (T, Some c), h) | (None, h) \<Rightarrow> (None, h))"

definition MicrovmCluster_DeepCopyObject :: "copies \<Rightarrow> addr option \<Rightarrow> cell heap \<Rightarrow> runtime_Object \<times> cell heap" where
  "MicrovmCluster_DeepCopyObject X p h = object_of T_MicrovmCluster (MicrovmCluster_DeepCopy X p h)"

definition MicrovmClusterList_DeepCopyObject :: "copies \<Rightarrow> addr option \<Rightarrow> cell heap \<Rightarrow> runtime_Object \<times> cell heap" where
  "MicrovmClusterList_DeepCopyObject X p h = object_of T_MicrovmClusterList (MicrovmClusterList_DeepCopy X p h)"

definition MicrovmMachine_DeepCopyObject :: "copies \<Rightarrow> addr option \<Rightarrow> cell heap \<Rightarrow> runtime_Object \<times> cell heap" where
  "MicrovmMachine_DeepCopyObject X p h = object_of T_MicrovmMachine (MicrovmMachine_DeepCopy X p h)"

definition MicrovmMachineList_DeepCopyObject :: "copies \<Rightarrow> addr option \<Rightarrow> cell heap \<Rightarrow> runtime_Object \<times> cell heap" where
  "MicrovmMachineList_DeepCopyObject X p h = object_of T_MicrovmMachineList (MicrovmMachineList_DeepCopy X p h)"

definition MicrovmMachineTemplate_DeepCopyObject :: "copies \<Rightarrow> addr option \<Rightarrow> cell heap \<Rightarrow> runtime_Object \<times> cell heap" where
  "MicrovmMachineTemplate_DeepCopyObject X p h = object_of T_MicrovmMachineTemplate (MicrovmMachineTemplate_DeepCopy X p h)"

definition MicrovmMachineTemplateList_DeepCopyObject :: "copies \<Rightarrow> addr option \<Rightarrow> cell heap \<Rightarrow> runtime_Object \<times> cell heap" where
  "MicrovmMachineTemplateList_DeepCopyObject X p h = object_of T_MicrovmMachineTemplateList (MicrovmMachineTemplateList_DeepCopy X p h)"

section \<open>Every copy is deep\<close>

lemmas copy_defs = pair_copy_def flat_copy_def Let_def case_prod_unfold

lemma MicrovmHost_copier: "deep_copier flat_layout MicrovmHost_DeepCopyInto"
proof -
  have "MicrovmHost_DeepCopyInto = flat_copy" by (simp add: fun_eq_iff MicrovmHost_DeepCopyInto_def flat_copy_def)
  then show ?thesis using flat_copier by simp
qed

lemma StaticPoolPlacement_copier: "deep_copier StaticPoolPlacement_layout StaticPoolPlacement_DeepCopyInto"
  unfolding StaticPoolPlacement_layout_def
  by (rule struct_copier [OF pair_copier [OF slice_copier_flat flat_copier]])
     (simp_all add: StaticPoolPlacement_DeepCopyInto_def copy_defs)

lemma Placement_copier: "deep_copier Placement_layout Placement_DeepCopyInto"
  unfolding Placement_layout_def
  by (rule struct_copier [OF ptr_copier [OF StaticPoolPlacement_copier]])
     (simp_all add: Placement_DeepCopyInto_def copy_defs)

lemma TLSConfig_copier: "deep_copier TLSConfig_layout TLSConfig_DeepCopyInto"
  unfolding TLSConfig_layout_def
  by (rule struct_copier [OF pair_copier [OF slice_copier_flat pair_copier [OF slice_copier_flat slice_copier_flat]]])
     (simp_all add: TLSConfig_DeepCopyInto_def copy_defs)

lemma SSHPublicKey_copier: "deep_copier SSHPublicKey_layout SSHPublicKey_DeepCopyInto"
  unfolding SSHPublicKey_layout_def
  by (rule struct_copier [OF pair_copier [OF flat_copier slice_copier_flat]])
     (simp_all add: SSHPublicKey_DeepCopyInto_def copy_defs)

lemma MicrovmMachineSpec_copier:
  assumes "copies_ok X"
  shows "deep_copier MicrovmMachineSpec_layout (MicrovmMachineSpec_DeepCopyInto X)"
proof -
  note ok = copies_okD [OF assms]
  show ?thesis
    unfolding MicrovmMachineSpec_layout_def
    by (rule struct_copier [OF pair_copier [OF ok(5) pair_copier [OF slice_copier [OF ok(6)] ptr_copier [OF flat_copier]]]])
       (simp_all add: MicrovmMachineSpec_DeepCopyInto_def copy_defs)
qed

lemma MicrovmMachineStatus_copier:
  assumes "copies_ok X"
  shows "deep_copier MicrovmMachineStatus_layout (MicrovmMachineStatus_DeepCopyInto X)"
proof -
  note ok = copies_okD [OF assms]
  show ?thesis
    unfolding MicrovmMachineStatus_layout_def
    by (rule struct_copier [OF pair_copier [OF flat_copier pair_copier [OF ptr_copier [OF flat_copier] pair_copier [OF slice_copier_flat pair_copier [OF ptr_copier [OF flat_copier] pair_copier [OF ptr_copier [OF flat_copier] slice_copier [OF ok(7)]]]]]]])
       (simp_all add: MicrovmMachineStatus_DeepCopyInto_def copy_defs)
qed

lemma MicrovmMachine_copier:
  assumes "copies_ok X"
  shows "deep_copier MicrovmMachine_layout (MicrovmMachine_DeepCopyInto X)"
proof -
  note ok = copies_okD [OF assms]
  show ?thesis
    unfolding MicrovmMachine_layout_def
    by (rule struct_copier [OF pair_copier [OF flat_copier pair_copier [OF ok(1) pair_copier [OF MicrovmMachineSpec_copier [OF assms] MicrovmMachineStatus_copier [OF assms]]]]])
       (simp_all add: MicrovmMachine_DeepCopyInto_def copy_defs)
qed

lemma MicrovmMachineList_copier:
  assumes "copies_ok X"
  shows "deep_copier MicrovmMachineList_layout (MicrovmMachineList_DeepCopyInto X)"
proof -
  note ok = copies_okD [OF assms]
  show ?thesis
    unfolding MicrovmMachineList_layout_def
    by (rule struct_copier [OF pair_copier [OF flat_copier pair_copier [OF ok(2) slice_copier [OF MicrovmMachine_copier [OF assms]]]]])
       (simp_all add: MicrovmMachineList_DeepCopyInto_def copy_defs)
qed

lemma MicrovmClusterSpec_copier:
  assumes "copies_ok X"
  shows "deep_copier MicrovmClusterSpec_layout (MicrovmClusterSpec_DeepCopyInto X)"
proof -
  note ok = copies_okD [OF assms]
  show ?thesis
    unfolding MicrovmClusterSpec_layout_def
    by (rule struct_copier [OF pair_copier [OF flat_copier pair_copier [OF slice_copier [OF ok(6)] pair_copier [OF Placement_copier pair_copier [OF ptr_copier [OF flat_copier] flat_copier]]]]])
       (simp_all add: MicrovmClusterSpec_DeepCopyInto_def copy_defs)
qed

lemma MicrovmClusterStatus_copier:
  assumes "copies_ok X"
  shows "deep_copier MicrovmClusterStatus_layout (MicrovmClusterStatus_DeepCopyInto X)"
proof -
  note ok = copies_okD [OF assms]
  show ?thesis
    unfolding MicrovmClusterStatus_layout_def
    by (rule struct_copier [OF pair_copier [OF flat_copier pair_copier [OF slice_copier [OF ok(7)] map_copier [OF ok(4)]]]])
       (simp_all add: MicrovmClusterStatus_DeepCopyInto_def copy_defs)
qed

lemma MicrovmCluster_copier:
  assumes "copies_ok X"
  shows "deep_copier MicrovmCluster_layout (MicrovmCluster_DeepCopyInto X)"
proof -
  note ok = copies_okD [OF assms]
  show ?thesis
    unfolding MicrovmCluster_layout_def
    by (rule struct_copier [OF pair_copier [OF flat_copier pair_copier [OF ok(1) pair_copier [OF MicrovmClusterSpec_copier [OF assms] MicrovmClusterStatus_copier [OF assms]]]]])
       (simp_all add: MicrovmCluster_DeepCopyInto_def copy_defs)
qed

lemma MicrovmClusterList_copier:
  assumes "copies_ok X"
  shows "deep_copier MicrovmClusterList_layout (MicrovmClusterList_DeepCopyInto X)"
proof -
  note ok = copies_okD [OF assms]
  show ?thesis
    unfolding MicrovmClusterList_layout_def
    by (rule struct_copier [OF pair_copier [OF flat_copier pair_copier [OF ok(2) slice_copier [OF MicrovmCluster_copier [OF assms]]]]])
       (simp_all add: MicrovmClusterList_DeepCopyInto_def copy_defs)
qed

lemma MicrovmMachineTemplateResource_copier:
  assumes "copies_ok X"
  shows "deep_copier MicrovmMachineTemplateResource_layout (MicrovmMachineTemplateResource_DeepCopyInto X)"
proof -
  note ok = copies_okD [OF assms]
  show ?thesis
    unfolding MicrovmMachineTemplateResource_layout_def
    by (rule struct_copier [OF pair_copier [OF ok(3) MicrovmMachineSpec_copier [OF assms]]])
       (simp_all add: MicrovmMachineTemplateResource_DeepCopyInto_def copy_defs)
qed

lemma MicrovmMachineTemplateSpec_copier:
  assumes "copies_ok X"
  shows "deep_copier MicrovmMachineTemplateSpec_layout (MicrovmMachineTemplateSpec_DeepCopyInto X)"
proof -
  note ok = copies_okD [OF assms]
  show ?thesis
    unfolding MicrovmMachineTemplateSpec_layout_def
    by (rule struct_copier [OF MicrovmMachineTemplateResource_copier [OF assms]])
       (simp_all add: MicrovmMachineTemplateSpec_DeepCopyInto_def copy_defs)
qed

lemma MicrovmMachineTemplate_copier:
  assumes "copies_ok X"
  shows "deep_copier MicrovmMachineTemplate_layout (MicrovmMachineTemplate_DeepCopyInto X)"
proof -
  note ok = copies_okD [OF assms]
  show ?thesis
    unfolding MicrovmMachineTemplate_layout_def
    by (rule struct_copier [OF pair_copier [OF flat_copier pair_copier [OF ok(1) MicrovmMachineTemplateSpec_copier [OF assms]]]])
       (simp_all add: MicrovmMachineTemplate_DeepCopyInto_def copy_defs)
qed

lemma MicrovmMachineTemplateList_copier:
  assumes "copies_ok X"
  shows "deep_copier MicrovmMachineTemplateList_layout (MicrovmMachineTemplateList_DeepCopyInto X)"
proof -
  note ok = copies_okD [OF assms]
  show ?thesis
    unfolding MicrovmMachineTemplateList_layout_def
    by (rule struct_copier [OF pair_copier [OF flat_copier pair_copier [OF ok(2) slice_copier [OF MicrovmMachineTemplate_copier [OF assms]]]]])
       (simp_all add: MicrovmMachineTemplateList_DeepCopyInto_def copy_defs)
qed

interpretation host_copy: deep_copier flat_layout MicrovmHost_DeepCopyInto
  by (rule MicrovmHost_copier)

interpretation pool_copy: deep_copier StaticPoolPlacement_layout StaticPoolPlacement_DeepCopyInto
  by (rule StaticPoolPlacement_copier)

interpretation placement_copy: deep_copier Placement_layout Placement_DeepCopyInto
  by (rule Placement_copier)

interpretation tls_copy: deep_copier TLSConfig_layout TLSConfig_DeepCopyInto
  by (rule TLSConfig_copier)

interpretation key_copy: deep_copier SSHPublicKey_layout SSHPublicKey_DeepCopyInto
  by (rule SSHPublicKey_copier)

text \<open>The objects behind a pointer.\<close>

abbreviation cluster_ptr :: "(addr option, MicrovmCluster option, cell) layout" where
  "cluster_ptr \<equiv> ptr_layout MicrovmCluster_cell MicrovmCluster_layout"

abbreviation cluster_list_ptr :: "(addr option, MicrovmClusterList option, cell) layout" where
  "cluster_list_ptr \<equiv> ptr_layout MicrovmClusterList_cell MicrovmClusterList_layout"

abbreviation machine_ptr :: "(addr option, MicrovmMachine option, cell) layout" where
  "machine_ptr \<equiv> ptr_layout MicrovmMachine_cell MicrovmMachine_layout"

abbreviation machine_list_ptr :: "(addr option, MicrovmMachineList option, cell) layout" where
  "machine_list_ptr \<equiv> ptr_layout MicrovmMachineList_cell MicrovmMachineList_layout"

abbreviation template_ptr :: "(addr option, MicrovmMachineTemplate option, cell) layout" where
  "template_ptr \<equiv> ptr_layout MicrovmMachineTemplate_cell MicrovmMachineTemplate_layout"

abbreviation template_list_ptr :: "(addr option, MicrovmMachineTemplateList option, cell) layout" where
  "template_list_ptr \<equiv> ptr_layout MicrovmMachineTemplateList_cell MicrovmMachineTemplateList_layout"

lemma DeepCopy_copiers:
  assumes "copies_ok X"
  shows "deep_copier cluster_ptr (MicrovmCluster_DeepCopy X)"
    "deep_copier cluster_list_ptr (MicrovmClusterList_DeepCopy X)"
    "deep_copier machine_ptr (MicrovmMachine_DeepCopy X)"
    "deep_copier machine_list_ptr (MicrovmMachineList_DeepCopy X)"
    "deep_copier template_ptr (MicrovmMachineTemplate_DeepCopy X)"
    "deep_copier template_list_ptr (MicrovmMachineTemplateList_DeepCopy X)"
  unfolding MicrovmCluster_DeepCopy_def MicrovmClusterList_DeepCopy_def MicrovmMachine_DeepCopy_def
    MicrovmMachineList_DeepCopy_def MicrovmMachineTemplate_DeepCopy_def MicrovmMachineTemplateList_DeepCopy_def
  by (rule ptr_copier; simp add: assms MicrovmCluster_copier MicrovmClusterList_copier MicrovmMachine_copier
      MicrovmMachineList_copier MicrovmMachineTemplate_copier MicrovmMachineTemplateList_copier)+

lemma ptr_copy_shape: "fst (ptr_copy A c p h) = map_option (\<lambda>a. length h) p"
  by (simp add: ptr_copy_def new_cell_def case_prod_unfold Let_def split: option.splits)

section \<open>Copies of the structs of other modules, field by field\<close>

definition fx_copies :: copies where
  "fx_copies =
     \<lparr>x_ObjectMeta = \<lambda>m h.
        (let (ls, h1) = ptr_copy string_map_cell flat_copy (hom_Labels m) h;
             (as, h2) = ptr_copy string_map_cell flat_copy (hom_Annotations m) h1;
             (os, h3) = slice_copy_flat owner_array \<lparr>or_APIVersion = '''', or_Kind = '''', or_Name = ''''\<rparr>
               (hom_OwnerReferences m) h2;
             (fs, h4) = slice_copy_flat string_array '''' (hom_Finalizers m) h3;
             (t, h5) = ptr_copy time_cell flat_copy (hom_DeletionTimestamp m) h4
         in (m\<lparr>hom_Labels := ls, hom_Annotations := as, hom_OwnerReferences := os, hom_Finalizers := fs,
               hom_DeletionTimestamp := t\<rparr>, h5)),
      x_ListMeta = \<lambda>m h.
        (let (c, h1) = ptr_copy int_cell flat_copy (hlm_RemainingItemCount m) h
         in (m\<lparr>hlm_RemainingItemCount := c\<rparr>, h1)),
      x_TemplateObjectMeta = \<lambda>m h.
        (let (ls, h1) = ptr_copy string_map_cell flat_copy (htom_Labels m) h;
             (as, h2) = ptr_copy string_map_cell flat_copy (htom_Annotations m) h1
         in (m\<lparr>htom_Labels := ls, htom_Annotations := as\<rparr>, h2)),
      x_FailureDomainSpec = \<lambda>d h.
        (let (as, h1) = ptr_copy string_map_cell flat_copy (hfd_Attributes d) h in (d\<lparr>hfd_Attributes := as\<rparr>, h1)),
      x_VMSpec = \<lambda>s h.
        (let (ls, h1) = ptr_copy string_map_cell flat_copy (hvm_Labels s) h;
             (is, h2) = slice_copy_flat interface_array
               \<lparr>ni_GuestDeviceName = '''', ni_GuestMAC = '''', ni_Type = '''', ni_Address = ''''\<rparr>
               (hvm_NetworkInterfaces s) h1
         in (s\<lparr>hvm_Labels := ls, hvm_NetworkInterfaces := is\<rparr>, h2)),
      x_SSHPublicKey = \<lambda>k h.
        (let (as, h1) = slice_copy_flat string_array '''' (hssh_AuthorizedKeys k) h in (k\<lparr>hssh_AuthorizedKeys := as\<rparr>, h1)),
      x_Condition = flat_copy,
      x_zero_Condition = \<lparr>cond_Type = '''', cond_Status = ConditionUnknown, cond_Severity = ConditionSeverityNone,
        cond_Reason = '''', cond_Message = ''''\<rparr>\<rparr>"

lemma fx_copies_ok: "copies_ok fx_copies"
proof -
  note p = ptr_copier [OF flat_copier, of string_map_cell] ptr_copier [OF flat_copier, of time_cell]
    ptr_copier [OF flat_copier, of int_cell]
  note f = flat_copier and s = slice_copier_flat
  have "deep_copier ObjectMeta_layout (x_ObjectMeta fx_copies)"
    unfolding ObjectMeta_layout_def
    by (rule struct_copier [OF pair_copier [OF f pair_copier [OF f pair_copier [OF p(1) pair_copier [OF p(1)
          pair_copier [OF s pair_copier [OF s p(2)]]]]]]]) (simp_all add: fx_copies_def copy_defs)
  moreover have "deep_copier ListMeta_layout (x_ListMeta fx_copies)"
    unfolding ListMeta_layout_def
    by (rule struct_copier [OF pair_copier [OF f pair_copier [OF f p(3)]]]) (simp_all add: fx_copies_def copy_defs)
  moreover have "deep_copier TemplateObjectMeta_layout (x_TemplateObjectMeta fx_copies)"
    unfolding TemplateObjectMeta_layout_def
    by (rule struct_copier [OF pair_copier [OF p(1) p(1)]]) (simp_all add: fx_copies_def copy_defs)
  moreover have "deep_copier FailureDomainSpec_layout (x_FailureDomainSpec fx_copies)"
    unfolding FailureDomainSpec_layout_def
    by (rule struct_copier [OF pair_copier [OF f p(1)]]) (simp_all add: fx_copies_def copy_defs)
  moreover have "deep_copier VMSpec_layout (x_VMSpec fx_copies)"
    unfolding VMSpec_layout_def
    by (rule struct_copier [OF pair_copier [OF p(1) pair_copier [OF s f]]]) (simp_all add: fx_copies_def copy_defs)
  moreover have "deep_copier VMSSHPublicKey_layout (x_SSHPublicKey fx_copies)"
    unfolding VMSSHPublicKey_layout_def
    by (rule struct_copier [OF pair_copier [OF f s]]) (simp_all add: fx_copies_def copy_defs)
  moreover have "deep_copier flat_layout (x_Condition fx_copies)" using f by (simp add: fx_copies_def)
  ultimately show ?thesis by (simp add: copies_ok_def)
qed

lemma separate_copyD:
  assumes "separate_copy L copy" "ly_wt L h x" "copy x h = (y, h')"
  shows "list_all (\<lambda>(a, c). a < length h) ws \<Longrightarrow> ly_read L (writes ws h') y = ly_read L h x"
    "list_all (\<lambda>(a, c). length h \<le> a) ws \<Longrightarrow> ly_read L (writes ws h') x = ly_read L h x"
  using assms unfolding separate_copy_def by blast+

section \<open>Properties\<close>

text \<open>
  C28: the generated copies are deep. When the copies of the structs of other modules are, the copy of
  every resource and of every list of resources stands for the value of the original, and later writes
  to either of the two are not seen through the other.
\<close>

theorem copies_separate:
  assumes "copies_ok X"
  shows "separate_copy cluster_ptr (MicrovmCluster_DeepCopy X) \<and>
    separate_copy cluster_list_ptr (MicrovmClusterList_DeepCopy X) \<and>
    separate_copy machine_ptr (MicrovmMachine_DeepCopy X) \<and>
    separate_copy machine_list_ptr (MicrovmMachineList_DeepCopy X) \<and>
    separate_copy template_ptr (MicrovmMachineTemplate_DeepCopy X) \<and>
    separate_copy template_list_ptr (MicrovmMachineTemplateList_DeepCopy X)"
  by (intro conjI deep_copier.separate DeepCopy_copiers assms)

text \<open>A machine in memory: its label map is cell 1, its only finalizer is in the array of cell 2.\<close>

definition fx_mem :: "cell heap" where
  "fx_mem =
     [O_MicrovmMachine (zero_MicrovmMachine_h
        \<lparr>hmm_ObjectMeta := zero_ObjectMeta_h\<lparr>hom_Finalizers := Slice 2 0 1\<rparr>,
         hmm_Spec := zero_MicrovmMachineSpec_h\<lparr>hms_VMSpec := zero_VMSpec_h\<lparr>hvm_Labels := Some 1\<rparr>\<rparr>\<rparr>),
      C_stringmap [''a'' \<mapsto> ''b''], A_string [MachineFinalizer]]"

lemma fx_mem_wt: "ly_wt machine_ptr fx_mem (Some 0)"
  by (simp add: fx_mem_def ptr_layout_def slice_layout_def flat_layout_def pair_layout_def struct_layout_def window_def
      typed_def deref_def load_def cell_type_defs MicrovmMachine_layout_def ObjectMeta_layout_def
      MicrovmMachineSpec_layout_def MicrovmMachineStatus_layout_def VMSpec_layout_def zero_MicrovmMachine_h_def
      zero_ObjectMeta_h_def zero_MicrovmMachineSpec_h_def zero_VMSpec_h_def zero_MicrovmMachineStatus_h_def)

theorem copies_separate_witness:
  "\<exists>q h'. MicrovmMachine_DeepCopy fx_copies (Some 0) fx_mem = (q, h') \<and> ly_wt machine_ptr fx_mem (Some 0) \<and>
     ly_read machine_ptr (writes [(1, C_stringmap Map.empty)] h') q = ly_read machine_ptr fx_mem (Some 0)"
proof -
  obtain q h' where cp: "MicrovmMachine_DeepCopy fx_copies (Some 0) fx_mem = (q, h')" by fastforce
  have old: "list_all (\<lambda>(a, c). a < length fx_mem) [(1, C_stringmap Map.empty)]" by (simp add: fx_mem_def)
  have "separate_copy machine_ptr (MicrovmMachine_DeepCopy fx_copies)"
    using copies_separate [OF fx_copies_ok] by simp
  from separate_copyD(1) [OF this fx_mem_wt cp old] cp fx_mem_wt show ?thesis by simp
qed

text \<open>
  What \<open>DeepCopyObject\<close> promises for a type: for a nil receiver the nil interface (never an interface around
  a nil pointer) and untouched memory; for any other receiver a value of the receiver's own type, at an
  address that was not in use, which stands for what the receiver stands for, made of new cells only.
\<close>

definition object_copy :: "dynamic_type \<Rightarrow> (addr option, 'v, cell) layout \<Rightarrow>
    (addr option \<Rightarrow> cell heap \<Rightarrow> runtime_Object \<times> cell heap) \<Rightarrow> bool" where
  "object_copy T L copy \<longleftrightarrow> (\<forall>h. copy None h = (None, h)) \<and>
     (\<forall>h a. ly_wt L h (Some a) \<longrightarrow> (\<exists>h'. copy (Some a) h = (Some (T, Some (length h)), h') \<and> prefix h h' \<and>
        ly_wt L h' (Some (length h)) \<and> ly_read L h' (Some (length h)) = ly_read L h (Some a) \<and>
        ly_owned L h' (Some (length h)) \<subseteq> {length h..<length h'}))"

lemma object_copyI:
  assumes "deep_copier L (ptr_copy A c)"
  shows "object_copy T L (\<lambda>p h. object_of T (ptr_copy A c p h))"
  unfolding object_copy_def
proof (intro conjI allI impI)
  fix h a assume wt: "ly_wt L h (Some a)"
  obtain q h' where q: "ptr_copy A c (Some a) h = (q, h')" by fastforce
  then have "q = Some (length h)" using ptr_copy_shape [of A c "Some a" h] by simp
  with deep_copier.copied(1-4) [OF assms wt q] q
  show "\<exists>h'. object_of T (ptr_copy A c (Some a) h) = (Some (T, Some (length h)), h') \<and> prefix h h' \<and>
      ly_wt L h' (Some (length h)) \<and> ly_read L h' (Some (length h)) = ly_read L h (Some a) \<and>
      ly_owned L h' (Some (length h)) \<subseteq> {length h..<length h'}"
    by (simp add: object_of_def)
qed (simp add: ptr_copy_def object_of_def)

lemmas DeepCopyObject_defs =
  MicrovmCluster_DeepCopyObject_def MicrovmClusterList_DeepCopyObject_def MicrovmMachine_DeepCopyObject_def
  MicrovmMachineList_DeepCopyObject_def MicrovmMachineTemplate_DeepCopyObject_def MicrovmMachineTemplateList_DeepCopyObject_def

lemmas DeepCopy_defs =
  MicrovmCluster_DeepCopy_def MicrovmClusterList_DeepCopy_def MicrovmMachine_DeepCopy_def
  MicrovmMachineList_DeepCopy_def MicrovmMachineTemplate_DeepCopy_def MicrovmMachineTemplateList_DeepCopy_def

text \<open>
  C29: DeepCopyObject of every resource and of every list of resources gives the nil interface for a nil
  receiver and, for any other receiver that is well typed, an object of the receiver's own type that is a
  copy of the receiver's value in new cells. So the result is nil exactly for a nil receiver.
\<close>

theorem DeepCopyObject_typed:
  assumes "copies_ok X"
  shows "object_copy T_MicrovmCluster cluster_ptr (MicrovmCluster_DeepCopyObject X) \<and>
    object_copy T_MicrovmClusterList cluster_list_ptr (MicrovmClusterList_DeepCopyObject X) \<and>
    object_copy T_MicrovmMachine machine_ptr (MicrovmMachine_DeepCopyObject X) \<and>
    object_copy T_MicrovmMachineList machine_list_ptr (MicrovmMachineList_DeepCopyObject X) \<and>
    object_copy T_MicrovmMachineTemplate template_ptr (MicrovmMachineTemplate_DeepCopyObject X) \<and>
    object_copy T_MicrovmMachineTemplateList template_list_ptr (MicrovmMachineTemplateList_DeepCopyObject X)"
  unfolding DeepCopyObject_defs [abs_def] DeepCopy_defs
  by (intro conjI object_copyI DeepCopy_copiers [OF assms, unfolded DeepCopy_defs])

theorem DeepCopyObject_typed_witness:
  "\<exists>h'. MicrovmMachine_DeepCopyObject fx_copies (Some 0) fx_mem = (Some (T_MicrovmMachine, Some 3), h') \<and>
     ly_read machine_ptr h' (Some 3) = ly_read machine_ptr fx_mem (Some 0) \<and> ly_owned machine_ptr h' (Some 3) \<subseteq> {3..<length h'}"
proof -
  have "object_copy T_MicrovmMachine machine_ptr (MicrovmMachine_DeepCopyObject fx_copies)"
    using DeepCopyObject_typed [OF fx_copies_ok] by simp
  moreover have "length fx_mem = 3" by (simp add: fx_mem_def)
  ultimately show ?thesis using fx_mem_wt unfolding object_copy_def by metis
qed

end
