(* ===== verification/Externals.thy ===== *)
theory Externals
  imports Api_Types
begin

text \<open>
  The code outside the repository, as parameters. Every definition that calls it takes a record
  \<open>env\<close> of functions: the Kubernetes API client, the helpers of Cluster API and controller-runtime,
  the patch helper, the flintlock client factory and the microvm service of controller-pkg.

  A call that reads or changes the outside world is also an event. The events so far form the
  history, and an environment answers a call from the history and the call's arguments. Nothing
  else is assumed of an environment: it may change between two calls as it likes, since every call
  extends the history. What a property needs of it is a named predicate over \<open>env\<close> below, which
  states documented behaviour of the function concerned.

  The theory also holds the scope structs of \<^verbatim>\<open>internal/scope\<close>, because the microvm service is
  handed the machine scope.
\<close>

section \<open>The scope structs\<close>

text \<open>
  \<open>MachineScope\<close> and \<open>ClusterScope\<close> without the logger, the client and the context; the client and
  the patch helper are the environment.
\<close>

record MachineScope =
  sc_Cluster :: Cluster
  sc_MvmCluster :: MicrovmCluster
  sc_Machine :: Machine
  sc_MvmMachine :: MicrovmMachine
  sc_controllerName :: string

record ClusterScope =
  csc_Cluster :: Cluster
  csc_MvmCluster :: MicrovmCluster
  csc_controllerName :: string

section \<open>Values passed to and from other modules\<close>

datatype MergeOption =
  WithConditions "ConditionType list" | WithStepCounterIf bool | WithStepCounter

text \<open>The client options of \<open>flclient\<close>: \<open>WithProxy\<close>, \<open>WithBasicAuth\<close>, \<open>WithTLS\<close>.\<close>

datatype ClientOption =
  WithProxy "Proxy option" | WithBasicAuth string | WithTLS "ClientTLSConfig option"

type_synonym FlintlockClient = nat
type_synonym RemoteClient = nat

record Service =
  svc_scope :: MachineScope
  svc_client :: FlintlockClient
  svc_addr :: string

record Result =
  Requeue :: bool
  RequeueAfter :: int

definition zero_Result :: Result where
  "zero_Result = \<lparr>Requeue = False, RequeueAfter = 0\<rparr>"

section \<open>Events and histories\<close>

datatype event =
    GetMicrovmMachine NamespacedName
  | GetMicrovmCluster NamespacedName
  | GetSecret NamespacedName
  | GetOwnerMachine ObjectMeta
  | GetOwnerCluster ObjectMeta
  | GetClusterFromMetadata ObjectMeta
  | GetFilteredMachines Cluster
  | NewMachineHelper MicrovmMachine
  | PatchMachine MicrovmMachine "ConditionType list"
  | NewClusterHelper MicrovmCluster
  | PatchCluster MicrovmCluster "ConditionType list"
  | NewFlintlockClient string "ClientOption list"
  | ServiceGet Service
  | ServiceCreate Service
  | ServiceDelete Service
  | ServiceClose Service
  | NewRemoteClient string NamespacedName
  | ListNodes RemoteClient

type_synonym history = "event list"

text \<open>The events that only read; a patch, a microvm operation or a close is not among them.\<close>

fun reads_only :: "event \<Rightarrow> bool" where
  "reads_only (GetMicrovmMachine _) = True"
| "reads_only (GetMicrovmCluster _) = True"
| "reads_only (GetSecret _) = True"
| "reads_only (GetOwnerMachine _) = True"
| "reads_only (GetOwnerCluster _) = True"
| "reads_only (GetClusterFromMetadata _) = True"
| "reads_only (GetFilteredMachines _) = True"
| "reads_only (NewMachineHelper _) = True"
| "reads_only (NewClusterHelper _) = True"
| "reads_only _ = False"

section \<open>The environment\<close>

record env =
  \<comment> \<open>the API client\<close>
  e_GetMicrovmMachine :: "history \<Rightarrow> NamespacedName \<Rightarrow> error + MicrovmMachine"
  e_GetMicrovmCluster :: "history \<Rightarrow> NamespacedName \<Rightarrow> error + MicrovmCluster"
  e_GetSecret :: "history \<Rightarrow> NamespacedName \<Rightarrow> error + Secret"
  \<comment> \<open>\<open>util\<close>, \<open>annotations\<close>, \<open>collections\<close> of Cluster API\<close>
  e_GetOwnerMachine :: "history \<Rightarrow> ObjectMeta \<Rightarrow> error + Machine option"
  e_GetOwnerCluster :: "history \<Rightarrow> ObjectMeta \<Rightarrow> Cluster option \<times> error option"
  e_GetClusterFromMetadata :: "history \<Rightarrow> ObjectMeta \<Rightarrow> error + Cluster"
  e_GetFilteredMachines :: "history \<Rightarrow> Cluster \<Rightarrow> error + Machine list"
  e_IsPaused :: "Cluster \<Rightarrow> ObjectMeta \<Rightarrow> bool"
  e_IsControlPlaneMachine :: "Machine \<Rightarrow> bool"
  e_EndpointIsZero :: "APIEndpoint \<Rightarrow> bool"
  e_TimeIsZero :: "time option \<Rightarrow> bool"
  \<comment> \<open>\<open>conditions\<close> of Cluster API\<close>
  e_MarkTrue :: "ConditionType \<Rightarrow> Conditions \<Rightarrow> Conditions"
  e_MarkFalse :: "ConditionType \<Rightarrow> string \<Rightarrow> ConditionSeverity \<Rightarrow> string \<Rightarrow> Conditions \<Rightarrow> Conditions"
  e_SetSummary :: "MergeOption list \<Rightarrow> Conditions \<Rightarrow> Conditions"
  \<comment> \<open>\<open>controllerutil\<close> of controller-runtime\<close>
  e_AddFinalizer :: "string list \<Rightarrow> string \<Rightarrow> string list"
  e_RemoveFinalizer :: "string list \<Rightarrow> string \<Rightarrow> string list"
  \<comment> \<open>\<open>patch.Helper\<close> of Cluster API: the error, and the object the call leaves behind\<close>
  e_NewMachineHelper :: "history \<Rightarrow> MicrovmMachine \<Rightarrow> error option"
  e_PatchMachine :: "history \<Rightarrow> MicrovmMachine \<Rightarrow> ConditionType list \<Rightarrow> error option \<times> MicrovmMachine"
  e_NewClusterHelper :: "history \<Rightarrow> MicrovmCluster \<Rightarrow> error option"
  e_PatchCluster :: "history \<Rightarrow> MicrovmCluster \<Rightarrow> ConditionType list \<Rightarrow> error option \<times> MicrovmCluster"
  \<comment> \<open>the field \<open>MvmClientFunc\<close> of the machine reconciler, nil when it is not set\<close>
  e_MvmClientFunc :: "(history \<Rightarrow> string \<Rightarrow> ClientOption list \<Rightarrow> error + FlintlockClient) option"
  \<comment> \<open>\<open>flservice.Service\<close>: the results, and the machine the scope points to afterwards\<close>
  e_ServiceGet :: "history \<Rightarrow> Service \<Rightarrow> (MicroVM option \<times> error option) \<times> MicrovmMachine"
  e_ServiceCreate :: "history \<Rightarrow> Service \<Rightarrow> (MicroVM option \<times> error option) \<times> MicrovmMachine"
  e_ServiceDelete :: "history \<Rightarrow> Service \<Rightarrow> error option \<times> MicrovmMachine"
  \<comment> \<open>the field \<open>RemoteClientGetter\<close> of the cluster reconciler; \<open>List\<close> gives the number of nodes\<close>
  e_RemoteClientGetter :: "history \<Rightarrow> string \<Rightarrow> NamespacedName \<Rightarrow> error + RemoteClient"
  e_ListNodes :: "history \<Rightarrow> RemoteClient \<Rightarrow> error + nat"

section \<open>Named hypotheses on the environment\<close>

text \<open>
  \<open>controllerutil.AddFinalizer\<close> adds the finalizer if it is not there and \<open>RemoveFinalizer\<close> removes
  it; neither touches the others.
\<close>

definition finalizer_laws :: "env \<Rightarrow> bool" where
  "finalizer_laws E \<longleftrightarrow>
     (\<forall>fs f. set (e_AddFinalizer E fs f) = insert f (set fs)) \<and>
     (\<forall>fs f. set (e_RemoveFinalizer E fs f) = set fs - {f})"

lemma finalizer_lawsD:
  assumes "finalizer_laws E"
  shows "set (e_AddFinalizer E fs f) = insert f (set fs)"
    "set (e_RemoveFinalizer E fs f) = set fs - {f}"
  using assms by (simp_all add: finalizer_laws_def)

text \<open>
  The patch helper sends the difference to the API server and leaves the object it was given as it
  is; the microvm service changes no more of the machine than the labels of its microvm spec (which
  it reaches through \<open>GetLabels\<close>).
\<close>

definition patch_frame :: "env \<Rightarrow> bool" where
  "patch_frame E \<longleftrightarrow> (\<forall>h m ts. snd (e_PatchMachine E h m ts) = m)"

definition cluster_patch_frame :: "env \<Rightarrow> bool" where
  "cluster_patch_frame E \<longleftrightarrow> (\<forall>h c ts. snd (e_PatchCluster E h c ts) = c)"

definition relabelled :: "MicrovmMachine \<Rightarrow> MicrovmMachine \<Rightarrow> bool" where
  "relabelled m m' \<longleftrightarrow> m' = set_vm_labels (vm_Labels (ms_VMSpec (mm_Spec m'))) m"

definition service_frame :: "env \<Rightarrow> bool" where
  "service_frame E \<longleftrightarrow>
     (\<forall>h svc. relabelled (sc_MvmMachine (svc_scope svc)) (snd (e_ServiceGet E h svc))) \<and>
     (\<forall>h svc. relabelled (sc_MvmMachine (svc_scope svc)) (snd (e_ServiceCreate E h svc))) \<and>
     (\<forall>h svc. relabelled (sc_MvmMachine (svc_scope svc)) (snd (e_ServiceDelete E h svc)))"

lemma relabelled_refl [simp]: "relabelled m m"
  by (simp add: relabelled_def set_vm_labels_def)

lemma relabelledD:
  assumes "relabelled m m'"
  shows "mm_ObjectMeta m' = mm_ObjectMeta m" "mm_Status m' = mm_Status m"
    "machine_provider_id m' = machine_provider_id m"
    "ms_SSHPublicKeys (mm_Spec m') = ms_SSHPublicKeys (mm_Spec m)"
  using assms unfolding relabelled_def by (metis set_vm_labels_parts)+

lemma service_frameD:
  assumes "service_frame E"
  shows "relabelled (sc_MvmMachine (svc_scope svc)) (snd (e_ServiceGet E h svc))"
    "relabelled (sc_MvmMachine (svc_scope svc)) (snd (e_ServiceCreate E h svc))"
    "relabelled (sc_MvmMachine (svc_scope svc)) (snd (e_ServiceDelete E h svc))"
  using assms by (simp_all add: service_frame_def)

lemma patch_frameD: "patch_frame E \<Longrightarrow> snd (e_PatchMachine E h m ts) = m"
  by (simp add: patch_frame_def)

end
