(* ===== verification/Fixtures.thy ===== *)
theory Fixtures
  imports Externals
begin

text \<open>
  Concrete objects and a concrete environment, on which the witnesses of the properties run the
  model. They follow the fixtures of \<^verbatim>\<open>controllers/helpers_test.go\<close>: a cluster with one host, a
  machine owned by it, a bootstrap secret, and a flintlock service whose answers a witness sets.
\<close>

definition fx_namespace :: string where
  "fx_namespace = ''ns1''"

definition fx_meta :: "string \<Rightarrow> ObjectMeta" where
  "fx_meta name = \<lparr>om_Name = name, om_Namespace = fx_namespace, om_Labels = None, om_Annotations = None,
     om_OwnerReferences = [], om_Finalizers = [], om_DeletionTimestamp = None\<rparr>"

definition fx_key :: "string \<Rightarrow> NamespacedName" where
  "fx_key name = \<lparr>nn_Namespace = fx_namespace, nn_Name = name\<rparr>"

definition fx_endpoint :: APIEndpoint where
  "fx_endpoint = \<lparr>ep_Host = ''192.168.8.15'', ep_Port = 6443\<rparr>"

definition fx_fd :: FailureDomainSpec where
  "fx_fd = \<lparr>fd_ControlPlane = True, fd_Attributes = None\<rparr>"

definition fx_cluster :: Cluster where
  "fx_cluster = \<lparr>cl_ObjectMeta = fx_meta ''tenant1'', cl_Spec_Paused = False,
     cl_Spec_ControlPlaneEndpoint = fx_endpoint,
     cl_Spec_InfrastructureRef = Some \<lparr>ref_Namespace = fx_namespace, ref_Name = ''tenant1''\<rparr>,
     cl_Status_InfrastructureReady = True,
     cl_Status_FailureDomains = Some [(''fd2:9090'', fx_fd), (''fd1:9090'', fx_fd)]\<rparr>"

definition fx_pool :: StaticPoolPlacement where
  "fx_pool = \<lparr>sp_Hosts = Some [\<lparr>host_Name = ''host1'', host_Endpoint = ''127.0.0.1:9090'',
                               host_ControlPlaneAllowed = True\<rparr>],
              sp_BasicAuthSecret = ''''\<rparr>"

definition fx_mvm_cluster :: MicrovmCluster where
  "fx_mvm_cluster = \<lparr>mc_TypeMeta = \<lparr>tm_Kind = ''MicrovmCluster'', tm_APIVersion = ''v1alpha1''\<rparr>,
     mc_ObjectMeta = fx_meta ''tenant1'',
     mc_Spec = \<lparr>cs_ControlPlaneEndpoint = fx_endpoint, cs_SSHPublicKeys = None,
                cs_Placement = \<lparr>pl_StaticPool = Some fx_pool\<rparr>, cs_MicrovmProxy = None,
                cs_TLSSecretRef = ''''\<rparr>,
     mc_Status = \<lparr>cst_Ready = False, cst_Conditions = None, cst_FailureDomains = None\<rparr>\<rparr>"

definition fx_machine :: Machine where
  "fx_machine = \<lparr>m_ObjectMeta = fx_meta ''machine1'', m_Spec_FailureDomain = Some ''127.0.0.1:9090'',
     m_Spec_ProviderID = None, m_Spec_Bootstrap_DataSecretName = Some ''bootstrap'',
     m_Spec_InfrastructureRef = \<lparr>ref_Namespace = fx_namespace, ref_Name = ''machine1''\<rparr>\<rparr>"

definition fx_nic :: "string \<Rightarrow> NetworkInterface" where
  "fx_nic mac = \<lparr>ni_GuestDeviceName = ''eth0'', ni_GuestMAC = mac, ni_Type = ''macvtap'', ni_Address = ''''\<rparr>"

definition fx_mvm_machine :: MicrovmMachine where
  "fx_mvm_machine = \<lparr>mm_TypeMeta = \<lparr>tm_Kind = ''MicrovmMachine'', tm_APIVersion = ''v1alpha1''\<rparr>,
     mm_ObjectMeta = fx_meta ''machine1'',
     mm_Spec = \<lparr>ms_VMSpec = \<lparr>vm_Labels = None, vm_NetworkInterfaces = Some [fx_nic ''''], vm_Other = ''''\<rparr>,
                ms_SSHPublicKeys = None, ms_ProviderID = None\<rparr>,
     mm_Status = \<lparr>mst_Ready = False, mst_VMState = None, mst_Addresses = None, mst_FailureReason = None,
                  mst_FailureMessage = None, mst_Conditions = None\<rparr>\<rparr>"

definition fx_scope :: MachineScope where
  "fx_scope = \<lparr>sc_Cluster = fx_cluster, sc_MvmCluster = fx_mvm_cluster, sc_Machine = fx_machine,
     sc_MvmMachine = fx_mvm_machine, sc_controllerName = ''microvm-manager''\<rparr>"

definition fx_cluster_scope :: ClusterScope where
  "fx_cluster_scope = \<lparr>csc_Cluster = fx_cluster, csc_MvmCluster = fx_mvm_cluster,
     csc_controllerName = ''microvm-manager''\<rparr>"

text \<open>A microvm of the flintlock service in a given state.\<close>

definition fx_microvm :: "MicroVMState \<Rightarrow> MicroVM" where
  "fx_microvm st = \<lparr>mv_Spec = Some (Some ''ABCDEF''), mv_Status = Some st\<rparr>"

definition fx_not_found :: error where
  "fx_not_found = External ''rpc error: microvm spec not found'' False"

text \<open>Conditions kept as a list with one entry for each type.\<close>

definition fx_put :: "Condition \<Rightarrow> Conditions \<Rightarrow> Conditions" where
  "fx_put c cs = Some (filter (\<lambda>d. cond_Type d \<noteq> cond_Type c) (elems cs) @ [c])"

definition fx_env :: env where
  "fx_env = \<lparr>
     e_GetMicrovmMachine = (\<lambda>h k. Inr fx_mvm_machine),
     e_GetMicrovmCluster = (\<lambda>h k. Inr fx_mvm_cluster),
     e_GetSecret = (\<lambda>h k. Inr \<lparr>sec_Name = nn_Name k, sec_Data = [''value'' \<mapsto> ''data'']\<rparr>),
     e_GetOwnerMachine = (\<lambda>h o'. Inr (Some fx_machine)),
     e_GetOwnerCluster = (\<lambda>h o'. (Some fx_cluster, None)),
     e_GetClusterFromMetadata = (\<lambda>h o'. Inr fx_cluster),
     e_GetFilteredMachines = (\<lambda>h c. Inr [fx_machine]),
     e_IsPaused = (\<lambda>c o'. cl_Spec_Paused c),
     e_IsControlPlaneMachine = (\<lambda>m. False),
     e_EndpointIsZero = (\<lambda>e. ep_Host e = '''' \<and> ep_Port e = 0),
     e_TimeIsZero = (\<lambda>t. t = None),
     e_MarkTrue = (\<lambda>t. fx_put \<lparr>cond_Type = t, cond_Status = ConditionTrue,
        cond_Severity = ConditionSeverityNone, cond_Reason = '''', cond_Message = ''''\<rparr>),
     e_MarkFalse = (\<lambda>t r s x. fx_put \<lparr>cond_Type = t, cond_Status = ConditionFalse,
        cond_Severity = s, cond_Reason = r, cond_Message = x\<rparr>),
     e_SetSummary = (\<lambda>opts cs. cs),
     e_AddFinalizer = (\<lambda>fs f. if f \<in> set fs then fs else fs @ [f]),
     e_RemoveFinalizer = (\<lambda>fs f. filter (\<lambda>g. g \<noteq> f) fs),
     e_NewMachineHelper = (\<lambda>h m. None),
     e_PatchMachine = (\<lambda>h m ts. (None, m)),
     e_NewClusterHelper = (\<lambda>h c. None),
     e_PatchCluster = (\<lambda>h c ts. (None, c)),
     e_MvmClientFunc = Some (\<lambda>h a opts. Inr 0),
     e_ServiceGet = (\<lambda>h svc. ((None, Some fx_not_found), sc_MvmMachine (svc_scope svc))),
     e_ServiceCreate = (\<lambda>h svc. ((Some (fx_microvm PENDING), None), sc_MvmMachine (svc_scope svc))),
     e_ServiceDelete = (\<lambda>h svc. (None, sc_MvmMachine (svc_scope svc))),
     e_RemoteClientGetter = (\<lambda>h n k. Inr 0),
     e_ListNodes = (\<lambda>h c. Inr 1)\<rparr>"

text \<open>The environment with other answers of the flintlock service.\<close>

definition fx_env_with ::
  "MicroVM option \<times> error option \<Rightarrow> MicroVM option \<times> error option \<Rightarrow> error option \<Rightarrow> env" where
  "fx_env_with got created deleted = fx_env\<lparr>
     e_ServiceGet := (\<lambda>h svc. (got, sc_MvmMachine (svc_scope svc))),
     e_ServiceCreate := (\<lambda>h svc. (created, sc_MvmMachine (svc_scope svc))),
     e_ServiceDelete := (\<lambda>h svc. (deleted, sc_MvmMachine (svc_scope svc)))\<rparr>"

lemmas fx_defs =
  fx_namespace_def fx_meta_def fx_key_def fx_endpoint_def fx_fd_def fx_cluster_def fx_pool_def
  fx_mvm_cluster_def fx_machine_def fx_nic_def fx_mvm_machine_def fx_scope_def fx_cluster_scope_def
  fx_microvm_def fx_not_found_def fx_put_def fx_env_def fx_env_with_def

text \<open>The hypotheses of the properties hold of the concrete environments.\<close>

lemma fx_finalizer_laws: "finalizer_laws fx_env" "finalizer_laws (fx_env_with g c d)"
  by (auto simp: finalizer_laws_def fx_env_with_def fx_env_def)

lemma fx_patch_frame: "patch_frame fx_env" "patch_frame (fx_env_with g c d)"
  by (simp_all add: patch_frame_def fx_env_with_def fx_env_def)

lemma fx_cluster_patch_frame: "cluster_patch_frame fx_env"
  by (simp add: cluster_patch_frame_def fx_env_def)

lemma fx_service_frame: "service_frame fx_env" "service_frame (fx_env_with g c d)"
  by (simp_all add: service_frame_def fx_env_with_def fx_env_def)

end
