(* ===== verification/Provider_Id.thy ===== *)
theory Provider_Id
  imports Go_Errors
begin

text \<open>
  \<^verbatim>\<open>internal/scope/providerid.go\<close>: the struct \<open>ProviderID\<close>, its parser and accessors. The regular
  expression that guards the parser is given twice: as the syntax tree of the source's pattern with
  the usual language semantics, and as the executable test the model runs; they are proved equal.
\<close>

section \<open>Regular expressions\<close>

datatype rx = Class "char \<Rightarrow> bool" | Cat rx rx | Plus rx | Star rx

inductive rx_match :: "rx \<Rightarrow> string \<Rightarrow> bool" where
  rx_Class: "p c \<Longrightarrow> rx_match (Class p) [c]"
| rx_Cat: "rx_match r s \<Longrightarrow> rx_match q t \<Longrightarrow> rx_match (Cat r q) (s @ t)"
| rx_Plus1: "rx_match r s \<Longrightarrow> rx_match (Plus r) s"
| rx_PlusS: "rx_match r s \<Longrightarrow> rx_match (Plus r) t \<Longrightarrow> rx_match (Plus r) (s @ t)"
| rx_Star0: "rx_match (Star r) []"
| rx_StarS: "rx_match r s \<Longrightarrow> rx_match (Star r) t \<Longrightarrow> rx_match (Star r) (s @ t)"

inductive_simps rx_Class_iff [simp]: "rx_match (Class p) s"
inductive_simps rx_Cat_iff [simp]: "rx_match (Cat r q) s"

text \<open>
  The pattern \<^verbatim>\<open>^[^:]+://.*[^/]$\<close>. Without flags the dot excludes the newline and both anchors are
  the ends of the text, so a match is a match of the whole string.
\<close>

definition providerIDRegex :: rx where
  "providerIDRegex =
     Cat (Plus (Class (\<lambda>c. c \<noteq> CHR '':'')))
       (Cat (Class (\<lambda>c. c = CHR '':''))
         (Cat (Class (\<lambda>c. c = CHR ''/''))
           (Cat (Class (\<lambda>c. c = CHR ''/''))
             (Cat (Star (Class (\<lambda>c. c \<noteq> CHR 0x0A))) (Class (\<lambda>c. c \<noteq> CHR ''/''))))))"

definition MatchString :: "string \<Rightarrow> bool" where
  "MatchString s =
     (let p = takeWhile (\<lambda>c. c \<noteq> CHR '':'') s;
          r = dropWhile (\<lambda>c. c \<noteq> CHR '':'') s;
          t = drop 3 r
      in p \<noteq> [] \<and> take 3 r = ''://'' \<and> t \<noteq> [] \<and> last t \<noteq> CHR ''/'' \<and> CHR 0x0A \<notin> set (butlast t))"

lemma rx_Star_Class: "rx_match (Star (Class p)) s \<longleftrightarrow> (\<forall>c \<in> set s. p c)"
proof
  assume "rx_match (Star (Class p)) s"
  then show "\<forall>c \<in> set s. p c"
    by (induction "Star (Class p)" s rule: rx_match.induct) auto
next
  assume "\<forall>c \<in> set s. p c"
  then show "rx_match (Star (Class p)) s"
  proof (induction s)
    case (Cons c s)
    then have "rx_match (Star (Class p)) ([c] @ s)"
      by (intro rx_StarS) auto
    then show ?case by simp
  qed (rule rx_Star0)
qed

lemma rx_Plus_Class: "rx_match (Plus (Class p)) s \<longleftrightarrow> s \<noteq> [] \<and> (\<forall>c \<in> set s. p c)"
proof
  assume "rx_match (Plus (Class p)) s"
  then show "s \<noteq> [] \<and> (\<forall>c \<in> set s. p c)"
    by (induction "Plus (Class p)" s rule: rx_match.induct) auto
next
  assume "s \<noteq> [] \<and> (\<forall>c \<in> set s. p c)"
  then show "rx_match (Plus (Class p)) s"
  proof (induction s)
    case (Cons c s)
    show ?case
    proof (cases "s = []")
      case True
      with Cons.prems show ?thesis by (auto intro: rx_Plus1)
    next
      case False
      with Cons have "rx_match (Plus (Class p)) ([c] @ s)"
        by (intro rx_PlusS) auto
      then show ?thesis by simp
    qed
  qed simp
qed

text \<open>The shape of a string in the language of the pattern.\<close>

lemma providerIDRegex_shape:
  "rx_match providerIDRegex s \<longleftrightarrow>
   (\<exists>p m c. s = p @ ''://'' @ m @ [c] \<and> p \<noteq> [] \<and> CHR '':'' \<notin> set p \<and>
            CHR 0x0A \<notin> set m \<and> c \<noteq> CHR ''/'')" (is "_ \<longleftrightarrow> ?R")
proof
  assume "rx_match providerIDRegex s"
  then obtain p m c where "s = p @ [CHR '':''] @ [CHR ''/''] @ [CHR ''/''] @ m @ [c]"
    and "p \<noteq> []" "\<forall>x \<in> set p. x \<noteq> CHR '':''" "\<forall>x \<in> set m. x \<noteq> CHR 0x0A" "c \<noteq> CHR ''/''"
    unfolding providerIDRegex_def rx_Cat_iff rx_Class_iff rx_Star_Class rx_Plus_Class by blast
  then have "s = p @ ''://'' @ m @ [c] \<and> p \<noteq> [] \<and> CHR '':'' \<notin> set p \<and>
      CHR 0x0A \<notin> set m \<and> c \<noteq> CHR ''/''" by auto
  then show ?R by blast
next
  assume ?R
  then obtain p m c where R: "s = p @ ''://'' @ m @ [c]" "p \<noteq> []" "CHR '':'' \<notin> set p"
    "CHR 0x0A \<notin> set m" "c \<noteq> CHR ''/''" by blast
  have "rx_match providerIDRegex (p @ [CHR '':''] @ [CHR ''/''] @ [CHR ''/''] @ m @ [c])"
    unfolding providerIDRegex_def using R(2-)
    by (intro rx_Cat) (auto simp: rx_Star_Class rx_Plus_Class)
  then show "rx_match providerIDRegex s" by (simp add: R(1))
qed

lemma MatchString_shape:
  "MatchString s \<longleftrightarrow>
   (\<exists>p m c. s = p @ ''://'' @ m @ [c] \<and> p \<noteq> [] \<and> CHR '':'' \<notin> set p \<and>
            CHR 0x0A \<notin> set m \<and> c \<noteq> CHR ''/'')" (is "_ \<longleftrightarrow> ?R")
proof
  assume M: "MatchString s"
  let ?p = "takeWhile (\<lambda>c. c \<noteq> CHR '':'') s" and ?r = "dropWhile (\<lambda>c. c \<noteq> CHR '':'') s"
  have "s = ?p @ take 3 ?r @ drop 3 ?r" by simp
  moreover have "drop 3 ?r = butlast (drop 3 ?r) @ [last (drop 3 ?r)]"
    using M by (simp only: MatchString_def Let_def append_butlast_last_id simp_thms)
  moreover have "CHR '':'' \<notin> set ?p" by (auto dest: set_takeWhileD)
  ultimately show ?R using M by (metis MatchString_def append_assoc)
next
  assume ?R
  then obtain p m c where s: "s = p @ ''://'' @ m @ [c]"
    and p: "p \<noteq> []" "CHR '':'' \<notin> set p" and m: "CHR 0x0A \<notin> set m" and c: "c \<noteq> CHR ''/''"
    by blast
  have "takeWhile (\<lambda>c. c \<noteq> CHR '':'') s = p" "dropWhile (\<lambda>c. c \<noteq> CHR '':'') s = ''://'' @ m @ [c]"
    using p(2) by (auto simp: s takeWhile_append dropWhile_append)
  then show "MatchString s" using p m c by (simp add: MatchString_def)
qed

section \<open>The struct and its methods\<close>

record ProviderID =
  pid_original :: string
  pid_cloudProvider :: string
  pid_id :: string

definition ErrEmptyProviderID :: error where
  "ErrEmptyProviderID = New ''providerID is empty''"

definition ErrInvalidProviderID :: error where
  "ErrInvalidProviderID =
     New ''providerID must be of the form <cloudProvider>://<optional>/<segments>/<provider id>''"

definition ProviderPrefix :: string where
  "ProviderPrefix = ''microvm://''"

definition CloudProvider :: "ProviderID \<Rightarrow> string" where
  "CloudProvider p = pid_cloudProvider p"

definition ID :: "ProviderID \<Rightarrow> string" where
  "ID p = pid_id p"

definition String :: "ProviderID \<Rightarrow> string" where
  "String p = pid_original p"

definition Equals :: "ProviderID \<Rightarrow> ProviderID \<Rightarrow> bool" where
  "Equals p q \<longleftrightarrow> String p = String q"

definition ProviderID_Validate :: "ProviderID \<Rightarrow> bool" where
  "ProviderID_Validate p \<longleftrightarrow> CloudProvider p \<noteq> [] \<and> ID p \<noteq> []"

definition IndexKey :: "ProviderID \<Rightarrow> string" where
  "IndexKey p = String p"

definition GenerateProviderID :: "string list \<Rightarrow> string" where
  "GenerateProviderID ids = ProviderPrefix @ ''/'' @ Join ids ''/''"

definition NewProviderID :: "string \<Rightarrow> (error + ProviderID) outcome" where
  "NewProviderID id' =
     (if id' = [] then Return (Inl ErrEmptyProviderID)
      else if \<not> MatchString id' then Return (Inl ErrInvalidProviderID)
      else let colonIndex = Index id' '':'' in
        bind_outcome (go_slice id' 0 colonIndex) (\<lambda>cloudProvider.
        let lastSlashIndex = LastIndex id' ''/'' in
        bind_outcome (go_slice id' (lastSlashIndex + 1) (int (length id'))) (\<lambda>instance.
        let res = \<lparr>pid_original = id', pid_cloudProvider = cloudProvider, pid_id = instance\<rparr>
        in if \<not> ProviderID_Validate res then Return (Inl ErrInvalidProviderID)
           else Return (Inr res))))"

lemmas ProviderID_defs = CloudProvider_def ID_def String_def ProviderID_Validate_def

section \<open>What the parser returns\<close>

lemma MatchString_ne: "MatchString s \<Longrightarrow> s \<noteq> []"
  by (auto simp: MatchString_def)

text \<open>
  On a string the pattern accepts, both slices are in range and the final validation succeeds: the
  parser returns the part before the first colon and the part after the last slash.
\<close>

lemma NewProviderID_match:
  assumes "MatchString s" and s: "s = p @ CHR '':'' # r" "CHR '':'' \<notin> set p"
    and s': "s = a @ CHR ''/'' # i" "CHR ''/'' \<notin> set i"
  shows "NewProviderID s =
    Return (Inr \<lparr>pid_original = s, pid_cloudProvider = p, pid_id = i\<rparr>)"
proof -
  from assms(1) obtain q m c where "s = q @ ''://'' @ m @ [c]" "q \<noteq> []" "CHR '':'' \<notin> set q"
    "c \<noteq> CHR ''/''"
    unfolding MatchString_shape by blast
  with s s' have "p \<noteq> []" "i \<noteq> []"
    by (auto simp: append_eq_Cons_conv append_eq_append_conv2 Cons_eq_append_conv)
  moreover have "go_slice s 0 (Index s '':'') = Return p"
    using s by (simp add: go_strings go_slice_def)
  moreover have "go_slice s (LastIndex s ''/'' + 1) (int (length s)) = Return i"
    using s' by (simp add: go_strings go_slice_def nat_add_distrib)
  ultimately show ?thesis
    using assms(1) MatchString_ne [OF assms(1)]
    by (simp add: NewProviderID_def Let_def ProviderID_defs)
qed

text \<open>
  The executable test the parser runs accepts exactly the strings in the language of the
  pattern \<^verbatim>\<open>^[^:]+://.*[^/]$\<close>, given as a syntax tree with the usual semantics.
\<close>

lemma MatchString_is_providerIDRegex: "MatchString s \<longleftrightarrow> rx_match providerIDRegex s"
  unfolding MatchString_shape providerIDRegex_shape ..

lemma takeWhile_first: "c \<notin> set p \<Longrightarrow> takeWhile (\<lambda>x. x \<noteq> c) (p @ c # r) = p"
  by (induction p) auto

lemma last_segment: "c \<notin> set i \<Longrightarrow> rev (takeWhile (\<lambda>x. x \<noteq> c) (rev (a @ c # i))) = i"
  using takeWhile_first [of c "rev i" "rev a"] by simp

lemma NewProviderID_value:
  "NewProviderID s = Return
     (if s = [] then Inl ErrEmptyProviderID
      else if rx_match providerIDRegex s
      then Inr \<lparr>pid_original = s, pid_cloudProvider = takeWhile (\<lambda>c. c \<noteq> CHR '':'') s,
                pid_id = rev (takeWhile (\<lambda>c. c \<noteq> CHR ''/'') (rev s))\<rparr>
      else Inl ErrInvalidProviderID)"
proof (cases "MatchString s")
  case True
  then obtain p m c where s: "s = p @ ''://'' @ m @ [c]" "CHR '':'' \<notin> set p" and c: "c \<noteq> CHR ''/''"
    unfolding MatchString_shape by blast
  then obtain a i where i: "s = a @ CHR ''/'' # i" "CHR ''/'' \<notin> set i"
    using split_list_last [of "CHR ''/''" s] by auto
  from NewProviderID_match [OF True _ s(2) i, of "''//'' @ m @ [c]"]
  have "NewProviderID s = Return (Inr \<lparr>pid_original = s, pid_cloudProvider = p, pid_id = i\<rparr>)"
    using s(1) by simp
  moreover have "takeWhile (\<lambda>c. c \<noteq> CHR '':'') s = p"
    using s takeWhile_first [of "CHR '':''" p] by simp
  moreover have "rev (takeWhile (\<lambda>c. c \<noteq> CHR ''/'') (rev s)) = i"
    unfolding i(1) by (rule last_segment) (rule i(2))
  ultimately show ?thesis
    using True MatchString_ne [OF True] by (simp add: MatchString_shape providerIDRegex_shape)
next
  case False
  then have "\<not> rx_match providerIDRegex s"
    by (simp add: MatchString_shape providerIDRegex_shape)
  with False show ?thesis by (simp add: NewProviderID_def)
qed

lemma NewProviderID_returns: "\<exists>r. NewProviderID s = Return r"
  using NewProviderID_value by blast

text \<open>
  The parser never panics and its result is determined for every string: the empty string and a
  string outside the pattern's language give their error; every other string is accepted, with the
  text before the first colon as the cloud provider and the text after the last slash as the
  identifier (so the validation at the end of the parser never fails).
\<close>

lemma NewProviderID_result:
  "NewProviderID s = Return
     (if s = [] then Inl ErrEmptyProviderID
      else if rx_match providerIDRegex s
      then Inr \<lparr>pid_original = s, pid_cloudProvider = takeWhile (\<lambda>c. c \<noteq> CHR '':'') s,
                pid_id = rev (takeWhile (\<lambda>c. c \<noteq> CHR ''/'') (rev s))\<rparr>
      else Inl ErrInvalidProviderID)"
  by (rule NewProviderID_value)

end
