(* ===== verification/Machine_Scope.thy ===== *)
theory Machine_Scope
  imports Fixtures Provider_Id Go_Encoding "HOL-Library.List_Lexorder" "HOL-Library.Char_ord"
    "HOL-Library.Multiset"
begin

text \<open>
  \<^verbatim>\<open>internal/scope/machine.go\<close>: the constructor, accessors and mutators of the machine scope. A
  method with a pointer receiver that writes takes the scope and returns it updated; a method that
  calls the API takes the environment and the history and returns the extended history.
  \<open>sort.Strings\<close> is \<^const>\<open>sort\<close> with the lexicographic order on bytes.
\<close>

section \<open>NewMachineScope\<close>

record MachineScopeParams =
  msp_Cluster :: "Cluster option"
  msp_MicroVMCluster :: "MicrovmCluster option"
  msp_Machine :: "Machine option"
  msp_MicroVMMachine :: "MicrovmMachine option"
  msp_Client :: "unit option"

definition ManagerName :: string where
  "ManagerName = ''microvm-manager''"

type_synonym MachineScopeOption = "MachineScope \<Rightarrow> MachineScope"

definition WithMachineControllerName :: "string \<Rightarrow> MachineScopeOption" where
  "WithMachineControllerName name = (\<lambda>s. s\<lparr>sc_controllerName := name\<rparr>)"

definition NewMachineScope ::
  "env \<Rightarrow> MachineScopeParams \<Rightarrow> MachineScopeOption list \<Rightarrow> history \<Rightarrow>
   (error + MachineScope) \<times> history" where
  "NewMachineScope E params opts h =
     (case msp_Cluster params of None \<Rightarrow> (Inl errClusterRequired, h) | Some cluster \<Rightarrow>
      case msp_MicroVMCluster params of None \<Rightarrow> (Inl errMicrovmClusterRequired, h) | Some mvmCluster \<Rightarrow>
      case msp_Machine params of None \<Rightarrow> (Inl errMachineRequired, h) | Some machine \<Rightarrow>
      case msp_MicroVMMachine params of None \<Rightarrow> (Inl errMicrovmMachineRequied, h) | Some mvmMachine \<Rightarrow>
      case msp_Client params of None \<Rightarrow> (Inl errClientRequired, h) | Some _ \<Rightarrow>
      let h' = h @ [NewMachineHelper mvmMachine] in
      case e_NewMachineHelper E h mvmMachine of
        Some err \<Rightarrow> (Inl (Errorf ''creating patch helper for microvm machine'' err), h')
      | None \<Rightarrow>
          let scope = \<lparr>sc_Cluster = cluster, sc_MvmCluster = mvmCluster, sc_Machine = machine,
                       sc_MvmMachine = mvmMachine, sc_controllerName = ManagerName\<rparr>
          in (Inr (foldl (\<lambda>s opt. opt s) scope opts), h'))"

section \<open>Accessors\<close>

definition MachineScope_Name :: "MachineScope \<Rightarrow> string" where
  "MachineScope_Name m = machine_name (sc_MvmMachine m)"

definition MachineScope_Namespace :: "MachineScope \<Rightarrow> string" where
  "MachineScope_Namespace m = om_Namespace (mm_ObjectMeta (sc_MvmMachine m))"

definition MachineScope_ClusterName :: "MachineScope \<Rightarrow> string" where
  "MachineScope_ClusterName m = om_Name (cl_ObjectMeta (sc_Cluster m))"

definition MachineScope_ControllerName :: "MachineScope \<Rightarrow> string" where
  "MachineScope_ControllerName m = sc_controllerName m"

definition IsControlPlane :: "env \<Rightarrow> MachineScope \<Rightarrow> bool" where
  "IsControlPlane E m = e_IsControlPlaneMachine E (sc_Machine m)"

definition GetMicrovmSpec :: "MachineScope \<Rightarrow> VMSpec" where
  "GetMicrovmSpec m = ms_VMSpec (mm_Spec (sc_MvmMachine m))"

definition update_MvmMachine :: "(MicrovmMachine \<Rightarrow> MicrovmMachine) \<Rightarrow> MachineScope \<Rightarrow> MachineScope" where
  "update_MvmMachine f m = m\<lparr>sc_MvmMachine := f (sc_MvmMachine m)\<rparr>"

text \<open>
  \<open>GetLabels\<close> writes the label \<open>cluster-name\<close> into the map it returns. When the machine's spec has a
  label map, that is the map of the spec itself, so the spec changes too.
\<close>

definition GetLabels :: "MachineScope \<Rightarrow> (string \<rightharpoonup> string) \<times> MachineScope" where
  "GetLabels m =
     (case vm_Labels (ms_VMSpec (mm_Spec (sc_MvmMachine m))) of
        None \<Rightarrow> (Map.empty(''cluster-name'' \<mapsto> MachineScope_ClusterName m), m)
      | Some labels \<Rightarrow>
          let labels' = labels(''cluster-name'' \<mapsto> MachineScope_ClusterName m)
          in (labels', update_MvmMachine (set_vm_labels (Some labels')) m))"

definition GetProviderID :: "MachineScope \<Rightarrow> string" where
  "GetProviderID m =
     (case machine_provider_id (sc_MvmMachine m) of Some p \<Rightarrow> p | None \<Rightarrow> '''')"

definition SetProviderID :: "string \<Rightarrow> string \<Rightarrow> MachineScope \<Rightarrow> MachineScope" where
  "SetProviderID failureDomain mvmUID m =
     (let providerID = ProviderPrefix @ failureDomain @ ''/'' @ mvmUID
      in update_MvmMachine (set_provider_id providerID) m)"

definition GetInstanceID :: "MachineScope \<Rightarrow> string outcome" where
  "GetInstanceID m =
     bind_outcome (NewProviderID (GetProviderID m)) (\<lambda>parsed.
       case parsed of Inl err \<Rightarrow> Return '''' | Inr p \<Rightarrow> Return (ID p))"

text \<open>\<open>strings.Split\<close> never returns an empty slice, so \<open>parts[0]\<close> is in range (lemma \<open>Split_ne\<close>).\<close>

definition getFailureDomainFromProviderID :: "string \<Rightarrow> string" where
  "getFailureDomainFromProviderID providerID =
     (if providerID = '''' then ''''
      else let providerID' = ReplaceAll providerID ProviderPrefix '''';
               parts = Split providerID' ''/''
           in hd parts)"

definition GetFailureDomain :: "MachineScope \<Rightarrow> (error + string) outcome" where
  "GetFailureDomain m =
     (let fd = m_Spec_FailureDomain (sc_Machine m) in
      if fd \<noteq> None \<and> the fd \<noteq> '''' then Return (Inr (the fd))
      else let providerID = GetProviderID m in
      if providerID \<noteq> '''' then Return (Inr (getFailureDomainFromProviderID providerID))
      else let failureDomainNames = map fst (elems (cl_Status_FailureDomains (sc_Cluster m))) in
      if length failureDomainNames = 0 then Return (Inl errFailureDomainNotFound)
      else if length failureDomainNames = 1 then
        bind_outcome (go_index failureDomainNames 0) (\<lambda>n. Return (Inr n))
      else let failureDomainNames' = sort failureDomainNames;
               pos = go_rem (int_of_uint32 (ChecksumIEEE (machine_name (sc_MvmMachine m))))
                            (int (length failureDomainNames'))
           in bind_outcome (go_index failureDomainNames' pos) (\<lambda>n. Return (Inr n)))"

section \<open>Readiness\<close>

text \<open>\<open>conditions.MarkTrue\<close> and \<open>MarkFalse\<close> reach the conditions through the object's interface.\<close>

definition MarkTrue_Machine :: "env \<Rightarrow> ConditionType \<Rightarrow> MicrovmMachine \<Rightarrow> MicrovmMachine" where
  "MarkTrue_Machine E t mvm =
     MicrovmMachine_SetConditions (e_MarkTrue E t (MicrovmMachine_GetConditions mvm)) mvm"

definition MarkFalse_Machine ::
  "env \<Rightarrow> ConditionType \<Rightarrow> string \<Rightarrow> ConditionSeverity \<Rightarrow> string \<Rightarrow> MicrovmMachine \<Rightarrow> MicrovmMachine" where
  "MarkFalse_Machine E t reason severity message mvm =
     MicrovmMachine_SetConditions
       (e_MarkFalse E t reason severity message (MicrovmMachine_GetConditions mvm)) mvm"

definition SetReady :: "env \<Rightarrow> MachineScope \<Rightarrow> MachineScope" where
  "SetReady E m =
     update_MvmMachine (set_machine_ready True)
       (update_MvmMachine (MarkTrue_Machine E MicrovmReadyCondition) m)"

definition SetNotReady ::
  "env \<Rightarrow> string \<Rightarrow> ConditionSeverity \<Rightarrow> string \<Rightarrow> MachineScope \<Rightarrow> MachineScope" where
  "SetNotReady E reason severity message m =
     update_MvmMachine (set_machine_ready False)
       (update_MvmMachine (MarkFalse_Machine E MicrovmReadyCondition reason severity message) m)"

section \<open>Patch\<close>

definition MachineScope_Patch ::
  "env \<Rightarrow> MachineScope \<Rightarrow> history \<Rightarrow> error option \<times> MachineScope \<times> history" where
  "MachineScope_Patch E m h =
     (let applicableConditions = [MicrovmReadyCondition];
          mvm = sc_MvmMachine m;
          mvm' = MicrovmMachine_SetConditions
                   (e_SetSummary E
                      [WithConditions applicableConditions,
                       WithStepCounterIf (e_TimeIsZero E (om_DeletionTimestamp (mm_ObjectMeta mvm))),
                       WithStepCounter]
                      (MicrovmMachine_GetConditions mvm)) mvm;
          owned = [ReadyCondition, MicrovmReadyCondition];
          (err, mvm'') = e_PatchMachine E h mvm' owned
      in (map_option (Errorf ''unable to patch machine'') err,
          m\<lparr>sc_MvmMachine := mvm''\<rparr>, h @ [PatchMachine mvm' owned]))"

section \<open>Secrets\<close>

definition GetRawBootstrapData ::
  "env \<Rightarrow> MachineScope \<Rightarrow> history \<Rightarrow> (error + string) \<times> history" where
  "GetRawBootstrapData E m h =
     (case m_Spec_Bootstrap_DataSecretName (sc_Machine m) of
        None \<Rightarrow> (Inl errMissingBootstrapDataSecret, h)
      | Some name \<Rightarrow>
          let secretKey = \<lparr>nn_Namespace = MachineScope_Namespace m, nn_Name = name\<rparr>;
              h' = h @ [GetSecret secretKey]
          in case e_GetSecret E h secretKey of
               Inl err \<Rightarrow>
                 (Inl (Errorf (''getting bootstrap secret '' @ nn_Namespace secretKey @ ''/'' @
                               nn_Name secretKey) err), h')
             | Inr bootstrapSecret \<Rightarrow>
                 (case sec_Data bootstrapSecret ''value'' of
                    None \<Rightarrow> (Inl errMissingBootstrapSecretKey, h')
                  | Some bootstrapData \<Rightarrow> (Inr (EncodeToString bootstrapData), h')))"

definition GetSSHPublicKeys :: "MachineScope \<Rightarrow> VMSSHPublicKey slice" where
  "GetSSHPublicKeys m =
     (if length (elems (ms_SSHPublicKeys (mm_Spec (sc_MvmMachine m)))) \<noteq> 0
      then ms_SSHPublicKeys (mm_Spec (sc_MvmMachine m))
      else if length (elems (cs_SSHPublicKeys (mc_Spec (sc_MvmCluster m)))) \<noteq> 0
      then cs_SSHPublicKeys (mc_Spec (sc_MvmCluster m))
      else None)"

definition GetBasicAuthToken ::
  "env \<Rightarrow> string \<Rightarrow> MachineScope \<Rightarrow> history \<Rightarrow> (error + string) \<times> history" where
  "GetBasicAuthToken E addr m h =
     (case pl_StaticPool (cs_Placement (mc_Spec (sc_MvmCluster m))) of
        None \<Rightarrow> (Inr '''', h)
      | Some pool \<Rightarrow>
          if sp_BasicAuthSecret pool = '''' then (Inr '''', h)
          else let key = \<lparr>nn_Namespace = om_Namespace (mc_ObjectMeta (sc_MvmCluster m)),
                          nn_Name = sp_BasicAuthSecret pool\<rparr>;
                   h' = h @ [GetSecret key]
               in case e_GetSecret E h key of
                    Inl err \<Rightarrow> (Inl err, h')
                  | Inr tokenSecret \<Rightarrow>
                      let host = hd (Split addr '':'');
                          token = (case sec_Data tokenSecret host of None \<Rightarrow> '''' | Some t \<Rightarrow> t)
                      in (Inr token, h'))"

definition tlsCert :: string where
  "tlsCert = ''tls.crt''"

definition tlsKey :: string where
  "tlsKey = ''tls.key''"

definition caCert :: string where
  "caCert = ''ca.crt''"

definition GetTLSConfig ::
  "env \<Rightarrow> MachineScope \<Rightarrow> history \<Rightarrow> (error + ClientTLSConfig option) \<times> history" where
  "GetTLSConfig E m h =
     (if cs_TLSSecretRef (mc_Spec (sc_MvmCluster m)) = '''' then (Inr None, h)
      else let secretKey = \<lparr>nn_Namespace = om_Namespace (mc_ObjectMeta (sc_MvmCluster m)),
                            nn_Name = cs_TLSSecretRef (mc_Spec (sc_MvmCluster m))\<rparr>;
               h' = h @ [GetSecret secretKey]
           in case e_GetSecret E h secretKey of
                Inl err \<Rightarrow> (Inl err, h')
              | Inr tlsSecret \<Rightarrow>
                  (case sec_Data tlsSecret tlsCert of None \<Rightarrow> (Inl (tlsError tlsCert), h')
                   | Some certBytes \<Rightarrow>
                   case sec_Data tlsSecret tlsKey of None \<Rightarrow> (Inl (tlsError tlsKey), h')
                   | Some keyBytes \<Rightarrow>
                   case sec_Data tlsSecret caCert of None \<Rightarrow> (Inl (tlsError caCert), h')
                   | Some caBytes \<Rightarrow>
                   (Inr (Some \<lparr>ctls_Cert = certBytes, ctls_Key = keyBytes, ctls_CACert = caBytes\<rparr>), h')))"

section \<open>Lemmas about the scope\<close>

named_theorems scope_simps \<open>what a scope operation does to the parts of the scope\<close>

lemma update_MvmMachine_parts [scope_simps]:
  "sc_MvmMachine (update_MvmMachine f m) = f (sc_MvmMachine m)"
  "sc_Cluster (update_MvmMachine f m) = sc_Cluster m"
  "sc_MvmCluster (update_MvmMachine f m) = sc_MvmCluster m"
  "sc_Machine (update_MvmMachine f m) = sc_Machine m"
  "sc_controllerName (update_MvmMachine f m) = sc_controllerName m"
  by (simp_all add: update_MvmMachine_def)

lemma SetReady_MvmMachine [scope_simps]:
  "sc_MvmMachine (SetReady E m) =
     set_machine_ready True (MarkTrue_Machine E MicrovmReadyCondition (sc_MvmMachine m))"
  "sc_Machine (SetReady E m) = sc_Machine m" "sc_Cluster (SetReady E m) = sc_Cluster m"
  by (simp_all add: SetReady_def scope_simps)

lemma SetNotReady_MvmMachine [scope_simps]:
  "sc_MvmMachine (SetNotReady E r s t m) =
     set_machine_ready False (MarkFalse_Machine E MicrovmReadyCondition r s t (sc_MvmMachine m))"
  "sc_Machine (SetNotReady E r s t m) = sc_Machine m"
  "sc_Cluster (SetNotReady E r s t m) = sc_Cluster m"
  by (simp_all add: SetNotReady_def scope_simps)

lemma SetProviderID_parts [scope_simps]:
  "sc_MvmMachine (SetProviderID fd uid m) =
     set_provider_id (ProviderPrefix @ fd @ ''/'' @ uid) (sc_MvmMachine m)"
  "sc_Machine (SetProviderID fd uid m) = sc_Machine m"
  "sc_Cluster (SetProviderID fd uid m) = sc_Cluster m"
  by (simp_all add: SetProviderID_def scope_simps)

lemma MarkTrue_Machine_parts [machine_parts]:
  "mm_ObjectMeta (MarkTrue_Machine E t m) = mm_ObjectMeta m"
  "mm_Spec (MarkTrue_Machine E t m) = mm_Spec m"
  "machine_ready (MarkTrue_Machine E t m) = machine_ready m"
  "machine_vmstate (MarkTrue_Machine E t m) = machine_vmstate m"
  "mst_Conditions (mm_Status (MarkTrue_Machine E t m)) = e_MarkTrue E t (mst_Conditions (mm_Status m))"
  by (simp_all add: MarkTrue_Machine_def machine_parts MicrovmMachine_GetConditions_def)

lemma MarkFalse_Machine_parts [machine_parts]:
  "mm_ObjectMeta (MarkFalse_Machine E t r s x m) = mm_ObjectMeta m"
  "mm_Spec (MarkFalse_Machine E t r s x m) = mm_Spec m"
  "machine_ready (MarkFalse_Machine E t r s x m) = machine_ready m"
  "machine_vmstate (MarkFalse_Machine E t r s x m) = machine_vmstate m"
  "mst_Conditions (mm_Status (MarkFalse_Machine E t r s x m)) =
     e_MarkFalse E t r s x (mst_Conditions (mm_Status m))"
  by (simp_all add: MarkFalse_Machine_def machine_parts MicrovmMachine_GetConditions_def)

lemma GetProviderID_SetProviderID [scope_simps]:
  "GetProviderID (SetProviderID fd uid m) = ProviderPrefix @ fd @ ''/'' @ uid"
  by (simp add: GetProviderID_def scope_simps machine_parts)

subsection \<open>Provider identifiers\<close>

lemma first_split_unique:
  "c \<notin> set p \<Longrightarrow> c \<notin> set q \<Longrightarrow> p @ c # x = q @ c # y \<longleftrightarrow> p = q \<and> x = y"
proof (induction p arbitrary: q)
  case Nil
  then show ?case by (cases q) auto
next
  case (Cons a p)
  then show ?case by (cases q) auto
qed

lemma prefix_ProviderPrefix_slash:
  assumes "prefix ProviderPrefix (f @ CHR ''/'' # u)" "CHR ''/'' \<notin> set f"
  shows "u \<noteq> [] \<and> hd u = CHR ''/''"
proof -
  from assms(1) obtain z where "f @ CHR ''/'' # u = ''microvm:'' @ CHR ''/'' # CHR ''/'' # z"
    by (auto simp: prefix_def ProviderPrefix_def)
  then have "u = CHR ''/'' # z"
    using assms(2) first_split_unique [of "CHR ''/''" f "''microvm:''" u "CHR ''/'' # z"] by simp
  then show ?thesis by simp
qed

lemma ReplaceAll_ProviderPrefix:
  assumes "CHR ''/'' \<notin> set fd" "uid = [] \<or> hd uid \<noteq> CHR ''/''"
  shows "ReplaceAll (fd @ CHR ''/'' # uid) ProviderPrefix [] =
    fd @ CHR ''/'' # ReplaceAll uid ProviderPrefix []"
  using assms(1)
proof (induction fd)
  case Nil
  have "\<not> prefix ProviderPrefix (CHR ''/'' # uid)"
    by (simp add: ProviderPrefix_def)
  then show ?case by (simp add: ReplaceAll_step)
next
  case (Cons c fd)
  then have "\<not> prefix ProviderPrefix (c # fd @ CHR ''/'' # uid)"
    using prefix_ProviderPrefix_slash [of "c # fd" uid] assms(2) by auto
  with Cons show ?case by (simp add: ReplaceAll_step)
qed

lemma getFailureDomain_of_SetProviderID:
  assumes "CHR ''/'' \<notin> set fd" "uid = [] \<or> hd uid \<noteq> CHR ''/''"
  shows "getFailureDomainFromProviderID (ProviderPrefix @ fd @ ''/'' @ uid) = fd"
proof -
  have "ProviderPrefix \<noteq> []" by (simp add: ProviderPrefix_def)
  moreover have "ReplaceAll (ProviderPrefix @ fd @ ''/'' @ uid) ProviderPrefix [] =
      fd @ CHR ''/'' # ReplaceAll uid ProviderPrefix []"
    using ReplaceAll_ProviderPrefix [OF assms] \<open>ProviderPrefix \<noteq> []\<close> by (simp add: ReplaceAll_prefix)
  ultimately show ?thesis
    using assms(1) by (simp add: getFailureDomainFromProviderID_def Split_single_hit)
qed

lemma GetInstanceID_of_SetProviderID:
  assumes "uid \<noteq> []" "CHR ''/'' \<notin> set uid" "CHR 0x0A \<notin> set (fd @ uid)"
  shows "GetInstanceID (SetProviderID fd uid m) = Return uid"
proof -
  let ?s = "ProviderPrefix @ fd @ ''/'' @ uid"
  obtain i c where uid: "uid = i @ [c]" using assms(1) by (cases uid rule: rev_cases) auto
  have "?s = ''microvm'' @ ''://'' @ (fd @ ''/'' @ i) @ [c]"
    by (simp add: ProviderPrefix_def uid)
  moreover have "CHR '':'' \<notin> set ''microvm''" "CHR 0x0A \<notin> set (fd @ ''/'' @ i)" "c \<noteq> CHR ''/''"
    using assms by (auto simp: uid)
  ultimately have match: "MatchString ?s" unfolding MatchString_shape by blast
  have colon: "?s = ''microvm'' @ CHR '':'' # ''//'' @ fd @ ''/'' @ uid"
    and slash: "?s = (ProviderPrefix @ fd) @ CHR ''/'' # uid"
    by (simp_all add: ProviderPrefix_def)
  have "NewProviderID ?s =
      Return (Inr \<lparr>pid_original = ?s, pid_cloudProvider = ''microvm'', pid_id = uid\<rparr>)"
    by (rule NewProviderID_match [OF match colon _ slash assms(2)]) simp
  then show ?thesis
    by (simp add: GetInstanceID_def scope_simps ID_def)
qed

lemma GetInstanceID_returns: "\<exists>s. GetInstanceID m = Return s"
  using NewProviderID_returns [of "GetProviderID m"] by (auto simp: GetInstanceID_def split: sum.splits)

subsection \<open>Failure domains\<close>

text \<open>The names of the failure domains of the cluster, in the order of one \<open>range\<close> loop.\<close>

abbreviation failure_domain_names :: "MachineScope \<Rightarrow> string list" where
  "failure_domain_names m \<equiv> map fst (elems (cl_Status_FailureDomains (sc_Cluster m)))"

text \<open>The machine has no failure domain of its own and no provider id to take one from.\<close>

definition unplaced :: "MachineScope \<Rightarrow> bool" where
  "unplaced m \<longleftrightarrow>
     (m_Spec_FailureDomain (sc_Machine m) = None \<or> m_Spec_FailureDomain (sc_Machine m) = Some '''') \<and>
     GetProviderID m = ''''"

text \<open>The choice for an unplaced machine: the checksum of its name picks from the sorted names.\<close>

definition chosen_domain :: "string \<Rightarrow> string list \<Rightarrow> string" where
  "chosen_domain name names =
     sort names ! nat (go_rem (int_of_uint32 (ChecksumIEEE name)) (int (length names)))"

lemma chosen_domain_single: "length names = 1 \<Longrightarrow> chosen_domain name names = names ! 0"
  by (cases names) (auto simp: chosen_domain_def go_rem_def)

lemma chosen_domain_in: "names \<noteq> [] \<Longrightarrow> chosen_domain name names \<in> set names"
proof -
  assume "names \<noteq> []"
  then have "nat (go_rem (int_of_uint32 (ChecksumIEEE name)) (int (length names))) < length (sort names)"
    using crc_index_bounds [of "length names" "ChecksumIEEE name"] by (simp add: nat_less_iff)
  from nth_mem [OF this] show ?thesis by (simp add: chosen_domain_def)
qed

lemma chosen_domain_mset: "mset names = mset names' \<Longrightarrow> chosen_domain name names = chosen_domain name names'"
proof -
  assume "mset names = mset names'"
  then have "sort names = sort names'" "length names = length names'"
    by (auto simp: properties_for_sort dest: mset_eq_length)
  then show ?thesis by (simp add: chosen_domain_def)
qed

lemma GetFailureDomain_unplaced:
  assumes "unplaced m"
  shows "GetFailureDomain m = Return
    (if failure_domain_names m = [] then Inl errFailureDomainNotFound
     else Inr (chosen_domain (machine_name (sc_MvmMachine m)) (failure_domain_names m)))"
proof -
  let ?names = "failure_domain_names m"
  let ?pos = "go_rem (int_of_uint32 (ChecksumIEEE (machine_name (sc_MvmMachine m)))) (int (length ?names))"
  have guards: "\<not> (m_Spec_FailureDomain (sc_Machine m) \<noteq> None \<and> the (m_Spec_FailureDomain (sc_Machine m)) \<noteq> [])"
    "\<not> GetProviderID m \<noteq> []"
    using assms by (auto simp: unplaced_def)
  consider (none) "?names = []" | (one) "length ?names = 1" | (many) "?names \<noteq> []" "length ?names \<noteq> 1"
    by blast
  then show ?thesis
  proof cases
    case one
    then show ?thesis
      using guards chosen_domain_single [OF one]
      by (auto simp: GetFailureDomain_def Let_def go_index_def)
  next
    case many
    then have "go_index (sort ?names) ?pos = Return (chosen_domain (machine_name (sc_MvmMachine m)) ?names)"
      using crc_index_bounds [of "length ?names"] by (simp add: go_index_def chosen_domain_def)
    with many guards show ?thesis by (auto simp: GetFailureDomain_def Let_def)
  qed (use guards in \<open>simp add: GetFailureDomain_def Let_def\<close>)
qed

lemma GetFailureDomain_placed:
  assumes "\<not> unplaced m"
  shows "GetFailureDomain m = Return (Inr
    (case m_Spec_FailureDomain (sc_Machine m) of
       Some fd \<Rightarrow> if fd \<noteq> '''' then fd else getFailureDomainFromProviderID (GetProviderID m)
     | None \<Rightarrow> getFailureDomainFromProviderID (GetProviderID m)))"
  using assms by (auto simp: GetFailureDomain_def unplaced_def Let_def split: option.splits)

subsection \<open>The provider id as a code for host and microvm\<close>

text \<open>
  The controller stores the host and the uid of the microvm in one string and reads them back on the
  next run. The contract: reading either part returns what was stored, for the pairs that can be
  stored, and storing twice is storing the second time.
\<close>

locale id_codec =
  fixes store :: "string \<Rightarrow> string \<Rightarrow> 's \<Rightarrow> 's"
    and host :: "'s \<Rightarrow> string"
    and uid :: "'s \<Rightarrow> string outcome"
    and storable :: "string \<Rightarrow> string \<Rightarrow> bool"
  assumes host_store: "storable f u \<Longrightarrow> host (store f u s) = f"
    and uid_store: "storable f u \<Longrightarrow> uid (store f u s) = Return u"
    and store_store: "store f u (store f' u' s) = store f u s"
begin

lemma store_inj:
  assumes "storable f u" "storable f' u'" "store f u s = store f' u' s'"
  shows "f = f' \<and> u = u'"
  using assms host_store uid_store by (metis outcome.inject(1))

lemma store_again: "storable f u \<Longrightarrow> store (host (store f u s)) u (store f u s) = store f u s"
  by (simp add: host_store store_store)

end

text \<open>
  What can be stored: the uid is not empty and has no slash, the host has no slash, and neither has a
  newline.
\<close>

definition storable_id :: "string \<Rightarrow> string \<Rightarrow> bool" where
  "storable_id fd uid \<longleftrightarrow>
     uid \<noteq> '''' \<and> CHR ''/'' \<notin> set uid \<and> CHR ''/'' \<notin> set fd \<and> CHR 0x0A \<notin> set (fd @ uid)"

lemma SetProviderID_twice: "SetProviderID fd uid (SetProviderID fd' uid' m) = SetProviderID fd uid m"
  by (simp add: SetProviderID_def update_MvmMachine_def set_provider_id_def)

interpretation provider_id: id_codec
  SetProviderID "\<lambda>m. getFailureDomainFromProviderID (GetProviderID m)" GetInstanceID storable_id
proof unfold_locales
  fix f u :: string and s :: MachineScope
  assume *: "storable_id f u"
  then have "u = [] \<or> hd u \<noteq> CHR ''/''" by (cases u) (auto simp: storable_id_def)
  with * show "getFailureDomainFromProviderID (GetProviderID (SetProviderID f u s)) = f"
    by (simp add: storable_id_def scope_simps getFailureDomain_of_SetProviderID [simplified])
  from * show "GetInstanceID (SetProviderID f u s) = Return u"
    by (simp add: storable_id_def GetInstanceID_of_SetProviderID)
next
  fix f u f' u' :: string and s :: MachineScope
  show "SetProviderID f u (SetProviderID f' u' s) = SetProviderID f u s"
    by (rule SetProviderID_twice)
qed

subsection \<open>Secrets\<close>

lemma GetBasicAuthToken_result:
  assumes "pl_StaticPool (cs_Placement (mc_Spec (sc_MvmCluster m))) = Some pool"
    "sp_BasicAuthSecret pool \<noteq> ''''"
  defines "key \<equiv> \<lparr>nn_Namespace = om_Namespace (mc_ObjectMeta (sc_MvmCluster m)),
                    nn_Name = sp_BasicAuthSecret pool\<rparr>"
  shows "GetBasicAuthToken E addr m h =
    (map_sum id (\<lambda>sec. case sec_Data sec (takeWhile (\<lambda>c. c \<noteq> CHR '':'') addr) of None \<Rightarrow> '''' | Some t \<Rightarrow> t)
       (e_GetSecret E h key), h @ [GetSecret key])"
  using assms(1,2)
  by (auto simp: GetBasicAuthToken_def key_def Let_def hd_Split_single split: sum.splits)

section \<open>Properties of the machine scope\<close>

text \<open>
  C19: GetFailureDomain always returns (the index computed from the checksum is in range); the only
  error is errFailureDomainNotFound, exactly when the machine has no failure domain, no provider id
  and its cluster no failure domains; and a machine placed by the strategy is placed on one of the
  cluster's failure domains.
\<close>

theorem GetFailureDomain_returns:
  "\<exists>r. GetFailureDomain m = Return r \<and>
     (r = Inl errFailureDomainNotFound \<longleftrightarrow> unplaced m \<and> failure_domain_names m = []) \<and>
     (\<forall>e. r = Inl e \<longrightarrow> e = errFailureDomainNotFound) \<and>
     (\<forall>fd. unplaced m \<longrightarrow> r = Inr fd \<longrightarrow> fd \<in> set (failure_domain_names m))"
proof (cases "unplaced m")
  case True
  have "names \<noteq> [] \<Longrightarrow> chosen_domain n names \<in> set names" for n names
    by (rule chosen_domain_in)
  then show ?thesis
    unfolding GetFailureDomain_unplaced [OF True] using True by (auto simp del: set_map)
next
  case False
  show ?thesis unfolding GetFailureDomain_placed [OF False] using False by auto
qed

theorem GetFailureDomain_returns_witness:
  "\<exists>r. GetFailureDomain (fx_scope\<lparr>sc_Machine := fx_machine\<lparr>m_Spec_FailureDomain := None\<rparr>\<rparr>) = Return r \<and>
     (\<exists>fd. r = Inr fd \<and> fd \<in> {''fd2:9090'', ''fd1:9090''})"
proof -
  let ?m = "fx_scope\<lparr>sc_Machine := fx_machine\<lparr>m_Spec_FailureDomain := None\<rparr>\<rparr>"
  have u: "unplaced ?m" and n: "failure_domain_names ?m = [''fd2:9090'', ''fd1:9090'']"
    by (simp_all add: unplaced_def GetProviderID_def fx_defs)
  from GetFailureDomain_returns [of ?m] obtain r where r: "GetFailureDomain ?m = Return r"
    "r = Inl errFailureDomainNotFound \<longleftrightarrow> unplaced ?m \<and> failure_domain_names ?m = []"
    "\<forall>e. r = Inl e \<longrightarrow> e = errFailureDomainNotFound"
    "\<forall>fd. unplaced ?m \<longrightarrow> r = Inr fd \<longrightarrow> fd \<in> set (failure_domain_names ?m)" by blast
  then obtain fd where "r = Inr fd" using u n by (cases r) auto
  with r u n show ?thesis by auto
qed

text \<open>
  C20: the placement does not depend on the order in which Go's range loop visits the map of failure
  domains: two scopes that differ only in that order get the same failure domain.
\<close>

theorem GetFailureDomain_order_independent:
  assumes "mset (failure_domain_names m) = mset (failure_domain_names (m\<lparr>sc_Cluster := c\<rparr>))"
  shows "GetFailureDomain (m\<lparr>sc_Cluster := c\<rparr>) = GetFailureDomain m"
proof -
  let ?m = "m\<lparr>sc_Cluster := c\<rparr>"
  have same: "unplaced ?m = unplaced m" "GetProviderID ?m = GetProviderID m"
    by (simp_all add: unplaced_def GetProviderID_def)
  have "(failure_domain_names m = []) = (failure_domain_names ?m = [])"
    using assms by (metis mset_zero_iff)
  then show ?thesis
    using same chosen_domain_mset [OF assms]
    by (cases "unplaced m") (simp_all add: GetFailureDomain_unplaced GetFailureDomain_placed split: option.split)
qed

theorem GetFailureDomain_order_independent_witness:
  "let m = fx_scope\<lparr>sc_Machine := fx_machine\<lparr>m_Spec_FailureDomain := None\<rparr>\<rparr>;
       c = fx_cluster\<lparr>cl_Status_FailureDomains := Some [(''fd1:9090'', fx_fd), (''fd2:9090'', fx_fd)]\<rparr>
   in unplaced m \<and> GetFailureDomain (m\<lparr>sc_Cluster := c\<rparr>) = GetFailureDomain m"
  unfolding Let_def
  by (rule conjI, simp add: unplaced_def GetProviderID_def fx_defs,
      rule GetFailureDomain_order_independent) (simp add: fx_defs)

text \<open>
  C21: placement is sticky: once the provider id of a machine without an own failure domain has been
  written, every later run gets the failure domain that was written, whatever the cluster's failure
  domains have become.
\<close>

theorem GetFailureDomain_sticky:
  assumes "m_Spec_FailureDomain (sc_Machine m) = None" "storable_id fd uid"
  shows "GetFailureDomain ((SetProviderID fd uid m)\<lparr>sc_Cluster := c\<rparr>) = Return (Inr fd)"
proof -
  let ?m = "(SetProviderID fd uid m)\<lparr>sc_Cluster := c\<rparr>"
  have pid: "GetProviderID ?m = GetProviderID (SetProviderID fd uid m)"
    by (simp add: GetProviderID_def)
  then have "GetProviderID ?m \<noteq> []" by (simp add: scope_simps ProviderPrefix_def)
  then have "\<not> unplaced ?m" by (simp add: unplaced_def)
  then show ?thesis
    using assms(1) provider_id.host_store [OF assms(2), of m] pid
    by (simp add: GetFailureDomain_placed scope_simps)
qed

theorem GetFailureDomain_sticky_witness:
  "GetFailureDomain ((SetProviderID ''fd1:9090'' ''ABCDEF''
      (fx_scope\<lparr>sc_Machine := fx_machine\<lparr>m_Spec_FailureDomain := None\<rparr>\<rparr>))\<lparr>sc_Cluster := fx_cluster\<rparr>)
    = Return (Inr ''fd1:9090'')"
  by (rule GetFailureDomain_sticky) (simp_all add: storable_id_def fx_defs)

text \<open>
  C22: the provider id determines the host and the microvm: what SetProviderID writes for a host and a
  uid is read back by getFailureDomainFromProviderID and GetInstanceID, and two different pairs are
  never written as the same provider id.
\<close>

theorem SetProviderID_roundtrip:
  assumes "storable_id fd uid" "storable_id fd' uid'"
  shows "getFailureDomainFromProviderID (GetProviderID (SetProviderID fd uid m)) = fd \<and>
    GetInstanceID (SetProviderID fd uid m) = Return uid \<and>
    (GetProviderID (SetProviderID fd uid m) = GetProviderID (SetProviderID fd' uid' m) \<longleftrightarrow>
     fd = fd' \<and> uid = uid')"
proof (intro conjI)
  show "getFailureDomainFromProviderID (GetProviderID (SetProviderID fd uid m)) = fd"
    by (rule provider_id.host_store) (rule assms(1))
  show "GetInstanceID (SetProviderID fd uid m) = Return uid"
    by (rule provider_id.uid_store) (rule assms(1))
  have "SetProviderID fd uid m = SetProviderID fd' uid' m"
    if "GetProviderID (SetProviderID fd uid m) = GetProviderID (SetProviderID fd' uid' m)"
    using that [unfolded GetProviderID_SetProviderID] by (simp add: SetProviderID_def)
  then show "(GetProviderID (SetProviderID fd uid m) = GetProviderID (SetProviderID fd' uid' m)) =
      (fd = fd' \<and> uid = uid')"
    using provider_id.store_inj [OF assms] by auto
qed

theorem SetProviderID_roundtrip_witness:
  "getFailureDomainFromProviderID (GetProviderID (SetProviderID ''127.0.0.1:9090'' ''ABCDEF'' fx_scope))
     = ''127.0.0.1:9090'' \<and>
   GetInstanceID (SetProviderID ''127.0.0.1:9090'' ''ABCDEF'' fx_scope) = Return ''ABCDEF''"
  using SetProviderID_roundtrip [of "''127.0.0.1:9090''" "''ABCDEF''" "''h''" "''u''" fx_scope]
  by (simp add: storable_id_def)

text \<open>
  GetLabels returns the user's labels with cluster-name set to the cluster's name, overriding a
  user label of that name. It is not a pure accessor: when the spec has a label map, the same label
  is written into the spec of the machine (the returned map is the map of the spec); nothing else of
  the scope changes, and when the spec has no map the scope does not change at all.
\<close>

lemma GetLabels_result:
  "fst (GetLabels m) ''cluster-name'' = Some (MachineScope_ClusterName m) \<and>
   (\<forall>k. fst (GetLabels m) k = (if k = ''cluster-name'' then Some (MachineScope_ClusterName m)
      else case vm_Labels (GetMicrovmSpec m) of None \<Rightarrow> None | Some ls \<Rightarrow> ls k)) \<and>
   snd (GetLabels m) = (case vm_Labels (GetMicrovmSpec m) of None \<Rightarrow> m
      | Some ls \<Rightarrow> update_MvmMachine (set_vm_labels (Some (fst (GetLabels m)))) m)"
  by (auto simp: GetLabels_def GetMicrovmSpec_def Let_def split: option.splits)

text \<open>
  C31: the bootstrap data handed to the microvm is the base64 encoding of the bytes under the key
  value of the machine's bootstrap secret, read from the machine's namespace: whenever there are such
  bytes the call returns data, and decoding it gives the bytes back. Without a secret name no API call is
  made and the error says so; a failing read gives its error, wrapped with the name of the secret; a
  secret without the key gives the error about the key, and nothing else is an error.
\<close>

theorem GetRawBootstrapData_roundtrip:
  "case m_Spec_Bootstrap_DataSecretName (sc_Machine m) of
     None \<Rightarrow> GetRawBootstrapData E m h = (Inl errMissingBootstrapDataSecret, h)
   | Some name \<Rightarrow>
       (let ns = om_Namespace (mm_ObjectMeta (sc_MvmMachine m)); key = \<lparr>nn_Namespace = ns, nn_Name = name\<rparr>
        in snd (GetRawBootstrapData E m h) = h @ [GetSecret key] \<and>
          (case e_GetSecret E h key of
             Inl err \<Rightarrow> fst (GetRawBootstrapData E m h) = Inl (Errorf (''getting bootstrap secret '' @ ns @ ''/'' @ name) err)
           | Inr sec \<Rightarrow> (case sec_Data sec ''value'' of
               None \<Rightarrow> fst (GetRawBootstrapData E m h) = Inl errMissingBootstrapSecretKey
             | Some bytes \<Rightarrow> \<exists>data. fst (GetRawBootstrapData E m h) = Inr data \<and> DecodeString data = Some bytes)))"
  by (auto simp: GetRawBootstrapData_def MachineScope_Namespace_def Let_def DecodeString_EncodeToString
      split: option.splits sum.splits)

text \<open>
  GetTLSConfig gives no configuration exactly when the cluster names no TLS secret (and then makes
  no API call), a full configuration when the secret has all three keys, and otherwise the error of
  the first missing key in the order certificate, key, CA; an error of the API is passed on.
\<close>

lemma GetTLSConfig_result:
  "GetTLSConfig E m h =
    (let ref = cs_TLSSecretRef (mc_Spec (sc_MvmCluster m));
         key = \<lparr>nn_Namespace = om_Namespace (mc_ObjectMeta (sc_MvmCluster m)), nn_Name = ref\<rparr>
     in if ref = '''' then (Inr None, h)
        else (case e_GetSecret E h key of
            Inl err \<Rightarrow> Inl err
          | Inr sec \<Rightarrow>
              (case filter (\<lambda>k. sec_Data sec k = None) [tlsCert, tlsKey, caCert] of
                 [] \<Rightarrow> Inr (Some \<lparr>ctls_Cert = the (sec_Data sec tlsCert),
                        ctls_Key = the (sec_Data sec tlsKey), ctls_CACert = the (sec_Data sec caCert)\<rparr>)
               | k # _ \<Rightarrow> Inl (tlsError k)), h @ [GetSecret key]))"
  by (auto simp: GetTLSConfig_def Let_def split: sum.splits option.splits)

text \<open>
  The basic auth token of a host is the entry of the cluster's secret under the host's address
  without its port (everything before the first colon), and is empty when the secret has no such
  entry; without a static pool or a secret name it is empty and no API call is made.
\<close>

lemma GetBasicAuthToken_by_host:
  "GetBasicAuthToken E addr m h =
    (case pl_StaticPool (cs_Placement (mc_Spec (sc_MvmCluster m))) of
       None \<Rightarrow> (Inr '''', h)
     | Some pool \<Rightarrow>
         if sp_BasicAuthSecret pool = '''' then (Inr '''', h)
         else let key = \<lparr>nn_Namespace = om_Namespace (mc_ObjectMeta (sc_MvmCluster m)),
                          nn_Name = sp_BasicAuthSecret pool\<rparr>
              in (map_sum id (\<lambda>sec. case sec_Data sec (takeWhile (\<lambda>c. c \<noteq> CHR '':'') addr) of
                                None \<Rightarrow> '''' | Some t \<Rightarrow> t) (e_GetSecret E h key),
                  h @ [GetSecret key]))"
proof (cases "pl_StaticPool (cs_Placement (mc_Spec (sc_MvmCluster m)))")
  case None
  then show ?thesis by (simp add: GetBasicAuthToken_def)
next
  case (Some pool)
  then show ?thesis
    using GetBasicAuthToken_result [OF Some] by (simp add: GetBasicAuthToken_def Let_def)
qed

end
