(* ===== verification/Cluster_Scope.thy ===== *)
theory Cluster_Scope
  imports Machine_Scope
begin

text \<open>
  \<^verbatim>\<open>internal/scope/cluster.go\<close> and \<^verbatim>\<open>internal/scope/scope.go\<close>: the cluster scope, and the interface
  \<open>Scoper\<close> as a locale that both scopes interpret. The function that both controllers defer around a
  reconciliation (patch the object, log a failure, keep the result) belongs to the interface.
\<close>

section \<open>NewClusterScope\<close>

type_synonym ClusterScopeOption = "ClusterScope \<Rightarrow> ClusterScope"

definition WithClusterControllerName :: "string \<Rightarrow> ClusterScopeOption" where
  "WithClusterControllerName name = (\<lambda>s. s\<lparr>csc_controllerName := name\<rparr>)"

text \<open>\<open>WithClusterLogger\<close> and \<open>WithMachineLogger\<close> set the logger, which the scope does not model.\<close>

definition WithClusterLogger :: ClusterScopeOption where
  "WithClusterLogger = (\<lambda>s. s)"

definition NewClusterScope ::
  "env \<Rightarrow> Cluster option \<Rightarrow> MicrovmCluster option \<Rightarrow> unit option \<Rightarrow> ClusterScopeOption list \<Rightarrow> history \<Rightarrow>
   (error + ClusterScope) \<times> history" where
  "NewClusterScope E cluster microvmCluster client opts h =
     (case cluster of None \<Rightarrow> (Inl errClusterRequired, h) | Some cl \<Rightarrow>
      case microvmCluster of None \<Rightarrow> (Inl errMicrovmClusterRequired, h) | Some mc \<Rightarrow>
      case client of None \<Rightarrow> (Inl errClientRequired, h) | Some _ \<Rightarrow>
      let h' = h @ [NewClusterHelper mc] in
      case e_NewClusterHelper E h mc of
        Some err \<Rightarrow> (Inl (Errorf ''creating patch helper for microvm cluster'' err), h')
      | None \<Rightarrow>
          let scope = \<lparr>csc_Cluster = cl, csc_MvmCluster = mc, csc_controllerName = ManagerName\<rparr>
          in (Inr (foldl (\<lambda>s opt. opt s) scope opts), h'))"

section \<open>Methods\<close>

definition ClusterScope_Name :: "ClusterScope \<Rightarrow> string" where
  "ClusterScope_Name cs = om_Name (mc_ObjectMeta (csc_MvmCluster cs))"

definition ClusterScope_Namespace :: "ClusterScope \<Rightarrow> string" where
  "ClusterScope_Namespace cs = om_Namespace (mc_ObjectMeta (csc_MvmCluster cs))"

definition ClusterScope_ClusterName :: "ClusterScope \<Rightarrow> string" where
  "ClusterScope_ClusterName cs = om_Name (cl_ObjectMeta (csc_Cluster cs))"

definition ClusterScope_ControllerName :: "ClusterScope \<Rightarrow> string" where
  "ClusterScope_ControllerName cs = csc_controllerName cs"

definition ClusterScope_Patch ::
  "env \<Rightarrow> ClusterScope \<Rightarrow> history \<Rightarrow> error option \<times> ClusterScope \<times> history" where
  "ClusterScope_Patch E cs h =
     (let applicableConditions = [LoadBalancerAvailableCondition];
          mc = csc_MvmCluster cs;
          mc' = MicrovmCluster_SetConditions
                  (e_SetSummary E
                     [WithConditions applicableConditions,
                      WithStepCounterIf (e_TimeIsZero E (om_DeletionTimestamp (mc_ObjectMeta mc))),
                      WithStepCounter]
                     (MicrovmCluster_GetConditions mc)) mc;
          owned = [ReadyCondition, LoadBalancerAvailableCondition];
          (err, mc'') = e_PatchCluster E h mc' owned
      in (map_option (Errorf ''unable to patch cluster'') err,
          cs\<lparr>csc_MvmCluster := mc''\<rparr>, h @ [PatchCluster mc' owned]))"

definition ClusterScope_Close ::
  "env \<Rightarrow> ClusterScope \<Rightarrow> history \<Rightarrow> error option \<times> ClusterScope \<times> history" where
  "ClusterScope_Close E cs h = ClusterScope_Patch E cs h"

definition ClusterScope_Placement :: "ClusterScope \<Rightarrow> Placement" where
  "ClusterScope_Placement cs = cs_Placement (mc_Spec (csc_MvmCluster cs))"

section \<open>The deferred patch of both controllers\<close>

text \<open>
  \<^verbatim>\<open>defer func() { if patchErr := scope.Patch(); patchErr != nil { log.Error(...) } }()\<close>: the scope is
  patched after the reconciliation, whatever it returned and even when it panicked, and the result
  is the reconciliation's own.
\<close>

definition with_deferred_patch ::
  "('s \<Rightarrow> history \<Rightarrow> error option \<times> 's \<times> history) \<Rightarrow> 'r \<times> 's \<times> history \<Rightarrow> 'r \<times> 's \<times> history" where
  "with_deferred_patch patch out =
     (let (r, s, h) = out; (patchErr, s', h') = patch s h in (r, s', h'))"

section \<open>The interface Scoper\<close>

locale scoper =
  fixes Name Namespace ClusterName ControllerName :: "'s \<Rightarrow> string"
    and Patch :: "env \<Rightarrow> 's \<Rightarrow> history \<Rightarrow> error option \<times> 's \<times> history"
    and writes :: "event \<Rightarrow> bool"
    and frame :: "env \<Rightarrow> bool"
  assumes patch_one_write: "\<exists>ev. snd (snd (Patch E s h)) = h @ [ev] \<and> writes ev"
    and writes_not_read: "writes ev \<Longrightarrow> \<not> reads_only ev"
    and patch_keeps_cluster: "ClusterName (fst (snd (Patch E s h))) = ClusterName s"
    and patch_keeps_controller: "ControllerName (fst (snd (Patch E s h))) = ControllerName s"
    and patch_keeps_name: "frame E \<Longrightarrow> Name (fst (snd (Patch E s h))) = Name s"
    and patch_keeps_namespace: "frame E \<Longrightarrow> Namespace (fst (snd (Patch E s h))) = Namespace s"
begin

lemma deferred_patch_result: "fst (with_deferred_patch (Patch E) out) = fst out"
  by (simp add: with_deferred_patch_def split: prod.splits)

lemma deferred_patch_history:
  "\<exists>ev. snd (snd (with_deferred_patch (Patch E) (r, s, h))) = h @ [ev] \<and> writes ev"
  using patch_one_write [of E s h] by (auto simp: with_deferred_patch_def split: prod.splits)

lemma deferred_patch_identity:
  "frame E \<Longrightarrow> Name (fst (snd (with_deferred_patch (Patch E) (r, s, h)))) = Name s \<and>
     Namespace (fst (snd (with_deferred_patch (Patch E) (r, s, h)))) = Namespace s"
  using patch_keeps_name [of E s h] patch_keeps_namespace [of E s h]
  by (auto simp: with_deferred_patch_def split: prod.splits)

end

fun patches_machine :: "event \<Rightarrow> bool" where
  "patches_machine (PatchMachine _ _) = True"
| "patches_machine _ = False"

fun patches_cluster :: "event \<Rightarrow> bool" where
  "patches_cluster (PatchCluster _ _) = True"
| "patches_cluster _ = False"

interpretation machine_scoper: scoper
  MachineScope_Name MachineScope_Namespace MachineScope_ClusterName MachineScope_ControllerName
  MachineScope_Patch patches_machine patch_frame
proof unfold_locales
  show "patches_machine ev \<Longrightarrow> \<not> reads_only ev" for ev by (cases ev) auto
qed (auto simp: MachineScope_Patch_def MachineScope_Name_def MachineScope_Namespace_def
       MachineScope_ClusterName_def MachineScope_ControllerName_def Let_def machine_parts
       patch_frame_def split: prod.splits dest: sndI)

interpretation cluster_scoper: scoper
  ClusterScope_Name ClusterScope_Namespace ClusterScope_ClusterName ClusterScope_ControllerName
  ClusterScope_Patch patches_cluster cluster_patch_frame
proof unfold_locales
  show "patches_cluster ev \<Longrightarrow> \<not> reads_only ev" for ev by (cases ev) auto
qed (auto simp: ClusterScope_Patch_def ClusterScope_Name_def ClusterScope_Namespace_def
       ClusterScope_ClusterName_def ClusterScope_ControllerName_def Let_def
       MicrovmCluster_SetConditions_def cluster_patch_frame_def split: prod.splits dest: sndI)

end
