(* ===== verification/Cluster_Controller.thy ===== *)
theory Cluster_Controller
  imports Cluster_Scope "HOL-Library.AList"
begin

text \<open>
  \<^verbatim>\<open>controllers/microvmcluster_controller.go\<close>: the reconciler of MicrovmCluster objects. A
  reconciliation takes the environment and the history and returns the result, the error and the
  extended history; the inner functions also return the scope they were given a pointer to.
\<close>

section \<open>The reconciler\<close>

text \<open>\<open>30 * time.Second\<close>, a duration in nanoseconds.\<close>

definition requeuePeriod :: int where
  "requeuePeriod = 30 * 1000000000"

definition update_MvmCluster :: "(MicrovmCluster \<Rightarrow> MicrovmCluster) \<Rightarrow> ClusterScope \<Rightarrow> ClusterScope" where
  "update_MvmCluster f cs = cs\<lparr>csc_MvmCluster := f (csc_MvmCluster cs)\<rparr>"

definition set_cluster_ready :: "bool \<Rightarrow> MicrovmCluster \<Rightarrow> MicrovmCluster" where
  "set_cluster_ready b c = c\<lparr>mc_Status := (mc_Status c)\<lparr>cst_Ready := b\<rparr>\<rparr>"

definition set_failure_domains :: "FailureDomains \<Rightarrow> MicrovmCluster \<Rightarrow> MicrovmCluster" where
  "set_failure_domains fds c = c\<lparr>mc_Status := (mc_Status c)\<lparr>cst_FailureDomains := fds\<rparr>\<rparr>"

definition host_domains :: "MicrovmHost list \<Rightarrow> (string \<times> FailureDomainSpec) list" where
  "host_domains hosts =
     foldl (\<lambda>fds host. AList.update (host_Endpoint host)
              \<lparr>fd_ControlPlane = host_ControlPlaneAllowed host, fd_Attributes = None\<rparr> fds) [] hosts"

definition setFailureDomains :: "ClusterScope \<Rightarrow> error option \<times> ClusterScope" where
  "setFailureDomains clusterScope =
     (let placement = ClusterScope_Placement clusterScope in
      if \<not> IsSet placement then (Some errNoPlacement, clusterScope)
      else case pl_StaticPool placement of
             Some pool \<Rightarrow>
               let failureDomains = host_domains (elems (sp_Hosts pool))
               in (None, update_MvmCluster (set_failure_domains (Some failureDomains)) clusterScope)
           | None \<Rightarrow> (None, clusterScope))"

definition isAPIServerAvailable :: "env \<Rightarrow> ClusterScope \<Rightarrow> history \<Rightarrow> bool \<times> history" where
  "isAPIServerAvailable E clusterScope h =
     (let clusterKey = \<lparr>nn_Namespace = om_Namespace (cl_ObjectMeta (csc_Cluster clusterScope)),
                        nn_Name = om_Name (cl_ObjectMeta (csc_Cluster clusterScope))\<rparr>;
          name = ClusterScope_ClusterName clusterScope;
          h1 = h @ [NewRemoteClient name clusterKey]
      in case e_RemoteClientGetter E h name clusterKey of
           Inl err \<Rightarrow> (False, h1)
         | Inr remoteClient \<Rightarrow>
             let h2 = h1 @ [ListNodes remoteClient]
             in case e_ListNodes E h1 remoteClient of
                  Inl err \<Rightarrow> (False, h2)
                | Inr nodes \<Rightarrow> if nodes = 0 then (False, h2) else (True, h2))"

definition ClusterReconciler_reconcileDelete ::
  "env \<Rightarrow> ClusterScope \<Rightarrow> history \<Rightarrow> (Result \<times> error option) \<times> ClusterScope \<times> history" where
  "ClusterReconciler_reconcileDelete E clusterScope h = ((zero_Result, None), clusterScope, h)"

definition ClusterReconciler_reconcileNormal ::
  "env \<Rightarrow> ClusterScope \<Rightarrow> history \<Rightarrow> (Result \<times> error option) \<times> ClusterScope \<times> history" where
  "ClusterReconciler_reconcileNormal E cScope h =
     (if e_EndpointIsZero E (cl_Spec_ControlPlaneEndpoint (csc_Cluster cScope)) \<and>
         e_EndpointIsZero E (cs_ControlPlaneEndpoint (mc_Spec (csc_MvmCluster cScope)))
      then ((zero_Result, Some errControlplaneEndpointRequired), cScope, h)
      else
        let cScope1 = update_MvmCluster (set_cluster_ready True) cScope;
            (err, cScope2) = setFailureDomains cScope1
        in case err of
             Some e \<Rightarrow> ((zero_Result, Some (Errorf ''setting failuredomains'' e)), cScope2, h)
           | None \<Rightarrow>
               let (available, h') = isAPIServerAvailable E cScope2 h
               in if \<not> available
                  then (((zero_Result\<lparr>RequeueAfter := requeuePeriod\<rparr>), None),
                        update_MvmCluster (\<lambda>c. MicrovmCluster_SetConditions
                          (e_MarkFalse E LoadBalancerAvailableCondition LoadBalancerNotAvailableReason
                             ConditionSeverityInfo ''control plane load balancer isn't available''
                             (MicrovmCluster_GetConditions c)) c) cScope2, h')
                  else ((zero_Result, None),
                        update_MvmCluster (\<lambda>c. MicrovmCluster_SetConditions
                          (e_MarkTrue E LoadBalancerAvailableCondition
                             (MicrovmCluster_GetConditions c)) c) cScope2, h'))"

definition ClusterReconciler_Reconcile ::
  "env \<Rightarrow> NamespacedName \<Rightarrow> history \<Rightarrow> (Result \<times> error option) \<times> history" where
  "ClusterReconciler_Reconcile E req h =
     (let h1 = h @ [GetMicrovmCluster req] in
      case e_GetMicrovmCluster E h req of
        Inl err \<Rightarrow> if IsNotFound err then ((zero_Result, None), h1)
                   else ((zero_Result, Some (Errorf ''error getting microvmcluster'' err)), h1)
      | Inr mvmCluster \<Rightarrow>
      let h2 = h1 @ [GetOwnerCluster (mc_ObjectMeta mvmCluster)];
          (cluster, err) = e_GetOwnerCluster E h1 (mc_ObjectMeta mvmCluster)
      in case err of
        Some e \<Rightarrow> ((zero_Result, Some (Errorf ''error getting owning cluster'' e)), h2)
      | None \<Rightarrow>
      case cluster of
        None \<Rightarrow> ((zero_Result, None), h2)
      | Some cl \<Rightarrow>
      if e_IsPaused E cl (mc_ObjectMeta mvmCluster) then ((zero_Result, None), h2)
      else
      let (scope, h3) = NewClusterScope E (Some cl) (Some mvmCluster) (Some ()) [WithClusterLogger] h2
      in case scope of
        Inl e \<Rightarrow> ((zero_Result, Some e), h3)
      | Inr s \<Rightarrow>
          let (r, s', h') = with_deferred_patch (ClusterScope_Patch E)
                (if \<not> e_TimeIsZero E (om_DeletionTimestamp (mc_ObjectMeta mvmCluster))
                 then ClusterReconciler_reconcileDelete E s h3
                 else ClusterReconciler_reconcileNormal E s h3)
          in (r, h'))"

section \<open>Lemmas\<close>

text \<open>The map of failure domains a list of hosts stands for: a later host wins over an earlier one.\<close>

definition hosts_map :: "MicrovmHost list \<Rightarrow> string \<rightharpoonup> FailureDomainSpec" where
  "hosts_map hosts = map_of (rev (map (\<lambda>host. (host_Endpoint host,
     \<lparr>fd_ControlPlane = host_ControlPlaneAllowed host, fd_Attributes = None\<rparr>)) hosts))"

lemma hosts_map_find:
  "hosts_map hosts ep = map_option (\<lambda>host. \<lparr>fd_ControlPlane = host_ControlPlaneAllowed host, fd_Attributes = None\<rparr>)
     (find (\<lambda>host. host_Endpoint host = ep) (rev hosts))"
proof -
  have "map_of (map (\<lambda>host. (host_Endpoint host,
      \<lparr>fd_ControlPlane = host_ControlPlaneAllowed host, fd_Attributes = None\<rparr>)) hs) ep =
    map_option (\<lambda>host. \<lparr>fd_ControlPlane = host_ControlPlaneAllowed host, fd_Attributes = None\<rparr>)
      (find (\<lambda>host. host_Endpoint host = ep) hs)" for hs
    by (induction hs) auto
  then show ?thesis by (simp add: hosts_map_def rev_map)
qed

lemma host_domains_snoc:
  "host_domains (hosts @ [host]) = AList.update (host_Endpoint host)
     \<lparr>fd_ControlPlane = host_ControlPlaneAllowed host, fd_Attributes = None\<rparr> (host_domains hosts)"
  by (simp add: host_domains_def)

lemma map_of_host_domains: "map_of (host_domains hosts) = hosts_map hosts"
proof (induction hosts rule: rev_induct)
  case Nil
  show ?case by (simp add: host_domains_def hosts_map_def)
next
  case (snoc host hosts)
  then show ?case by (simp add: host_domains_snoc update_conv' hosts_map_def)
qed

lemma distinct_host_domains: "distinct (map fst (host_domains hosts))"
  by (induction hosts rule: rev_induct) (simp_all add: host_domains_def distinct_update)

lemma keys_host_domains: "fst ` set (host_domains hosts) = host_Endpoint ` set hosts"
proof -
  have "fst ` set (host_domains hosts) = dom (hosts_map hosts)"
    by (simp only: dom_map_of_conv_image_fst flip: map_of_host_domains)
  also have "\<dots> = host_Endpoint ` set hosts"
    by (simp add: hosts_map_def dom_map_of_conv_image_fst image_image)
  finally show ?thesis .
qed

lemma setFailureDomains_static:
  assumes "pl_StaticPool (ClusterScope_Placement cs) = Some pool"
  shows "setFailureDomains cs =
    (None, update_MvmCluster (set_failure_domains (Some (host_domains (elems (sp_Hosts pool))))) cs)"
  using assms by (simp add: setFailureDomains_def IsSet_def)

lemma setFailureDomains_none:
  assumes "pl_StaticPool (ClusterScope_Placement cs) = None"
  shows "setFailureDomains cs = (Some errNoPlacement, cs)"
  using assms by (simp add: setFailureDomains_def IsSet_def)

text \<open>The API server is available when a client is obtained and lists at least one node.\<close>

lemma isAPIServerAvailable_fst:
  "fst (isAPIServerAvailable E cs h) \<longleftrightarrow>
    (\<exists>rc nodes. e_RemoteClientGetter E h (om_Name (cl_ObjectMeta (csc_Cluster cs)))
        \<lparr>nn_Namespace = om_Namespace (cl_ObjectMeta (csc_Cluster cs)), nn_Name = om_Name (cl_ObjectMeta (csc_Cluster cs))\<rparr> = Inr rc \<and>
      e_ListNodes E (h @ [NewRemoteClient (om_Name (cl_ObjectMeta (csc_Cluster cs)))
        \<lparr>nn_Namespace = om_Namespace (cl_ObjectMeta (csc_Cluster cs)), nn_Name = om_Name (cl_ObjectMeta (csc_Cluster cs))\<rparr>]) rc =
        Inr nodes \<and> 0 < nodes)"
  by (auto simp: isAPIServerAvailable_def ClusterScope_ClusterName_def Let_def split: sum.splits)

lemma isAPIServerAvailable_events:
  "\<exists>es. snd (isAPIServerAvailable E cs h) = h @ es \<and> filter patches_cluster es = []"
  by (auto simp: isAPIServerAvailable_def Let_def split: sum.splits)

lemma update_MvmCluster_parts:
  "csc_MvmCluster (update_MvmCluster f cs) = f (csc_MvmCluster cs)"
  "csc_Cluster (update_MvmCluster f cs) = csc_Cluster cs"
  "ClusterScope_Placement (update_MvmCluster f cs) = cs_Placement (mc_Spec (f (csc_MvmCluster cs)))"
  by (simp_all add: update_MvmCluster_def ClusterScope_Placement_def)

lemma cluster_setters_parts:
  "mc_Spec (set_cluster_ready b c) = mc_Spec c" "mc_Spec (set_failure_domains fds c) = mc_Spec c"
  "cluster_ready (set_cluster_ready b c) = b" "cluster_ready (set_failure_domains fds c) = cluster_ready c"
  "cst_FailureDomains (mc_Status (set_failure_domains fds c)) = fds"
  "mc_Spec (MicrovmCluster_SetConditions cs c) = mc_Spec c"
  "cluster_ready (MicrovmCluster_SetConditions cs c) = cluster_ready c"
  "cst_FailureDomains (mc_Status (MicrovmCluster_SetConditions cs c)) = cst_FailureDomains (mc_Status c)"
  "mc_ObjectMeta (set_cluster_ready b c) = mc_ObjectMeta c"
  "mc_ObjectMeta (set_failure_domains fds c) = mc_ObjectMeta c"
  "mc_ObjectMeta (MicrovmCluster_SetConditions cs c) = mc_ObjectMeta c"
  by (simp_all add: set_cluster_ready_def set_failure_domains_def MicrovmCluster_SetConditions_def)

lemma isAPIServerAvailable_update:
  "isAPIServerAvailable E (update_MvmCluster f cs) h = isAPIServerAvailable E cs h"
  by (simp add: isAPIServerAvailable_def update_MvmCluster_parts ClusterScope_ClusterName_def)

text \<open>What the normal reconciliation leaves in the scope and adds to the history.\<close>

lemma reconcileNormal_events:
  "\<exists>es. snd (snd (ClusterReconciler_reconcileNormal E cs h)) = h @ es \<and> filter patches_cluster es = []"
  using isAPIServerAvailable_events
    [of E "snd (setFailureDomains (update_MvmCluster (set_cluster_ready True) cs))" h]
  by (auto simp: ClusterReconciler_reconcileNormal_def Let_def split: prod.splits option.splits)

lemma reconcileNormal_object:
  fixes E cs h
  defines "c' \<equiv> csc_MvmCluster (fst (snd (ClusterReconciler_reconcileNormal E cs h)))"
  assumes "\<not> (e_EndpointIsZero E (cl_Spec_ControlPlaneEndpoint (csc_Cluster cs)) \<and>
              e_EndpointIsZero E (cs_ControlPlaneEndpoint (mc_Spec (csc_MvmCluster cs))))"
  shows "cluster_ready c'" "mc_Spec c' = mc_Spec (csc_MvmCluster cs)"
    "pl_StaticPool (cs_Placement (mc_Spec (csc_MvmCluster cs))) = Some pool \<Longrightarrow>
     cst_FailureDomains (mc_Status c') = Some (host_domains (elems (sp_Hosts pool)))"
  using assms(2) unfolding c'_def
  by (auto simp: ClusterReconciler_reconcileNormal_def Let_def setFailureDomains_def IsSet_def
      update_MvmCluster_parts cluster_setters_parts split: prod.splits option.splits)

lemma reconcileNormal_result:
  assumes "\<not> (e_EndpointIsZero E (cl_Spec_ControlPlaneEndpoint (csc_Cluster cs)) \<and>
              e_EndpointIsZero E (cs_ControlPlaneEndpoint (mc_Spec (csc_MvmCluster cs))))"
    and "pl_StaticPool (cs_Placement (mc_Spec (csc_MvmCluster cs))) = Some pool"
  shows "fst (ClusterReconciler_reconcileNormal E cs h) =
    (if fst (isAPIServerAvailable E cs h) then (zero_Result, None)
     else (zero_Result\<lparr>RequeueAfter := requeuePeriod\<rparr>, None))"
  using assms
  by (auto simp: ClusterReconciler_reconcileNormal_def Let_def setFailureDomains_def IsSet_def
      isAPIServerAvailable_update update_MvmCluster_parts cluster_setters_parts
      split: prod.splits option.splits)

lemma ClusterScope_Patch_event:
  "snd (snd (ClusterScope_Patch E cs h)) = h @ [PatchCluster
     (MicrovmCluster_SetConditions (e_SetSummary E [WithConditions [LoadBalancerAvailableCondition],
        WithStepCounterIf (e_TimeIsZero E (om_DeletionTimestamp (mc_ObjectMeta (csc_MvmCluster cs)))),
        WithStepCounter] (MicrovmCluster_GetConditions (csc_MvmCluster cs))) (csc_MvmCluster cs))
     [ReadyCondition, LoadBalancerAvailableCondition]]"
  by (simp add: ClusterScope_Patch_def Let_def split: prod.splits)

lemma deferred_cluster_patch:
  "with_deferred_patch (ClusterScope_Patch E) (r, cs, h) =
     (r, fst (snd (ClusterScope_Patch E cs h)), snd (snd (ClusterScope_Patch E cs h)))"
  by (simp add: with_deferred_patch_def split: prod.splits)

subsection \<open>The guards of Reconcile\<close>

text \<open>The requests that get past every guard: the objects found, and the scope built from them.\<close>

definition cluster_admitted :: "env \<Rightarrow> NamespacedName \<Rightarrow> history \<Rightarrow> MicrovmCluster \<Rightarrow> Cluster \<Rightarrow> bool" where
  "cluster_admitted E req h c cl \<longleftrightarrow>
     e_GetMicrovmCluster E h req = Inr c \<and>
     e_GetOwnerCluster E (h @ [GetMicrovmCluster req]) (mc_ObjectMeta c) = (Some cl, None) \<and>
     \<not> e_IsPaused E cl (mc_ObjectMeta c) \<and>
     e_NewClusterHelper E (h @ [GetMicrovmCluster req, GetOwnerCluster (mc_ObjectMeta c)]) c = None"

abbreviation cluster_preamble :: "NamespacedName \<Rightarrow> MicrovmCluster \<Rightarrow> event list" where
  "cluster_preamble req c \<equiv>
     [GetMicrovmCluster req, GetOwnerCluster (mc_ObjectMeta c), NewClusterHelper c]"

definition cluster_scope_of :: "MicrovmCluster \<Rightarrow> Cluster \<Rightarrow> ClusterScope" where
  "cluster_scope_of c cl = \<lparr>csc_Cluster = cl, csc_MvmCluster = c, csc_controllerName = ManagerName\<rparr>"

lemma cluster_Reconcile_admitted:
  assumes "cluster_admitted E req h c cl"
  defines "out \<equiv> (if \<not> e_TimeIsZero E (om_DeletionTimestamp (mc_ObjectMeta c))
      then ClusterReconciler_reconcileDelete E (cluster_scope_of c cl) (h @ cluster_preamble req c)
      else ClusterReconciler_reconcileNormal E (cluster_scope_of c cl) (h @ cluster_preamble req c))"
  shows "ClusterReconciler_Reconcile E req h =
    (fst out, snd (snd (ClusterScope_Patch E (fst (snd out)) (snd (snd out)))))"
  using assms(1) unfolding out_def
  by (auto simp: ClusterReconciler_Reconcile_def cluster_admitted_def NewClusterScope_def
      WithClusterLogger_def Let_def with_deferred_patch_def cluster_scope_of_def split: prod.splits)

lemma cluster_Reconcile_skipped:
  assumes "\<nexists>c cl. cluster_admitted E req h c cl"
  shows "fst (fst (ClusterReconciler_Reconcile E req h)) = zero_Result"
    "\<exists>es. snd (ClusterReconciler_Reconcile E req h) = h @ es \<and> list_all reads_only es"
  using assms
  by (auto simp: ClusterReconciler_Reconcile_def cluster_admitted_def NewClusterScope_def Let_def
      split: sum.splits prod.splits option.splits)

section \<open>Properties\<close>

text \<open>
  With a static pool the failure domains the cluster controller publishes are those of the hosts:
  one entry for each endpoint, whose control plane flag is that of the last host of the list with
  that endpoint; everything else of the cluster is left as it was. Without a placement it is an
  error and nothing changes.
\<close>

lemma setFailureDomains_result:
  "case pl_StaticPool (ClusterScope_Placement cs) of
     None \<Rightarrow> setFailureDomains cs = (Some errNoPlacement, cs)
   | Some pool \<Rightarrow> (\<exists>fds. setFailureDomains cs = (None, update_MvmCluster (set_failure_domains (Some fds)) cs) \<and>
       distinct (map fst fds) \<and> fst ` set fds = host_Endpoint ` set (elems (sp_Hosts pool)) \<and>
       (\<forall>ep. map_of fds ep = map_option (\<lambda>host. \<lparr>fd_ControlPlane = host_ControlPlaneAllowed host, fd_Attributes = None\<rparr>)
          (find (\<lambda>host. host_Endpoint host = ep) (rev (elems (sp_Hosts pool))))))"
proof (cases "pl_StaticPool (ClusterScope_Placement cs)")
  case None
  then show ?thesis by (simp add: setFailureDomains_none)
next
  case (Some pool)
  let ?fds = "host_domains (elems (sp_Hosts pool))"
  have "map_of ?fds ep = map_option (\<lambda>host. \<lparr>fd_ControlPlane = host_ControlPlaneAllowed host, fd_Attributes = None\<rparr>)
      (find (\<lambda>host. host_Endpoint host = ep) (rev (elems (sp_Hosts pool))))" for ep
    by (simp add: map_of_host_domains hosts_map_find)
  then show ?thesis
    using setFailureDomains_static [OF Some] distinct_host_domains keys_host_domains
    unfolding Some option.case by blast
qed

text \<open>
  C24: a reconciliation of a MicrovmCluster writes to the API at most once. A request that a guard
  turns away (the object is gone, has no owner, is paused, cannot be read) only reads and is not
  requeued; any other ends with exactly one patch of the object, after everything else it did, also
  when the reconciliation itself returned an error.
\<close>

theorem cluster_Reconcile_writes:
  "(\<exists>es. snd (ClusterReconciler_Reconcile E req h) = h @ es \<and>
      (if \<exists>c cl. cluster_admitted E req h c cl
       then \<exists>es' c'. es = es' @ [PatchCluster c' [ReadyCondition, LoadBalancerAvailableCondition]] \<and>
              \<not> list_ex patches_cluster es'
       else list_all reads_only es \<and> fst (fst (ClusterReconciler_Reconcile E req h)) = zero_Result))"
proof (cases "\<exists>c cl. cluster_admitted E req h c cl")
  case False
  then show ?thesis using cluster_Reconcile_skipped [of E req h] by auto
next
  case True
  then obtain c cl where adm: "cluster_admitted E req h c cl" by blast
  let ?h = "h @ cluster_preamble req c"
  let ?out = "if \<not> e_TimeIsZero E (om_DeletionTimestamp (mc_ObjectMeta c))
      then ClusterReconciler_reconcileDelete E (cluster_scope_of c cl) ?h
      else ClusterReconciler_reconcileNormal E (cluster_scope_of c cl) ?h"
  obtain es where es: "snd (snd ?out) = ?h @ es" "filter patches_cluster es = []"
    using reconcileNormal_events [of E "cluster_scope_of c cl" ?h]
    by (cases "e_TimeIsZero E (om_DeletionTimestamp (mc_ObjectMeta c))")
       (auto simp: ClusterReconciler_reconcileDelete_def)
  have "\<not> list_ex patches_cluster (cluster_preamble req c @ es)"
    using es(2) by (simp add: list_ex_iff filter_empty_conv)
  then show ?thesis
    using True cluster_Reconcile_admitted [OF adm] es(1)
    by (simp add: ClusterScope_Patch_event del: append_assoc) (simp add: exI)
qed

text \<open>
  C23: what a successful reconciliation of a live MicrovmCluster publishes. For an admitted object
  that is not being deleted, has a control plane endpoint (on either object) and a static pool, the
  object patched at the end is ready and has the spec it came with. Its failure domains have one entry for
  each endpoint of a host of the pool and no other; the entry allows the control plane as the last host
  with this endpoint does. There is no error, and the request comes back after thirty seconds unless
  a client for the workload cluster is obtained, by the name and namespace of the Cluster, and lists at
  least one node.
\<close>

theorem cluster_Reconcile_publishes:
  assumes "cluster_admitted E req h c cl"
    and "e_TimeIsZero E (om_DeletionTimestamp (mc_ObjectMeta c))"
    and "\<not> e_EndpointIsZero E (cl_Spec_ControlPlaneEndpoint cl) \<or>
         \<not> e_EndpointIsZero E (cs_ControlPlaneEndpoint (mc_Spec c))"
    and "pl_StaticPool (cs_Placement (mc_Spec c)) = Some pool"
  shows "\<exists>c' ts. last (snd (ClusterReconciler_Reconcile E req h)) = PatchCluster c' ts \<and>
      cluster_ready c' \<and> mc_Spec c' = mc_Spec c \<and>
      (\<exists>fds. cst_FailureDomains (mc_Status c') = Some fds \<and> distinct (map fst fds) \<and>
        (\<forall>ep. map_of fds ep = map_option (\<lambda>host. \<lparr>fd_ControlPlane = host_ControlPlaneAllowed host, fd_Attributes = None\<rparr>)
           (find (\<lambda>host. host_Endpoint host = ep) (rev (elems (sp_Hosts pool)))))) \<and>
      (let name = om_Name (cl_ObjectMeta cl); key = \<lparr>nn_Namespace = om_Namespace (cl_ObjectMeta cl), nn_Name = name\<rparr>;
           h1 = h @ cluster_preamble req c
       in fst (ClusterReconciler_Reconcile E req h) =
        (if \<exists>rc nodes. e_RemoteClientGetter E h1 name key = Inr rc \<and>
              e_ListNodes E (h1 @ [NewRemoteClient name key]) rc = Inr nodes \<and> 0 < nodes
         then (zero_Result, None) else (zero_Result\<lparr>RequeueAfter := 30 * 10 ^ 9\<rparr>, None)))"
proof -
  let ?cs = "cluster_scope_of c cl" and ?h = "h @ cluster_preamble req c"
  have parts: "csc_Cluster ?cs = cl" "csc_MvmCluster ?cs = c" by (simp_all add: cluster_scope_of_def)
  have live: "\<not> (e_EndpointIsZero E (cl_Spec_ControlPlaneEndpoint (csc_Cluster ?cs)) \<and>
      e_EndpointIsZero E (cs_ControlPlaneEndpoint (mc_Spec (csc_MvmCluster ?cs))))"
    and pool: "pl_StaticPool (cs_Placement (mc_Spec (csc_MvmCluster ?cs))) = Some pool"
    using assms(3,4) parts by auto
  let ?name = "om_Name (cl_ObjectMeta cl)" let ?key = "\<lparr>nn_Namespace = om_Namespace (cl_ObjectMeta cl), nn_Name = ?name\<rparr>"
  note obj = reconcileNormal_object [OF live, where h = ?h]
  have "fst (ClusterReconciler_Reconcile E req h) = (if fst (isAPIServerAvailable E ?cs ?h) then (zero_Result, None)
      else (zero_Result\<lparr>RequeueAfter := 30 * 10 ^ 9\<rparr>, None))"
    using cluster_Reconcile_admitted [OF assms(1)] assms(2) reconcileNormal_result [OF live pool, of ?h]
    by (simp add: requeuePeriod_def)
  moreover have "fst (isAPIServerAvailable E ?cs ?h) \<longleftrightarrow> (\<exists>rc nodes. e_RemoteClientGetter E ?h ?name ?key = Inr rc \<and>
      e_ListNodes E (?h @ [NewRemoteClient ?name ?key]) rc = Inr nodes \<and> 0 < nodes)"
    unfolding isAPIServerAvailable_fst parts ..
  ultimately have res: "fst (ClusterReconciler_Reconcile E req h) =
      (if \<exists>rc nodes. e_RemoteClientGetter E ?h ?name ?key = Inr rc \<and>
            e_ListNodes E (?h @ [NewRemoteClient ?name ?key]) rc = Inr nodes \<and> 0 < nodes
       then (zero_Result, None) else (zero_Result\<lparr>RequeueAfter := 30 * 10 ^ 9\<rparr>, None))"
    by (simp only:)
  show ?thesis
    unfolding Let_def res
    using cluster_Reconcile_admitted [OF assms(1)] assms(2) obj(1,2) obj(3) [OF pool]
      distinct_host_domains [of "elems (sp_Hosts pool)"] map_of_host_domains [of "elems (sp_Hosts pool)"]
    by (simp add: ClusterScope_Patch_event cluster_setters_parts parts hosts_map_find)
qed

theorem cluster_Reconcile_publishes_witness:
  "(\<exists>c' ts fds. last (snd (ClusterReconciler_Reconcile fx_env (fx_key ''tenant1'') [])) = PatchCluster c' ts \<and> cluster_ready c' \<and>
     cst_FailureDomains (mc_Status c') = Some fds \<and>
     map_of fds ''127.0.0.1:9090'' = Some \<lparr>fd_ControlPlane = True, fd_Attributes = None\<rparr>) \<and>
   fst (ClusterReconciler_Reconcile fx_env (fx_key ''tenant1'') []) = (zero_Result, None)"
proof -
  have adm: "cluster_admitted fx_env (fx_key ''tenant1'') [] fx_mvm_cluster fx_cluster"
    by (simp add: cluster_admitted_def fx_defs)
  have hyp: "e_TimeIsZero fx_env (om_DeletionTimestamp (mc_ObjectMeta fx_mvm_cluster))"
    "\<not> e_EndpointIsZero fx_env (cl_Spec_ControlPlaneEndpoint fx_cluster) \<or>
     \<not> e_EndpointIsZero fx_env (cs_ControlPlaneEndpoint (mc_Spec fx_mvm_cluster))"
    "pl_StaticPool (cs_Placement (mc_Spec fx_mvm_cluster)) = Some fx_pool" by (simp_all add: fx_defs)
  have host: "find (\<lambda>host. host_Endpoint host = ''127.0.0.1:9090'') (rev (elems (sp_Hosts fx_pool))) =
      Some \<lparr>host_Name = ''host1'', host_Endpoint = ''127.0.0.1:9090'', host_ControlPlaneAllowed = True\<rparr>"
    by (simp add: fx_pool_def fx_endpoint_def)
  have nodes: "\<exists>rc nodes. e_RemoteClientGetter fx_env h n k = Inr rc \<and> e_ListNodes fx_env h' rc = Inr nodes \<and> 0 < nodes" for h h' n k
    by (simp add: fx_env_def)
  obtain c' ts fds where c': "last (snd (ClusterReconciler_Reconcile fx_env (fx_key ''tenant1'') [])) = PatchCluster c' ts" "cluster_ready c'"
      "cst_FailureDomains (mc_Status c') = Some fds"
      "map_of fds ''127.0.0.1:9090'' = map_option (\<lambda>host. \<lparr>fd_ControlPlane = host_ControlPlaneAllowed host, fd_Attributes = None\<rparr>)
         (find (\<lambda>host. host_Endpoint host = ''127.0.0.1:9090'') (rev (elems (sp_Hosts fx_pool))))"
    and res: "fst (ClusterReconciler_Reconcile fx_env (fx_key ''tenant1'') []) = (zero_Result, None)"
    using cluster_Reconcile_publishes [OF adm hyp] nodes unfolding Let_def by (auto simp del: elems_def)
  show ?thesis using c' res unfolding host by auto
qed

text \<open>
  C34: a cluster without a placement is still published as ready. The reconciliation returns the error
  about the missing placement, but it had set the ready flag before, and the deferred patch sends the
  object as it is: the last event is a patch whose object is ready.
\<close>

theorem cluster_ready_despite_error:
  assumes "cluster_admitted E req h c cl"
    and "e_TimeIsZero E (om_DeletionTimestamp (mc_ObjectMeta c))"
    and "\<not> e_EndpointIsZero E (cl_Spec_ControlPlaneEndpoint cl) \<or>
         \<not> e_EndpointIsZero E (cs_ControlPlaneEndpoint (mc_Spec c))"
    and "\<not> IsSet (cs_Placement (mc_Spec c))"
  shows "fst (ClusterReconciler_Reconcile E req h) =
      (zero_Result, Some (Errorf ''setting failuredomains'' errNoPlacement)) \<and>
    (\<exists>c' ts. last (snd (ClusterReconciler_Reconcile E req h)) = PatchCluster c' ts \<and> cluster_ready c')"
proof -
  let ?cs = "cluster_scope_of c cl" and ?h = "h @ cluster_preamble req c"
  have live: "\<not> (e_EndpointIsZero E (cl_Spec_ControlPlaneEndpoint (csc_Cluster ?cs)) \<and>
      e_EndpointIsZero E (cs_ControlPlaneEndpoint (mc_Spec (csc_MvmCluster ?cs))))"
    using assms(3) by (auto simp: cluster_scope_of_def)
  have "fst (ClusterReconciler_reconcileNormal E ?cs ?h) =
      (zero_Result, Some (Errorf ''setting failuredomains'' errNoPlacement))"
    using live assms(4)
    by (auto simp: ClusterReconciler_reconcileNormal_def setFailureDomains_def update_MvmCluster_parts
        cluster_setters_parts cluster_scope_of_def)
  then show ?thesis
    using cluster_Reconcile_admitted [OF assms(1)] assms(2) reconcileNormal_object(1) [OF live, where h = ?h]
    by (simp add: ClusterScope_Patch_event cluster_setters_parts)
qed

theorem cluster_ready_despite_error_witness:
  "fst (ClusterReconciler_Reconcile
      (fx_env\<lparr>e_GetMicrovmCluster := \<lambda>h k. Inr (fx_mvm_cluster\<lparr>mc_Spec :=
         (mc_Spec fx_mvm_cluster)\<lparr>cs_Placement := \<lparr>pl_StaticPool = None\<rparr>\<rparr>\<rparr>)\<rparr>) (fx_key ''tenant1'') []) =
    (zero_Result, Some (Errorf ''setting failuredomains'' errNoPlacement))"
  (is "fst (ClusterReconciler_Reconcile ?E ?k []) = ?r")
proof -
  let ?c = "fx_mvm_cluster\<lparr>mc_Spec := (mc_Spec fx_mvm_cluster)\<lparr>cs_Placement := \<lparr>pl_StaticPool = None\<rparr>\<rparr>\<rparr>"
  have "cluster_admitted ?E ?k [] ?c fx_cluster"
    by (simp add: cluster_admitted_def fx_defs)
  from cluster_ready_despite_error [OF this] show ?thesis
    by (simp add: fx_defs IsSet_def)
qed

end
