(* ===== verification/Machine_Controller.thy ===== *)
theory Machine_Controller
  imports Cluster_Controller
begin

text \<open>
  \<^verbatim>\<open>controllers/microvmmachine_controller.go\<close>: the reconciler of MicrovmMachine objects. A
  reconciliation takes the environment and the history and returns its outcome (a result and an
  error, or a panic) and the extended history; the functions that are given the scope by pointer
  also return the scope. What a \<open>defer\<close> does (closing the flintlock client, patching the object)
  happens after the outcome is known and for a panic too.
\<close>

section \<open>Calls of the microvm service\<close>

text \<open>
  \<open>flservice.Service\<close> keeps a pointer to the scope: at every call it sees the scope as it is then,
  and what it writes through the pointer is seen by the reconciler afterwards.
\<close>

definition service_at :: "Service \<Rightarrow> MachineScope \<Rightarrow> Service" where
  "service_at mvmSvc m = mvmSvc\<lparr>svc_scope := m\<rparr>"

definition Service_Get ::
  "env \<Rightarrow> Service \<Rightarrow> MachineScope \<Rightarrow> history \<Rightarrow>
   (MicroVM option \<times> error option) \<times> MachineScope \<times> history" where
  "Service_Get E mvmSvc m h =
     (let (r, mvm) = e_ServiceGet E h (service_at mvmSvc m)
      in (r, m\<lparr>sc_MvmMachine := mvm\<rparr>, h @ [ServiceGet (service_at mvmSvc m)]))"

definition Service_Create ::
  "env \<Rightarrow> Service \<Rightarrow> MachineScope \<Rightarrow> history \<Rightarrow>
   (MicroVM option \<times> error option) \<times> MachineScope \<times> history" where
  "Service_Create E mvmSvc m h =
     (let (r, mvm) = e_ServiceCreate E h (service_at mvmSvc m)
      in (r, m\<lparr>sc_MvmMachine := mvm\<rparr>, h @ [ServiceCreate (service_at mvmSvc m)]))"

definition Service_Delete ::
  "env \<Rightarrow> Service \<Rightarrow> MachineScope \<Rightarrow> history \<Rightarrow> error option \<times> MachineScope \<times> history" where
  "Service_Delete E mvmSvc m h =
     (let (err, mvm) = e_ServiceDelete E h (service_at mvmSvc m)
      in (err, m\<lparr>sc_MvmMachine := mvm\<rparr>, h @ [ServiceDelete (service_at mvmSvc m)]))"

text \<open>\<open>defer mvmSvc.Close()\<close>\<close>

definition with_deferred_close ::
  "Service \<Rightarrow> 'r \<times> MachineScope \<times> history \<Rightarrow> 'r \<times> MachineScope \<times> history" where
  "with_deferred_close mvmSvc out =
     (let (r, m, h) = out in (r, m, h @ [ServiceClose (service_at mvmSvc m)]))"

section \<open>The reconciler\<close>

type_synonym reconciled = "(Result \<times> error option) outcome"

definition nil_dereference :: string where
  "nil_dereference = ''invalid memory address or nil pointer dereference''"

abbreviation requeue_later :: Result where
  "requeue_later \<equiv> zero_Result\<lparr>RequeueAfter := requeuePeriod\<rparr>"

definition getMicrovmService ::
  "env \<Rightarrow> string \<Rightarrow> MachineScope \<Rightarrow> history \<Rightarrow> (error + Service) \<times> history" where
  "getMicrovmService E addr machineScope h =
     (case e_MvmClientFunc E of
        None \<Rightarrow> (Inl errClientFactoryFuncRequired, h)
      | Some MvmClientFunc \<Rightarrow>
      let (token, h1) = GetBasicAuthToken E addr machineScope h in
      case token of
        Inl err \<Rightarrow> (Inl (Errorf ''getting basic auth token'' err), h1)
      | Inr token \<Rightarrow>
      let (tls, h2) = GetTLSConfig E machineScope h1 in
      case tls of
        Inl err \<Rightarrow> (Inl (Errorf ''getting tls config'' err), h2)
      | Inr tls \<Rightarrow>
      let clientOpts = [WithProxy (cs_MicrovmProxy (mc_Spec (sc_MvmCluster machineScope))),
                        WithBasicAuth token, WithTLS tls];
          h3 = h2 @ [NewFlintlockClient addr clientOpts]
      in case MvmClientFunc h2 addr clientOpts of
           Inl err \<Rightarrow> (Inl (Errorf ''creating microvm client'' err), h3)
         | Inr client \<Rightarrow>
             (Inr \<lparr>svc_scope = machineScope, svc_client = client, svc_addr = addr\<rparr>, h3))"

text \<open>In the created state the log line evaluates \<open>GetInstanceID\<close>.\<close>

definition parseMicroVMState ::
  "env \<Rightarrow> MicroVMState \<Rightarrow> MachineScope \<Rightarrow> reconciled \<times> MachineScope" where
  "parseMicroVMState E state machineScope =
     (case state of
        CREATED \<Rightarrow>
          let m = update_MvmMachine (set_vmstate VMStateRunning) machineScope
          in (case GetInstanceID m of
                Panic p \<Rightarrow> (Panic p, m)
              | Return _ \<Rightarrow> (Return (zero_Result, None), SetReady E m))
      | PENDING \<Rightarrow>
          let m = update_MvmMachine (set_vmstate VMStatePending) machineScope
          in (Return (requeue_later, None),
              SetNotReady E MicrovmPendingReason ConditionSeverityInfo '''' m)
      | FAILED \<Rightarrow>
          let m = update_MvmMachine (set_vmstate VMStateFailed) machineScope
          in (Return (zero_Result, Some errMicrovmFailed),
              SetNotReady E MicrovmProvisionFailedReason ConditionSeverityError
                (Error errMicrovmFailed) m)
      | DELETING \<Rightarrow> (Return (requeue_later, None), machineScope)
      | OtherState _ \<Rightarrow>
          let m = update_MvmMachine (set_vmstate VMStateUnknown) machineScope
          in (Return (requeue_later, Some errMicrovmUnknownState),
              SetNotReady E MicrovmUnknownStateReason ConditionSeverityError
                (Error errMicrovmUnknownState) m))"

text \<open>
  \<open>reconcileDelete\<close>: first the part after the service has been obtained, which runs under the
  deferred close, then the whole function.
\<close>

definition delete_with_service ::
  "env \<Rightarrow> Service \<Rightarrow> MachineScope \<Rightarrow> history \<Rightarrow> reconciled \<times> MachineScope \<times> history" where
  "delete_with_service E mvmSvc m h =
     (let ((microvm, err), m1, h1) = Service_Get E mvmSvc m h in
      if err \<noteq> None \<and> \<not> isSpecNotFound (the err)
      then (Return (zero_Result, Some (Errorf ''failed getting microvm'' (the err))), m1, h1)
      else case microvm of
        Some vm \<Rightarrow>
          let m2 = SetNotReady E MicrovmDeletingReason ConditionSeverityInfo '''' m1;
              (patchErr, m3, h3) = MachineScope_Patch E m2 h1
          in (case patchErr of
                Some e \<Rightarrow> (Return (zero_Result, Some e), m3, h3)
              | None \<Rightarrow>
              case mv_Status vm of
                None \<Rightarrow> (Panic nil_dereference, m3, h3)
              | Some state \<Rightarrow>
                  if state \<noteq> DELETING then
                    let (delErr, m4, h4) = Service_Delete E mvmSvc m3 h3
                    in (case delErr of
                          Some e \<Rightarrow>
                            (Return (zero_Result, Some e),
                             SetNotReady E MicrovmDeleteFailedReason ConditionSeverityError '''' m4, h4)
                        | None \<Rightarrow> (Return (requeue_later, None), m4, h4))
                  else (Return (requeue_later, None), m3, h3))
      | None \<Rightarrow>
          (Return (zero_Result, None),
           update_MvmMachine (\<lambda>mvm. set_finalizers
             (e_RemoveFinalizer E (machine_finalizers mvm) MachineFinalizer) mvm) m1, h1))"

definition MachineReconciler_reconcileDelete ::
  "env \<Rightarrow> MachineScope \<Rightarrow> history \<Rightarrow> reconciled \<times> MachineScope \<times> history" where
  "MachineReconciler_reconcileDelete E machineScope h =
     (case GetFailureDomain machineScope of
        Panic p \<Rightarrow> (Panic p, machineScope, h)
      | Return (Inl err) \<Rightarrow> (Return (zero_Result, Some err), machineScope, h)
      | Return (Inr failureDomain) \<Rightarrow>
          let (mvmSvc, h1) = getMicrovmService E failureDomain machineScope h
          in (case mvmSvc of
                Inl err \<Rightarrow> (Return (zero_Result, None), machineScope, h1)
              | Inr svc \<Rightarrow> with_deferred_close svc (delete_with_service E svc machineScope h1)))"

text \<open>
  \<open>reconcileNormal\<close>: the part that runs under the deferred close in three steps (look the microvm up,
  persist the finalizer and create the microvm if there is none, record its id and state), then the
  whole function.
\<close>

definition record_microvm ::
  "env \<Rightarrow> string \<Rightarrow> MicroVM option \<Rightarrow> MachineScope \<Rightarrow> history \<Rightarrow> reconciled \<times> MachineScope \<times> history" where
  "record_microvm E failureDomain microvm m h =
     (case Option.bind (Option.bind microvm mv_Spec) id of
        None \<Rightarrow> (Panic nil_dereference, m, h)
      | Some uid \<Rightarrow>
      let m1 = SetProviderID failureDomain uid m;
          (patchErr, m2, h2) = MachineScope_Patch E m1 h
      in case patchErr of
           Some e \<Rightarrow> (Return (zero_Result, Some e), m2, h2)
         | None \<Rightarrow>
      (case Option.bind microvm mv_Status of
         None \<Rightarrow> (Panic nil_dereference, m2, h2)
       | Some state \<Rightarrow> let (r, m3) = parseMicroVMState E state m2 in (r, m3, h2)))"

definition ensure_microvm ::
  "env \<Rightarrow> string \<Rightarrow> Service \<Rightarrow> MicroVM option \<Rightarrow> MachineScope \<Rightarrow> history \<Rightarrow>
   reconciled \<times> MachineScope \<times> history" where
  "ensure_microvm E failureDomain mvmSvc microvm m h =
     (let m1 = update_MvmMachine (\<lambda>mvm. set_finalizers
                 (e_AddFinalizer E (machine_finalizers mvm) MachineFinalizer) mvm) m;
          (patchErr, m2, h2) = MachineScope_Patch E m1 h
      in case patchErr of
           Some e \<Rightarrow> (Return (zero_Result, Some e), m2, h2)
         | None \<Rightarrow>
      (case microvm of
         None \<Rightarrow>
           let ((created, createErr), m3, h3) = Service_Create E mvmSvc m2 h2
           in (case createErr of
                 Some e \<Rightarrow> (Return (zero_Result, Some e), m3, h3)
               | None \<Rightarrow> record_microvm E failureDomain created m3 h3)
       | Some vm \<Rightarrow> record_microvm E failureDomain (Some vm) m2 h2))"

definition normal_with_service ::
  "env \<Rightarrow> string \<Rightarrow> Service \<Rightarrow> MachineScope \<Rightarrow> history \<Rightarrow> reconciled \<times> MachineScope \<times> history" where
  "normal_with_service E failureDomain mvmSvc m h =
     (let providerID = GetProviderID m in
      if providerID \<noteq> '''' then
        let ((microvm, err), m1, h1) = Service_Get E mvmSvc m h
        in if err \<noteq> None \<and> \<not> isSpecNotFound (the err)
           then (Return (zero_Result, Some (the err)), m1, h1)
           else ensure_microvm E failureDomain mvmSvc microvm m1 h1
      else ensure_microvm E failureDomain mvmSvc None m h)"

definition MachineReconciler_reconcileNormal ::
  "env \<Rightarrow> MachineScope \<Rightarrow> history \<Rightarrow> reconciled \<times> MachineScope \<times> history" where
  "MachineReconciler_reconcileNormal E machineScope h =
     (if \<not> cl_Status_InfrastructureReady (sc_Cluster machineScope)
      then (Return (zero_Result, None),
            update_MvmMachine (MarkFalse_Machine E MicrovmReadyCondition
              WaitingForClusterInfraReason ConditionSeverityInfo '''') machineScope, h)
      else if m_Spec_Bootstrap_DataSecretName (sc_Machine machineScope) = None
      then (Return (zero_Result, None),
            update_MvmMachine (MarkFalse_Machine E MicrovmReadyCondition
              WaitingForBootstrapDataReason ConditionSeverityInfo '''') machineScope, h)
      else case GetFailureDomain machineScope of
        Panic p \<Rightarrow> (Panic p, machineScope, h)
      | Return (Inl err) \<Rightarrow> (Return (zero_Result, Some err), machineScope, h)
      | Return (Inr failureDomain) \<Rightarrow>
          let (mvmSvc, h1) = getMicrovmService E failureDomain machineScope h
          in (case mvmSvc of
                Inl err \<Rightarrow> (Return (zero_Result, Some err), machineScope, h1)
              | Inr svc \<Rightarrow>
                  with_deferred_close svc (normal_with_service E failureDomain svc machineScope h1)))"

definition MachineReconciler_Reconcile ::
  "env \<Rightarrow> NamespacedName \<Rightarrow> history \<Rightarrow> reconciled \<times> history" where
  "MachineReconciler_Reconcile E req h =
     (let h1 = h @ [GetMicrovmMachine req] in
      case e_GetMicrovmMachine E h req of
        Inl err \<Rightarrow> if IsNotFound err then (Return (zero_Result, None), h1)
                   else (Return (zero_Result, Some (Errorf ''unable to reconcile'' err)), h1)
      | Inr mvmMachine \<Rightarrow>
      let h2 = h1 @ [GetOwnerMachine (mm_ObjectMeta mvmMachine)] in
      case e_GetOwnerMachine E h1 (mm_ObjectMeta mvmMachine) of
        Inl err \<Rightarrow> (Return (zero_Result, Some (Errorf ''unable to get machine owner'' err)), h2)
      | Inr None \<Rightarrow> (Return (zero_Result, None), h2)
      | Inr (Some machine) \<Rightarrow>
      let h3 = h2 @ [GetClusterFromMetadata (m_ObjectMeta machine)] in
      case e_GetClusterFromMetadata E h2 (m_ObjectMeta machine) of
        Inl err \<Rightarrow> (Return (zero_Result, None), h3)
      | Inr cluster \<Rightarrow>
      if e_IsPaused E cluster (mm_ObjectMeta mvmMachine) then (Return (zero_Result, None), h3)
      else case cl_Spec_InfrastructureRef cluster of
        None \<Rightarrow> (Panic nil_dereference, h3)
      | Some infraRef \<Rightarrow>
      let mvmClusterName = \<lparr>nn_Namespace = ref_Namespace infraRef, nn_Name = ref_Name infraRef\<rparr>;
          h4 = h3 @ [GetMicrovmCluster mvmClusterName]
      in case e_GetMicrovmCluster E h3 mvmClusterName of
        Inl getErr \<Rightarrow> if IsNotFound getErr then (Return (zero_Result, None), h4)
                      else (Return (zero_Result, Some (Errorf ''error getting microvmcluster'' getErr)), h4)
      | Inr mvmCluster \<Rightarrow>
      let (machineScope, h5) = NewMachineScope E
            \<lparr>msp_Cluster = Some cluster, msp_MicroVMCluster = Some mvmCluster,
             msp_Machine = Some machine, msp_MicroVMMachine = Some mvmMachine,
             msp_Client = Some ()\<rparr> [] h4
      in case machineScope of
        Inl err \<Rightarrow> (Return (zero_Result, Some (Errorf ''failed to create machine scope'' err)), h5)
      | Inr s \<Rightarrow>
          let (r, s', h') = with_deferred_patch (MachineScope_Patch E)
                (if \<not> e_TimeIsZero E (om_DeletionTimestamp (mm_ObjectMeta mvmMachine))
                 then MachineReconciler_reconcileDelete E s h5
                 else MachineReconciler_reconcileNormal E s h5)
          in (r, h'))"

text \<open>
  \<open>MicroVMClusterToMicrovmMachine\<close>: the requests for the machines of a changed MicrovmCluster. The
  argument is an interface value; \<^const>\<open>None\<close> is an object of another type. The machines come in
  the order in which \<open>UnsortedList\<close> visits the collection.
\<close>

definition MicroVMClusterToMicrovmMachine ::
  "env \<Rightarrow> MicrovmCluster option \<Rightarrow> history \<Rightarrow> NamespacedName list \<times> history" where
  "MicroVMClusterToMicrovmMachine E o' h =
     (case o' of
        None \<Rightarrow> ([], h)
      | Some mvmCluster \<Rightarrow>
      if \<not> e_TimeIsZero E (om_DeletionTimestamp (mc_ObjectMeta mvmCluster)) then ([], h)
      else
      let (owner, err) = e_GetOwnerCluster E h (mc_ObjectMeta mvmCluster);
          h1 = h @ [GetOwnerCluster (mc_ObjectMeta mvmCluster)]
      in if (err \<noteq> None \<and> IsNotFound (the err)) \<or> owner = None then ([], h1)
         else if err \<noteq> None then ([], h1)
         else
      let cluster = the owner; h2 = h1 @ [GetFilteredMachines cluster]
      in case e_GetFilteredMachines E h1 cluster of
           Inl err \<Rightarrow> ([], h2)
         | Inr machines \<Rightarrow>
             (foldl (\<lambda>result m.
                if ref_Name (m_Spec_InfrastructureRef m) = '''' then result
                else result @ [\<lparr>nn_Namespace = om_Namespace (m_ObjectMeta m),
                                nn_Name = ref_Name (m_Spec_InfrastructureRef m)\<rparr>]) [] machines, h2))"

section \<open>Lemmas\<close>

subsection \<open>The guards of Reconcile\<close>

text \<open>The requests that get past every guard, with the objects found on the way.\<close>

record found =
  f_mvm :: MicrovmMachine
  f_machine :: Machine
  f_cluster :: Cluster
  f_ref :: ObjectReference
  f_mvmCluster :: MicrovmCluster

abbreviation infra_key :: "ObjectReference \<Rightarrow> NamespacedName" where
  "infra_key r \<equiv> \<lparr>nn_Namespace = ref_Namespace r, nn_Name = ref_Name r\<rparr>"

abbreviation machine_reads :: "NamespacedName \<Rightarrow> found \<Rightarrow> event list" where
  "machine_reads req f \<equiv>
     [GetMicrovmMachine req, GetOwnerMachine (mm_ObjectMeta (f_mvm f)),
      GetClusterFromMetadata (m_ObjectMeta (f_machine f)), GetMicrovmCluster (infra_key (f_ref f))]"

abbreviation machine_preamble :: "NamespacedName \<Rightarrow> found \<Rightarrow> event list" where
  "machine_preamble req f \<equiv> machine_reads req f @ [NewMachineHelper (f_mvm f)]"

definition machine_admitted :: "env \<Rightarrow> NamespacedName \<Rightarrow> history \<Rightarrow> found \<Rightarrow> bool" where
  "machine_admitted E req h f \<longleftrightarrow>
     e_GetMicrovmMachine E h req = Inr (f_mvm f) \<and>
     e_GetOwnerMachine E (h @ [GetMicrovmMachine req]) (mm_ObjectMeta (f_mvm f)) = Inr (Some (f_machine f)) \<and>
     e_GetClusterFromMetadata E (h @ [GetMicrovmMachine req, GetOwnerMachine (mm_ObjectMeta (f_mvm f))])
       (m_ObjectMeta (f_machine f)) = Inr (f_cluster f) \<and>
     \<not> e_IsPaused E (f_cluster f) (mm_ObjectMeta (f_mvm f)) \<and>
     cl_Spec_InfrastructureRef (f_cluster f) = Some (f_ref f) \<and>
     e_GetMicrovmCluster E (h @ [GetMicrovmMachine req, GetOwnerMachine (mm_ObjectMeta (f_mvm f)),
       GetClusterFromMetadata (m_ObjectMeta (f_machine f))]) (infra_key (f_ref f)) = Inr (f_mvmCluster f) \<and>
     e_NewMachineHelper E (h @ machine_reads req f) (f_mvm f) = None"

definition machine_scope_of :: "found \<Rightarrow> MachineScope" where
  "machine_scope_of f = \<lparr>sc_Cluster = f_cluster f, sc_MvmCluster = f_mvmCluster f,
     sc_Machine = f_machine f, sc_MvmMachine = f_mvm f, sc_controllerName = ManagerName\<rparr>"

text \<open>The reconciliation proper, before the deferred patch.\<close>

definition machine_body :: "env \<Rightarrow> NamespacedName \<Rightarrow> history \<Rightarrow> found \<Rightarrow> reconciled \<times> MachineScope \<times> history" where
  "machine_body E req h f =
     (if \<not> e_TimeIsZero E (om_DeletionTimestamp (mm_ObjectMeta (f_mvm f)))
      then MachineReconciler_reconcileDelete E (machine_scope_of f) (h @ machine_preamble req f)
      else MachineReconciler_reconcileNormal E (machine_scope_of f) (h @ machine_preamble req f))"

lemma machine_Reconcile_admitted:
  assumes "machine_admitted E req h f"
  shows "MachineReconciler_Reconcile E req h =
    (fst (machine_body E req h f),
     snd (snd (MachineScope_Patch E (fst (snd (machine_body E req h f))) (snd (snd (machine_body E req h f))))))"
  using assms
  by (auto simp: MachineReconciler_Reconcile_def machine_body_def machine_admitted_def NewMachineScope_def
      Let_def with_deferred_patch_def machine_scope_of_def split: prod.splits)

lemma not_admittedD:
  assumes "\<nexists>f. machine_admitted E req h f"
    and "e_GetMicrovmMachine E h req = Inr a"
    and "e_GetOwnerMachine E (h @ [GetMicrovmMachine req]) (mm_ObjectMeta a) = Inr (Some b)"
    and "e_GetClusterFromMetadata E (h @ [GetMicrovmMachine req, GetOwnerMachine (mm_ObjectMeta a)])
         (m_ObjectMeta b) = Inr c"
    and "\<not> e_IsPaused E c (mm_ObjectMeta a)" "cl_Spec_InfrastructureRef c = Some d"
    and "e_GetMicrovmCluster E (h @ [GetMicrovmMachine req, GetOwnerMachine (mm_ObjectMeta a),
         GetClusterFromMetadata (m_ObjectMeta b)]) (infra_key d) = Inr e"
    and "e_NewMachineHelper E (h @ [GetMicrovmMachine req, GetOwnerMachine (mm_ObjectMeta a),
         GetClusterFromMetadata (m_ObjectMeta b), GetMicrovmCluster (infra_key d)]) a = None"
  shows False
  using assms
  by (auto simp: machine_admitted_def
      dest: spec [of _ "\<lparr>f_mvm = a, f_machine = b, f_cluster = c, f_ref = d, f_mvmCluster = e\<rparr>"])

text \<open>
  A request that is not admitted only reads; its run returns with nothing to requeue, or panics on a
  cluster without an infrastructure reference.
\<close>

lemma machine_Reconcile_skipped:
  assumes "\<nexists>f. machine_admitted E req h f"
  shows "\<exists>es. snd (MachineReconciler_Reconcile E req h) = h @ es \<and> list_all reads_only es"
    "(\<exists>err. fst (MachineReconciler_Reconcile E req h) = Return (zero_Result, err)) \<or>
     fst (MachineReconciler_Reconcile E req h) = Panic nil_dereference \<and>
       (\<exists>h' om cl. e_GetClusterFromMetadata E h' om = Inr cl \<and> cl_Spec_InfrastructureRef cl = None)"
  by (auto simp: MachineReconciler_Reconcile_def NewMachineScope_def Let_def
      split: sum.splits prod.splits option.splits dest: not_admittedD [OF assms])

subsection \<open>Obtaining the microvm service\<close>

text \<open>The events of obtaining a service: secrets read, then at most one client made.\<close>

fun reads_secret :: "event \<Rightarrow> bool" where
  "reads_secret (GetSecret _) = True"
| "reads_secret _ = False"

lemma GetBasicAuthToken_events:
  "\<exists>es. snd (GetBasicAuthToken E a m h) = h @ es \<and> list_all reads_secret es"
  by (auto simp: GetBasicAuthToken_def Let_def split: option.splits sum.splits)

lemma GetTLSConfig_events:
  "\<exists>es. snd (GetTLSConfig E m h) = h @ es \<and> list_all reads_secret es"
  by (auto simp: GetTLSConfig_def Let_def split: option.splits sum.splits)

definition client_made :: "env \<Rightarrow> history \<Rightarrow> string \<Rightarrow> ClientOption list \<Rightarrow> bool" where
  "client_made E h a opts \<longleftrightarrow> (\<exists>mk c. e_MvmClientFunc E = Some mk \<and> mk h a opts = Inr c)"

definition service_events :: "env \<Rightarrow> string \<Rightarrow> MachineScope \<Rightarrow> history \<Rightarrow> event list \<Rightarrow> bool" where
  "service_events E a m h ss \<longleftrightarrow>
     (case fst (getMicrovmService E a m h) of
        Inl err \<Rightarrow> snd (getMicrovmService E a m h) = h @ ss \<or>
          (\<exists>opts. snd (getMicrovmService E a m h) = h @ ss @ [NewFlintlockClient a opts] \<and>
             \<not> client_made E (h @ ss) a opts)
      | Inr svc \<Rightarrow> svc_scope svc = m \<and> svc_addr svc = a \<and>
          (\<exists>opts. snd (getMicrovmService E a m h) = h @ ss @ [NewFlintlockClient a opts] \<and>
             client_made E (h @ ss) a opts))"

lemma getMicrovmService_events:
  obtains ss where "list_all reads_secret ss" "service_events E a m h ss"
proof -
  obtain es1 where es1: "snd (GetBasicAuthToken E a m h) = h @ es1" "list_all reads_secret es1"
    using GetBasicAuthToken_events by blast
  obtain es2 where es2: "snd (GetTLSConfig E m (h @ es1)) = (h @ es1) @ es2" "list_all reads_secret es2"
    using GetTLSConfig_events by blast
  obtain tok tlsr where "GetBasicAuthToken E a m h = (tok, h @ es1)"
    "GetTLSConfig E m (h @ es1) = (tlsr, h @ es1 @ es2)"
    using es1(1) es2(1) by (metis append_assoc prod.collapse)
  then have eq: "getMicrovmService E a m h = (case e_MvmClientFunc E of
      None \<Rightarrow> (Inl errClientFactoryFuncRequired, h)
    | Some mk \<Rightarrow> case tok of Inl err \<Rightarrow> (Inl (Errorf ''getting basic auth token'' err), h @ es1)
    | Inr token \<Rightarrow> case tlsr of Inl err \<Rightarrow> (Inl (Errorf ''getting tls config'' err), h @ es1 @ es2)
    | Inr tls \<Rightarrow> let opts = [WithProxy (cs_MicrovmProxy (mc_Spec (sc_MvmCluster m))), WithBasicAuth token, WithTLS tls]
        in case mk (h @ es1 @ es2) a opts of
             Inl err \<Rightarrow> (Inl (Errorf ''creating microvm client'' err), h @ es1 @ es2 @ [NewFlintlockClient a opts])
           | Inr c \<Rightarrow> (Inr \<lparr>svc_scope = m, svc_client = c, svc_addr = a\<rparr>, h @ es1 @ es2 @ [NewFlintlockClient a opts]))"
    by (simp add: getMicrovmService_def Let_def split: option.splits sum.splits)
  have sec: "list_all reads_secret (es1 @ es2)" "list_all reads_secret []"
    using es1(2) es2(2) by simp_all
  show thesis
  proof (cases "fst (getMicrovmService E a m h)")
    case (Inr svc)
    then show ?thesis
      using that [OF sec(1)]
      by (auto simp: service_events_def client_made_def eq Let_def split: option.splits sum.splits)
  next
    case (Inl err)
    then consider "snd (getMicrovmService E a m h) = h" | "snd (getMicrovmService E a m h) = h @ es1"
      | "snd (getMicrovmService E a m h) = h @ es1 @ es2"
      | opts where "snd (getMicrovmService E a m h) = h @ es1 @ es2 @ [NewFlintlockClient a opts]"
          "\<not> client_made E (h @ es1 @ es2) a opts"
      by (auto simp: eq client_made_def Let_def split: option.splits sum.splits)
    then show ?thesis
      using that [OF sec(1)] that [OF sec(2)] that [OF es1(2)] Inl
      by cases (auto simp: service_events_def)
  qed
qed

subsection \<open>Patches and service calls\<close>

abbreviation machine_owned :: "ConditionType list" where
  "machine_owned \<equiv> [ReadyCondition, MicrovmReadyCondition]"

text \<open>The object a patch sends: the machine with its summary condition brought up to date.\<close>

definition summarised :: "env \<Rightarrow> MicrovmMachine \<Rightarrow> MicrovmMachine" where
  "summarised E mvm = MicrovmMachine_SetConditions
     (e_SetSummary E [WithConditions [MicrovmReadyCondition],
        WithStepCounterIf (e_TimeIsZero E (om_DeletionTimestamp (mm_ObjectMeta mvm))), WithStepCounter]
        (MicrovmMachine_GetConditions mvm)) mvm"

lemma summarised_parts [machine_parts]:
  "mm_ObjectMeta (summarised E mvm) = mm_ObjectMeta mvm"
  "mm_Spec (summarised E mvm) = mm_Spec mvm"
  "machine_ready (summarised E mvm) = machine_ready mvm"
  "machine_vmstate (summarised E mvm) = machine_vmstate mvm"
  by (simp_all add: summarised_def machine_parts)

text \<open>
  The calls in equational form. Each call is split into its answer and the scope it leaves, which the
  proofs keep folded; the history grows by the event named here.
\<close>

abbreviation patch_event :: "env \<Rightarrow> MachineScope \<Rightarrow> event" where
  "patch_event E m \<equiv> PatchMachine (summarised E (sc_MvmMachine m)) machine_owned"

definition patch_error :: "env \<Rightarrow> MachineScope \<Rightarrow> history \<Rightarrow> error option" where
  "patch_error E m h = map_option (Errorf ''unable to patch machine'')
     (fst (e_PatchMachine E h (summarised E (sc_MvmMachine m)) machine_owned))"

definition patched_scope :: "env \<Rightarrow> MachineScope \<Rightarrow> history \<Rightarrow> MachineScope" where
  "patched_scope E m h =
     m\<lparr>sc_MvmMachine := snd (e_PatchMachine E h (summarised E (sc_MvmMachine m)) machine_owned)\<rparr>"

abbreviation got :: "env \<Rightarrow> Service \<Rightarrow> MachineScope \<Rightarrow> history \<Rightarrow> MicroVM option \<times> error option" where
  "got E svc m h \<equiv> fst (e_ServiceGet E h (service_at svc m))"

definition got_scope :: "env \<Rightarrow> Service \<Rightarrow> MachineScope \<Rightarrow> history \<Rightarrow> MachineScope" where
  "got_scope E svc m h = m\<lparr>sc_MvmMachine := snd (e_ServiceGet E h (service_at svc m))\<rparr>"

abbreviation created :: "env \<Rightarrow> Service \<Rightarrow> MachineScope \<Rightarrow> history \<Rightarrow> MicroVM option \<times> error option" where
  "created E svc m h \<equiv> fst (e_ServiceCreate E h (service_at svc m))"

definition created_scope :: "env \<Rightarrow> Service \<Rightarrow> MachineScope \<Rightarrow> history \<Rightarrow> MachineScope" where
  "created_scope E svc m h = m\<lparr>sc_MvmMachine := snd (e_ServiceCreate E h (service_at svc m))\<rparr>"

abbreviation delete_error :: "env \<Rightarrow> Service \<Rightarrow> MachineScope \<Rightarrow> history \<Rightarrow> error option" where
  "delete_error E svc m h \<equiv> fst (e_ServiceDelete E h (service_at svc m))"

definition deleted_scope :: "env \<Rightarrow> Service \<Rightarrow> MachineScope \<Rightarrow> history \<Rightarrow> MachineScope" where
  "deleted_scope E svc m h = m\<lparr>sc_MvmMachine := snd (e_ServiceDelete E h (service_at svc m))\<rparr>"

lemma call_eqs:
  "MachineScope_Patch E m h = (patch_error E m h, patched_scope E m h, h @ [patch_event E m])"
  "Service_Get E svc m h = (got E svc m h, got_scope E svc m h, h @ [ServiceGet (service_at svc m)])"
  "Service_Create E svc m h = (created E svc m h, created_scope E svc m h, h @ [ServiceCreate (service_at svc m)])"
  "Service_Delete E svc m h = (delete_error E svc m h, deleted_scope E svc m h, h @ [ServiceDelete (service_at svc m)])"
  by (simp_all add: MachineScope_Patch_def summarised_def Service_Get_def Service_Create_def Service_Delete_def
      patch_error_def patched_scope_def got_scope_def created_scope_def deleted_scope_def Let_def split: prod.splits)

lemma patch_error_None: "patch_error E m h = None \<longleftrightarrow>
    fst (e_PatchMachine E h (summarised E (sc_MvmMachine m)) machine_owned) = None"
  by (simp add: patch_error_def)

text \<open>The scope with the finalizer added, removed, and marked as deleting.\<close>

definition guard_scope :: "env \<Rightarrow> MachineScope \<Rightarrow> MachineScope" where
  "guard_scope E m = update_MvmMachine (\<lambda>mvm. set_finalizers
     (e_AddFinalizer E (machine_finalizers mvm) MachineFinalizer) mvm) m"

definition release_scope :: "env \<Rightarrow> MachineScope \<Rightarrow> MachineScope" where
  "release_scope E m = update_MvmMachine (\<lambda>mvm. set_finalizers
     (e_RemoveFinalizer E (machine_finalizers mvm) MachineFinalizer) mvm) m"

abbreviation deleting_scope :: "env \<Rightarrow> MachineScope \<Rightarrow> MachineScope" where
  "deleting_scope E m \<equiv> SetNotReady E MicrovmDeletingReason ConditionSeverityInfo '''' m"

text \<open>An answer of the lookup that stops the reconciliation: an error other than a missing microvm.\<close>

abbreviation lookup_failed :: "MicroVM option \<times> error option \<Rightarrow> bool" where
  "lookup_failed r \<equiv> snd r \<noteq> None \<and> \<not> isSpecNotFound (the (snd r))"

text \<open>The steps of the two reconciliations over these calls.\<close>

lemma record_microvm_eq:
  "record_microvm E fd vm m h =
     (case Option.bind (Option.bind vm mv_Spec) id of
        None \<Rightarrow> (Panic nil_dereference, m, h)
      | Some uid \<Rightarrow>
          (case patch_error E (SetProviderID fd uid m) h of
             Some e \<Rightarrow> (Return (zero_Result, Some e), patched_scope E (SetProviderID fd uid m) h,
                        h @ [patch_event E (SetProviderID fd uid m)])
           | None \<Rightarrow>
               (case Option.bind vm mv_Status of
                  None \<Rightarrow> (Panic nil_dereference, patched_scope E (SetProviderID fd uid m) h,
                           h @ [patch_event E (SetProviderID fd uid m)])
                | Some st \<Rightarrow> (fst (parseMicroVMState E st (patched_scope E (SetProviderID fd uid m) h)),
                    snd (parseMicroVMState E st (patched_scope E (SetProviderID fd uid m) h)),
                    h @ [patch_event E (SetProviderID fd uid m)]))))"
  by (simp add: record_microvm_def call_eqs Let_def split: option.splits prod.splits)

lemma ensure_microvm_eq:
  "ensure_microvm E fd svc vm m h =
     (let m1 = guard_scope E m; m2 = patched_scope E m1 h; h2 = h @ [patch_event E m1];
          m3 = created_scope E svc m2 h2; h3 = h2 @ [ServiceCreate (service_at svc m2)]
      in case patch_error E m1 h of
           Some e \<Rightarrow> (Return (zero_Result, Some e), m2, h2)
         | None \<Rightarrow>
             (case vm of
                Some v \<Rightarrow> record_microvm E fd (Some v) m2 h2
              | None \<Rightarrow>
                  (case snd (created E svc m2 h2) of
                     Some e \<Rightarrow> (Return (zero_Result, Some e), m3, h3)
                   | None \<Rightarrow> record_microvm E fd (fst (created E svc m2 h2)) m3 h3)))"
  by (simp add: ensure_microvm_def call_eqs guard_scope_def Let_def split: option.splits prod.splits)

lemma normal_with_service_eq:
  "normal_with_service E fd svc m h =
     (if GetProviderID m = '''' then ensure_microvm E fd svc None m h
      else if lookup_failed (got E svc m h)
      then (Return (zero_Result, snd (got E svc m h)), got_scope E svc m h, h @ [ServiceGet (service_at svc m)])
      else ensure_microvm E fd svc (fst (got E svc m h)) (got_scope E svc m h) (h @ [ServiceGet (service_at svc m)]))"
  by (auto simp: normal_with_service_def call_eqs split: prod.splits)

lemma delete_with_service_eq:
  "delete_with_service E svc m h =
     (let m1 = got_scope E svc m h; h1 = h @ [ServiceGet (service_at svc m)];
          m2 = deleting_scope E m1; m3 = patched_scope E m2 h1; h3 = h1 @ [patch_event E m2];
          m4 = deleted_scope E svc m3 h3; h4 = h3 @ [ServiceDelete (service_at svc m3)]
      in if lookup_failed (got E svc m h)
         then (Return (zero_Result, Some (Errorf ''failed getting microvm'' (the (snd (got E svc m h))))), m1, h1)
         else case fst (got E svc m h) of
           None \<Rightarrow> (Return (zero_Result, None), release_scope E m1, h1)
         | Some vm \<Rightarrow>
             (case patch_error E m2 h1 of
                Some e \<Rightarrow> (Return (zero_Result, Some e), m3, h3)
              | None \<Rightarrow>
                  (case mv_Status vm of
                     None \<Rightarrow> (Panic nil_dereference, m3, h3)
                   | Some st \<Rightarrow>
                       if st = DELETING then (Return (requeue_later, None), m3, h3)
                       else (case delete_error E svc m3 h3 of
                               Some e \<Rightarrow> (Return (zero_Result, Some e),
                                 SetNotReady E MicrovmDeleteFailedReason ConditionSeverityError '''' m4, h4)
                             | None \<Rightarrow> (Return (requeue_later, None), m4, h4)))))"
  by (simp add: delete_with_service_def call_eqs release_scope_def Let_def split: option.splits prod.splits)

lemma with_deferred_close_eq:
  "with_deferred_close svc (r, m, h) = (r, m, h @ [ServiceClose (service_at svc m)])"
  by (simp add: with_deferred_close_def)

subsection \<open>The legal runs of a reconciliation\<close>

text \<open>
  The protocol the reconciler follows with the API server and flintlock, as the set of the event
  sequences it allows. After the microvm has been looked up, the normal reconciliation persists the
  finalizer before it creates anything, and the deletion patches the object before it deletes.
\<close>

abbreviation guarded :: "MicrovmMachine \<Rightarrow> bool" where
  "guarded mvm \<equiv> MachineFinalizer \<in> set (machine_finalizers mvm)"

inductive normal_rest :: "env \<Rightarrow> history \<Rightarrow> event list \<Rightarrow> bool" for E h where
  nr_stop: "normal_rest E h []"
| nr_guard: "guarded m1 \<Longrightarrow> normal_rest E h [PatchMachine m1 machine_owned]"
| nr_found: "guarded m1 \<Longrightarrow> normal_rest E h [PatchMachine m1 machine_owned, PatchMachine m2 machine_owned]"
| nr_create: "guarded m1 \<Longrightarrow> fst (e_PatchMachine E h m1 machine_owned) = None \<Longrightarrow>
    normal_rest E h [PatchMachine m1 machine_owned, ServiceCreate s]"
| nr_created: "guarded m1 \<Longrightarrow> fst (e_PatchMachine E h m1 machine_owned) = None \<Longrightarrow>
    normal_rest E h [PatchMachine m1 machine_owned, ServiceCreate s, PatchMachine m2 machine_owned]"

inductive delete_rest :: "env \<Rightarrow> history \<Rightarrow> event list \<Rightarrow> bool" for E h where
  dr_stop: "delete_rest E h []"
| dr_patch: "\<not> machine_ready m1 \<Longrightarrow> delete_rest E h [PatchMachine m1 machine_owned]"
| dr_delete: "\<not> machine_ready m1 \<Longrightarrow> fst (e_PatchMachine E h m1 machine_owned) = None \<Longrightarrow>
    delete_rest E h [PatchMachine m1 machine_owned, ServiceDelete s]"

inductive body_run :: "env \<Rightarrow> history \<Rightarrow> event list \<Rightarrow> bool" for E h where
  br_unconnected: "list_all reads_secret ss \<Longrightarrow> body_run E h ss"
| br_refused: "list_all reads_secret ss \<Longrightarrow> \<not> client_made E (h @ ss) a opts \<Longrightarrow>
    body_run E h (ss @ [NewFlintlockClient a opts])"
| br_normal: "list_all reads_secret ss \<Longrightarrow> client_made E (h @ ss) a opts \<Longrightarrow>
    gs = [] \<or> gs = [ServiceGet s] \<Longrightarrow> normal_rest E (h @ ss @ [NewFlintlockClient a opts] @ gs) es \<Longrightarrow>
    body_run E h (ss @ [NewFlintlockClient a opts] @ gs @ es @ [ServiceClose s'])"
| br_delete: "list_all reads_secret ss \<Longrightarrow> client_made E (h @ ss) a opts \<Longrightarrow>
    delete_rest E (h @ ss @ [NewFlintlockClient a opts, ServiceGet s]) es \<Longrightarrow>
    body_run E h (ss @ [NewFlintlockClient a opts, ServiceGet s] @ es @ [ServiceClose s'])"

inductive legal_run :: "env \<Rightarrow> history \<Rightarrow> event list \<Rightarrow> bool" for E h where
  lr_skip: "list_all reads_only rs \<Longrightarrow> legal_run E h rs"
| lr_run: "list_all reads_only rs \<Longrightarrow> body_run E (h @ rs) es \<Longrightarrow>
    legal_run E h (rs @ es @ [PatchMachine m machine_owned])"

lemma delete_with_service_trace:
  "\<exists>s es. snd (snd (delete_with_service E svc m h)) = h @ [ServiceGet s] @ es \<and>
     delete_rest E (h @ [ServiceGet s]) es"
proof -
  have nr: "\<not> machine_ready (summarised E (sc_MvmMachine (deleting_scope E m')))" for m'
    by (simp add: scope_simps machine_parts)
  show ?thesis
    by (auto simp: delete_with_service_eq Let_def patch_error_None split: option.splits
        intro!: delete_rest.intros nr)
qed

lemma record_microvm_trace:
  "snd (snd (record_microvm E fd vm m h)) = h \<or>
   (\<exists>m2. snd (snd (record_microvm E fd vm m h)) = h @ [PatchMachine m2 machine_owned])"
  by (auto simp: record_microvm_eq split: option.splits)

lemma guarded_guard_scope:
  "finalizer_laws E \<Longrightarrow> guarded (summarised E (sc_MvmMachine (guard_scope E m)))"
  by (simp add: guard_scope_def machine_parts scope_simps finalizer_lawsD(1))

lemma ensure_microvm_trace:
  assumes "finalizer_laws E"
  shows "\<exists>es. snd (snd (ensure_microvm E fd svc vm m h)) = h @ es \<and> normal_rest E h es"
proof -
  let ?m1 = "guard_scope E m" and ?h2 = "h @ [patch_event E (guard_scope E m)]"
  let ?m2 = "patched_scope E ?m1 h"
  let ?h3 = "?h2 @ [ServiceCreate (service_at svc ?m2)]"
  note g = guarded_guard_scope [OF assms, of m]
  show ?thesis
    using record_microvm_trace [of E fd "Some (the vm)" ?m2 ?h2]
      record_microvm_trace [of E fd "fst (created E svc ?m2 ?h2)" "created_scope E svc ?m2 ?h2" ?h3]
    by (auto simp: ensure_microvm_eq Let_def patch_error_None split: option.splits
        intro: nr_guard [OF g] nr_found [OF g] nr_create [OF g] nr_created [OF g])
qed

lemma normal_with_service_trace:
  assumes "finalizer_laws E"
  shows "\<exists>s gs es. snd (snd (normal_with_service E fd svc m h)) = h @ gs @ es \<and>
     (gs = [] \<or> gs = [ServiceGet s]) \<and> normal_rest E (h @ gs) es"
proof (cases "GetProviderID m = ''''")
  case True
  then have "\<exists>es. snd (snd (normal_with_service E fd svc m h)) = h @ [] @ es \<and> normal_rest E (h @ []) es"
    using ensure_microvm_trace [OF assms, of fd svc None m h] by (simp add: normal_with_service_eq)
  then show ?thesis by blast
next
  case False
  let ?g = "[ServiceGet (service_at svc m)]"
  have "\<exists>es. snd (snd (normal_with_service E fd svc m h)) = h @ ?g @ es \<and> normal_rest E (h @ ?g) es"
    using False nr_stop [of E "h @ ?g"]
      ensure_microvm_trace [OF assms, of fd svc "fst (got E svc m h)" "got_scope E svc m h" "h @ ?g"]
    by (cases "lookup_failed (got E svc m h)") (simp_all add: normal_with_service_eq)
  then show ?thesis by blast
qed

text \<open>The shape both reconciliations share: a service is obtained, and closed after the body.\<close>

lemma service_region_trace:
  assumes body: "\<And>svc h'. \<exists>es. snd (snd (body svc h')) = h' @ es \<and> R h' es"
    and run: "\<And>ss opts es s'. list_all reads_secret ss \<Longrightarrow> client_made E (h @ ss) fd opts \<Longrightarrow>
      R (h @ ss @ [NewFlintlockClient fd opts]) es \<Longrightarrow>
      body_run E h (ss @ [NewFlintlockClient fd opts] @ es @ [ServiceClose s'])"
  shows "\<exists>es. snd (snd (let (mvmSvc, h1) = getMicrovmService E fd m h in
      case mvmSvc of Inl err \<Rightarrow> (failed err, m, h1)
      | Inr svc \<Rightarrow> with_deferred_close svc (body svc h1))) = h @ es \<and> body_run E h es"
proof -
  obtain ss where ss: "list_all reads_secret ss" and ev: "service_events E fd m h ss"
    using getMicrovmService_events by blast
  show ?thesis
  proof (cases "fst (getMicrovmService E fd m h)")
    case (Inr svc)
    then obtain opts where made: "client_made E (h @ ss) fd opts"
      and h1: "getMicrovmService E fd m h = (Inr svc, h @ ss @ [NewFlintlockClient fd opts])"
      using ev by (auto simp: service_events_def prod_eq_iff)
    let ?h = "h @ ss @ [NewFlintlockClient fd opts]"
    obtain es where es: "snd (snd (body svc ?h)) = ?h @ es" "R ?h es" using body by blast
    show ?thesis
      using h1 es(1) run [OF ss made es(2)] by (auto simp: with_deferred_close_def split: prod.splits)
  next
    case (Inl err)
    then show ?thesis
      using ev br_unconnected [OF ss] br_refused [OF ss] by (auto simp: service_events_def split: prod.splits)
  qed
qed

lemma reconcileDelete_trace:
  "\<exists>es. snd (snd (MachineReconciler_reconcileDelete E m h)) = h @ es \<and> body_run E h es"
proof -
  let ?R = "\<lambda>h' es. \<exists>s es'. es = ServiceGet s # es' \<and> delete_rest E (h' @ [ServiceGet s]) es'"
  have body: "\<exists>es. snd (snd (delete_with_service E svc m h')) = h' @ es \<and> ?R h' es" for svc h'
    using delete_with_service_trace [of E svc m h'] by auto
  have run: "body_run E h (ss @ [NewFlintlockClient fd opts] @ es @ [ServiceClose s'])"
    if "list_all reads_secret ss" "client_made E (h @ ss) fd opts" "?R (h @ ss @ [NewFlintlockClient fd opts]) es"
    for ss fd opts es s'
    using that(3) br_delete [OF that(1,2)] by auto
  show ?thesis
    unfolding MachineReconciler_reconcileDelete_def
    using br_unconnected [of "[]" E h] service_region_trace [where R = ?R, OF body run]
    by (auto split: outcome.split sum.split)
qed

lemma reconcileNormal_trace:
  assumes "finalizer_laws E"
  shows "\<exists>es. snd (snd (MachineReconciler_reconcileNormal E m h)) = h @ es \<and> body_run E h es"
proof -
  let ?R = "\<lambda>h' es. \<exists>s gs es'. es = gs @ es' \<and> (gs = [] \<or> gs = [ServiceGet s]) \<and> normal_rest E (h' @ gs) es'"
  have body: "\<exists>es. snd (snd (normal_with_service E fd svc m h')) = h' @ es \<and> ?R h' es" for fd svc h'
    using normal_with_service_trace [OF assms, of fd svc m h'] by auto
  have run: "body_run E h (ss @ [NewFlintlockClient fd opts] @ es @ [ServiceClose s'])"
    if prems: "list_all reads_secret ss" "client_made E (h @ ss) fd opts" "?R (h @ ss @ [NewFlintlockClient fd opts]) es"
    for ss fd opts es s'
  proof -
    obtain s gs es' where "es = gs @ es'" "gs = [] \<or> gs = [ServiceGet s]"
      "normal_rest E (h @ ss @ [NewFlintlockClient fd opts] @ gs) es'" using prems(3) by auto
    with br_normal [OF prems(1,2) this(2,3)] show ?thesis by simp
  qed
  show ?thesis
    unfolding MachineReconciler_reconcileNormal_def
    using br_unconnected [of "[]" E h] service_region_trace [where R = ?R, OF body run]
    by (auto split: outcome.split sum.split)
qed

lemma machine_body_trace:
  assumes "finalizer_laws E"
  shows "\<exists>es. snd (snd (machine_body E req h f)) = (h @ machine_preamble req f) @ es \<and>
    body_run E (h @ machine_preamble req f) es"
  unfolding machine_body_def
  using reconcileDelete_trace reconcileNormal_trace [OF assms] by (simp only: split: if_split) blast

lemma machine_run_legal:
  assumes "finalizer_laws E"
  shows "\<exists>es. snd (MachineReconciler_Reconcile E req h) = h @ es \<and> legal_run E h es"
proof (cases "\<exists>f. machine_admitted E req h f")
  case False
  then show ?thesis using machine_Reconcile_skipped(1) lr_skip by blast
next
  case True
  then obtain f where f: "machine_admitted E req h f" by blast
  obtain es where es: "snd (snd (machine_body E req h f)) = (h @ machine_preamble req f) @ es"
    "body_run E (h @ machine_preamble req f) es"
    using machine_body_trace [OF assms] by blast
  have "list_all reads_only (machine_preamble req f)" by simp
  from lr_run [OF this es(2)] show ?thesis
    using machine_Reconcile_admitted [OF f] es(1) by (auto simp: call_eqs(1))
qed

end
