(* ===== verification/Scope_Heap.thy ===== *)
theory Scope_Heap
  imports Deep_Copy Machine_Controller
begin

text \<open>
  The machine scope in memory. \<open>Machine_Scope\<close> and \<open>Machine_Controller\<close> pass the MicrovmMachine of a scope
  by value; the code holds a pointer to it and writes through the pointer, into the label map of its
  spec, and it stores pointers to variables of another package in it. Here the methods that write are
  given on the heap of \<open>Go_Heap\<close>, and the locale \<open>scope_write\<close> is the contract that ties them to the
  methods on values: the same object results, and no other object in memory changes unless it shares
  one of the few cells a method may write.
\<close>

section \<open>The methods on the heap\<close>

definition machine_at :: "cell heap \<Rightarrow> addr \<Rightarrow> MicrovmMachine_h" where
  "machine_at h p = deref MicrovmMachine_cell h p"

definition write_machine :: "(MicrovmMachine_h \<Rightarrow> MicrovmMachine_h) \<Rightarrow> addr \<Rightarrow> cell heap \<Rightarrow> cell heap" where
  "write_machine f p h = store p (O_MicrovmMachine (f (machine_at h p))) h"

definition SetProviderID_h :: "string \<Rightarrow> string \<Rightarrow> addr \<Rightarrow> cell heap \<Rightarrow> cell heap" where
  "SetProviderID_h failureDomain mvmUID p h =
     (let (providerID, h1) = new_cell (C_string (ProviderPrefix @ failureDomain @ ''/'' @ mvmUID)) h
      in write_machine (\<lambda>x. x\<lparr>hmm_Spec := (hmm_Spec x)\<lparr>hms_ProviderID := Some providerID\<rparr>\<rparr>) p h1)"

definition GetMicrovmSpec_h :: "addr \<Rightarrow> cell heap \<Rightarrow> VMSpec_h" where
  "GetMicrovmSpec_h p h = hms_VMSpec (hmm_Spec (machine_at h p))"

text \<open>\<open>GetLabels\<close> makes a map, forgets it when the spec has one, and writes into the one it has then.\<close>

definition GetLabels_h :: "MachineScope \<Rightarrow> addr \<Rightarrow> cell heap \<Rightarrow> addr \<times> cell heap" where
  "GetLabels_h m p h =
     (let (made, h1) = new_cell (C_stringmap Map.empty) h;
          labels = (case hvm_Labels (GetMicrovmSpec_h p h1) of Some a \<Rightarrow> a | None \<Rightarrow> made)
      in (labels, store labels (C_stringmap ((deref string_map_cell h1 labels)
                    (''cluster-name'' \<mapsto> MachineScope_ClusterName m))) h1))"

definition SetConditions_h :: "gslice \<Rightarrow> addr \<Rightarrow> cell heap \<Rightarrow> cell heap" where
  "SetConditions_h cs = write_machine (\<lambda>x. x\<lparr>hmm_Status := (hmm_Status x)\<lparr>hmst_Conditions := cs\<rparr>\<rparr>)"

definition set_ready_h :: "bool \<Rightarrow> addr \<Rightarrow> cell heap \<Rightarrow> cell heap" where
  "set_ready_h b = write_machine (\<lambda>x. x\<lparr>hmm_Status := (hmm_Status x)\<lparr>hmst_Ready := b\<rparr>\<rparr>)"

text \<open>
  The states of a microvm are variables of the package \<open>microvm\<close>, at the addresses \<open>G\<close>; the status points
  to the variable itself. The functions \<open>conditions.MarkTrue\<close> and \<open>MarkFalse\<close> are parameters.
\<close>

type_synonym vm_globals = "VMState \<Rightarrow> addr"
type_synonym mark_true = "ConditionType \<Rightarrow> addr \<Rightarrow> cell heap \<Rightarrow> cell heap"
type_synonym mark_false = "ConditionType \<Rightarrow> string \<Rightarrow> ConditionSeverity \<Rightarrow> string \<Rightarrow> addr \<Rightarrow> cell heap \<Rightarrow> cell heap"

definition set_vmstate_h :: "vm_globals \<Rightarrow> VMState \<Rightarrow> addr \<Rightarrow> cell heap \<Rightarrow> cell heap" where
  "set_vmstate_h G v = write_machine (\<lambda>x. x\<lparr>hmm_Status := (hmm_Status x)\<lparr>hmst_VMState := Some (G v)\<rparr>\<rparr>)"

definition SetReady_h :: "mark_true \<Rightarrow> addr \<Rightarrow> cell heap \<Rightarrow> cell heap" where
  "SetReady_h markTrue p h = set_ready_h True p (markTrue MicrovmReadyCondition p h)"

definition SetNotReady_h ::
  "mark_false \<Rightarrow> string \<Rightarrow> ConditionSeverity \<Rightarrow> string \<Rightarrow> addr \<Rightarrow> cell heap \<Rightarrow> cell heap" where
  "SetNotReady_h markFalse reason severity message p h =
     set_ready_h False p (markFalse MicrovmReadyCondition reason severity message p h)"

section \<open>What a scope in memory stands for\<close>

definition scope_at :: "MachineScope \<Rightarrow> cell heap \<Rightarrow> addr \<Rightarrow> MachineScope" where
  "scope_at m h p = m\<lparr>sc_MvmMachine := ly_read MicrovmMachine_layout h (machine_at h p)\<rparr>"

text \<open>The state before and after a microvm's state is known: the variables have their values.\<close>

definition globals_ok :: "vm_globals \<Rightarrow> cell heap \<Rightarrow> bool" where
  "globals_ok G h \<longleftrightarrow>
     list_all (\<lambda>v. load h (G v) = Some (C_vmstate v)) [VMStatePending, VMStateRunning, VMStateFailed, VMStateUnknown]"

text \<open>The label map of the spec is not also the map of the object's own labels or annotations.\<close>

definition labels_private :: "MicrovmMachine_h \<Rightarrow> bool" where
  "labels_private x \<longleftrightarrow> (case hvm_Labels (hms_VMSpec (hmm_Spec x)) of None \<Rightarrow> True
     | Some a \<Rightarrow> hom_Labels (hmm_ObjectMeta x) \<noteq> Some a \<and> hom_Annotations (hmm_ObjectMeta x) \<noteq> Some a)"

definition machine_ok :: "vm_globals \<Rightarrow> cell heap \<Rightarrow> addr \<Rightarrow> bool" where
  "machine_ok G h p \<longleftrightarrow> typed MicrovmMachine_cell h p \<and> ly_wt MicrovmMachine_layout h (machine_at h p) \<and>
     labels_private (machine_at h p) \<and> globals_ok G h"

text \<open>The cells a method may write: the object, the label map of its spec and its array of conditions.\<close>

definition touched :: "cell heap \<Rightarrow> addr \<Rightarrow> addr set" where
  "touched h p = {p} \<union> set_option (hvm_Labels (GetMicrovmSpec_h p h)) \<union>
     (case hmst_Conditions (hmm_Status (machine_at h p)) of SNil \<Rightarrow> {} | Slice a off n \<Rightarrow> {a})"

section \<open>The contract of a method\<close>

locale scope_write =
  fixes G :: vm_globals and opr :: "MachineScope \<Rightarrow> addr \<Rightarrow> cell heap \<Rightarrow> cell heap" and F :: "MachineScope \<Rightarrow> MachineScope"
  assumes ok: "machine_ok G h p \<Longrightarrow> machine_ok G (opr m p h) p"
    and refines: "machine_ok G h p \<Longrightarrow> scope_at m (opr m p h) p = F (scope_at m h p)"
    and frame: "machine_ok G h p \<Longrightarrow> b < length h \<Longrightarrow> b \<notin> touched h p \<Longrightarrow> load (opr m p h) b = load h b"
    and fresh: "machine_ok G h p \<Longrightarrow> touched (opr m p h) p \<subseteq> touched h p \<union> {length h..}"
    and grows: "machine_ok G h p \<Longrightarrow> length h \<le> length (opr m p h)"
begin

text \<open>An object that owns none of these cells does not change.\<close>

lemma others_kept:
  assumes "machine_ok G h p" "memory_layout M" "ly_wt M h y" "ly_owned M h y \<inter> touched h p = {}"
  shows "ly_wt M (opr m p h) y \<and> ly_read M (opr m p h) y = ly_read M h y \<and> ly_owned M (opr m p h) y = ly_owned M h y"
proof (rule memory_layout.local [OF assms(2,3)])
  show "agree (ly_owned M h y) h (opr m p h)"
    using frame [OF assms(1)] memory_layout.owned_allocated [OF assms(2,3)] assms(4) by (auto simp: agree_def)
qed

end

lemma scope_write_comp:
  assumes "scope_write G f F" "scope_write G g H"
  shows "scope_write G (\<lambda>m p h. g m p (f m p h)) (\<lambda>m. H (F m))"
proof -
  note f = scope_write.ok [OF assms(1)] scope_write.refines [OF assms(1)] scope_write.frame [OF assms(1)]
    scope_write.fresh [OF assms(1)] scope_write.grows [OF assms(1)]
  note g = scope_write.ok [OF assms(2)] scope_write.refines [OF assms(2)] scope_write.frame [OF assms(2)]
    scope_write.fresh [OF assms(2)] scope_write.grows [OF assms(2)]
  show ?thesis
  proof
    fix h p m b
    assume ok: "machine_ok G h p"
    note ok' = f(1) [OF ok, of m]
    show "machine_ok G (g m p (f m p h)) p" using g(1) [OF ok'] .
    show "scope_at m (g m p (f m p h)) p = H (F (scope_at m h p))" using f(2) [OF ok] g(2) [OF ok'] by simp
    show "length h \<le> length (g m p (f m p h))" using f(5) [OF ok] g(5) [OF ok'] le_trans by blast
    show "touched (g m p (f m p h)) p \<subseteq> touched h p \<union> {length h..}"
      using f(4) [OF ok, of m] f(5) [OF ok, of m] g(4) [OF ok', of m] by fastforce
    assume b: "b < length h" "b \<notin> touched h p"
    then have "b \<notin> touched (f m p h) p" "b < length (f m p h)" using f(4) [OF ok, of m] f(5) [OF ok, of m] by fastforce+
    then show "load (g m p (f m p h)) b = load h b" using f(3) [OF ok b] g(3) [OF ok'] by simp
  qed
qed

section \<open>The parts of a machine in memory\<close>

abbreviation "keys_layout \<equiv> slice_layout key_array VMSSHPublicKey_layout"
abbreviation "string_ptr \<equiv> ptr_layout string_cell (flat_layout :: (string, string, cell) layout)"
abbreviation "vmstate_ptr \<equiv> ptr_layout vmstate_cell (flat_layout :: (VMState, VMState, cell) layout)"
abbreviation "reason_ptr \<equiv> ptr_layout status_error_cell (flat_layout :: (string, string, cell) layout)"
abbreviation "labels_ptr \<equiv> ptr_layout string_map_cell (flat_layout :: (string \<rightharpoonup> string, string \<rightharpoonup> string, cell) layout)"
abbreviation "interfaces_layout \<equiv> slice_layout interface_array (flat_layout :: (NetworkInterface, NetworkInterface, cell) layout)"
abbreviation "addresses_layout \<equiv> slice_layout address_array (flat_layout :: (MachineAddress, MachineAddress, cell) layout)"
abbreviation "conditions_layout \<equiv> slice_layout condition_array (flat_layout :: (Condition, Condition, cell) layout)"

lemma machine_wt:
  "ly_wt MicrovmMachine_layout h x \<longleftrightarrow> ly_wt ObjectMeta_layout h (hmm_ObjectMeta x) \<and>
     ly_wt labels_ptr h (hvm_Labels (hms_VMSpec (hmm_Spec x))) \<and>
     ly_wt interfaces_layout h (hvm_NetworkInterfaces (hms_VMSpec (hmm_Spec x))) \<and>
     ly_wt keys_layout h (hms_SSHPublicKeys (hmm_Spec x)) \<and> ly_wt string_ptr h (hms_ProviderID (hmm_Spec x)) \<and>
     ly_wt vmstate_ptr h (hmst_VMState (hmm_Status x)) \<and> ly_wt addresses_layout h (hmst_Addresses (hmm_Status x)) \<and>
     ly_wt reason_ptr h (hmst_FailureReason (hmm_Status x)) \<and> ly_wt string_ptr h (hmst_FailureMessage (hmm_Status x)) \<and>
     ly_wt conditions_layout h (hmst_Conditions (hmm_Status x))"
  by (simp add: MicrovmMachine_layout_def MicrovmMachineSpec_layout_def MicrovmMachineStatus_layout_def VMSpec_layout_def
      struct_layout_def pair_layout_def) (simp add: flat_layout_def)

lemma machine_read:
  "ly_read MicrovmMachine_layout h x =
     \<lparr>mm_TypeMeta = hmm_TypeMeta x, mm_ObjectMeta = ly_read ObjectMeta_layout h (hmm_ObjectMeta x),
      mm_Spec = \<lparr>ms_VMSpec = \<lparr>vm_Labels = ly_read labels_ptr h (hvm_Labels (hms_VMSpec (hmm_Spec x))),
           vm_NetworkInterfaces = ly_read interfaces_layout h (hvm_NetworkInterfaces (hms_VMSpec (hmm_Spec x))),
           vm_Other = hvm_Other (hms_VMSpec (hmm_Spec x))\<rparr>,
         ms_SSHPublicKeys = ly_read keys_layout h (hms_SSHPublicKeys (hmm_Spec x)),
         ms_ProviderID = ly_read string_ptr h (hms_ProviderID (hmm_Spec x))\<rparr>,
      mm_Status = \<lparr>mst_Ready = hmst_Ready (hmm_Status x), mst_VMState = ly_read vmstate_ptr h (hmst_VMState (hmm_Status x)),
         mst_Addresses = ly_read addresses_layout h (hmst_Addresses (hmm_Status x)),
         mst_FailureReason = ly_read reason_ptr h (hmst_FailureReason (hmm_Status x)),
         mst_FailureMessage = ly_read string_ptr h (hmst_FailureMessage (hmm_Status x)),
         mst_Conditions = ly_read conditions_layout h (hmst_Conditions (hmm_Status x))\<rparr>\<rparr>"
  by (simp add: MicrovmMachine_layout_def MicrovmMachineSpec_layout_def MicrovmMachineStatus_layout_def VMSpec_layout_def
      struct_layout_def pair_layout_def) (simp add: flat_layout_def)

lemma part_layouts:
  "memory_layout ObjectMeta_layout" "memory_layout labels_ptr" "memory_layout interfaces_layout" "memory_layout keys_layout"
  "memory_layout string_ptr" "memory_layout vmstate_ptr" "memory_layout addresses_layout" "memory_layout reason_ptr"
  "memory_layout conditions_layout"
proof -
  have flat: "memory_layout flat_layout" by (rule deep_copier.axioms(1)) (rule flat_copier)
  note copies = copies_okD [OF fx_copies_ok]
  show "memory_layout labels_ptr" "memory_layout interfaces_layout" "memory_layout string_ptr" "memory_layout vmstate_ptr"
    "memory_layout addresses_layout" "memory_layout reason_ptr" "memory_layout conditions_layout"
    by (intro ptr_layoutI slice_layoutI flat)+
  show "memory_layout keys_layout" by (intro slice_layoutI deep_copier.axioms(1) [OF copies(6)])
  show "memory_layout ObjectMeta_layout" by (rule deep_copier.axioms(1) [OF copies(1)])
qed

text \<open>A cell of one type is no part of a value of another.\<close>

lemma ptr_other:
  assumes "ly_wt (ptr_layout A flat_layout) h q" "load h b = Some c" "ct_un A c = None"
  shows "b \<notin> ly_owned (ptr_layout A flat_layout) h q"
  using assms by (auto simp: ptr_layout_def flat_layout_def typed_def split: option.splits)

lemma slice_other:
  assumes "ly_wt (slice_layout A flat_layout) h s" "load h b = Some c" "ct_un A c = None"
  shows "b \<notin> ly_owned (slice_layout A flat_layout) h s"
  using assms by (auto simp: slice_layout_def flat_layout_def typed_def split: gslice.splits)

lemma keys_other:
  assumes "ly_wt keys_layout h s" "load h b = Some c" "ct_un key_array c = None" "ct_un string_array c = None"
  shows "b \<notin> ly_owned keys_layout h s"
proof (cases s)
  case (Slice a off n)
  have "b \<notin> ly_owned VMSSHPublicKey_layout h k" if "k \<in> set (window key_array h a off n)" for k
  proof -
    have "ly_wt VMSSHPublicKey_layout h k" using assms(1) that Slice by (simp add: slice_layout_def list_all_iff)
    then have "ly_wt (slice_layout string_array flat_layout) h (hssh_AuthorizedKeys k)"
      by (simp add: VMSSHPublicKey_layout_def struct_layout_def pair_layout_def)
    from slice_other [OF this assms(2,4)] show ?thesis
      by (simp add: VMSSHPublicKey_layout_def struct_layout_def pair_layout_def) (simp add: flat_layout_def)
  qed
  moreover have "b \<noteq> a" using assms(1-3) Slice by (auto simp: slice_layout_def typed_def)
  ultimately show ?thesis using Slice by (auto simp: slice_layout_def)
qed (simp add: slice_layout_def)

lemma meta_other:
  assumes "ly_wt ObjectMeta_layout h x" "load h b = Some c" "ct_un owner_array c = None" "ct_un string_array c = None"
    "ct_un time_cell c = None" "ct_un string_map_cell c = None \<or> hom_Labels x \<noteq> Some b \<and> hom_Annotations x \<noteq> Some b"
  shows "b \<notin> ly_owned ObjectMeta_layout h x"
proof -
  have wt: "ly_wt labels_ptr h (hom_Labels x)" "ly_wt labels_ptr h (hom_Annotations x)"
    "ly_wt (slice_layout owner_array flat_layout) h (hom_OwnerReferences x)"
    "ly_wt (slice_layout string_array flat_layout) h (hom_Finalizers x)" "ly_wt (ptr_layout time_cell flat_layout) h (hom_DeletionTimestamp x)"
    using assms(1) by (simp_all add: ObjectMeta_layout_def struct_layout_def pair_layout_def)
  have "b \<notin> ly_owned labels_ptr h (hom_Labels x)" "b \<notin> ly_owned labels_ptr h (hom_Annotations x)"
    using assms(6) ptr_other [OF wt(1) assms(2)] ptr_other [OF wt(2) assms(2)]
    by (auto simp: ptr_layout_def flat_layout_def split: option.splits)
  moreover note slice_other [OF wt(3) assms(2,3)] slice_other [OF wt(4) assms(2,4)] ptr_other [OF wt(5) assms(2,5)]
  ultimately show ?thesis
    by (simp add: ObjectMeta_layout_def struct_layout_def pair_layout_def) (simp add: flat_layout_def)
qed

lemma un_cells:
  "ct_un MicrovmMachine_cell c = Some x \<longleftrightarrow> c = O_MicrovmMachine x" "ct_un string_map_cell c = Some s \<longleftrightarrow> c = C_stringmap s"
  by (cases c; auto simp: MicrovmMachine_cell_def string_map_cell_def)+

lemma machine_loaded:
  "load h p = Some (O_MicrovmMachine x) \<Longrightarrow> typed MicrovmMachine_cell h p \<and> machine_at h p = x"
  using un_cells(1) [of "O_MicrovmMachine x" x] by (simp add: typed_def machine_at_def deref_def)

lemma machine_at_load:
  assumes "machine_ok G h p"
  shows "load h p = Some (O_MicrovmMachine (machine_at h p))"
proof -
  obtain c x where "load h p = Some c" "ct_un MicrovmMachine_cell c = Some x"
    using assms by (auto simp: machine_ok_def typed_def bind_eq_Some_conv)
  then show ?thesis using machine_loaded by (simp add: un_cells)
qed

text \<open>
  A change of the object alone: new cells may be added and the object be replaced. All parts of the old
  object are as they were.
\<close>

definition same_part :: "('x, 'v, cell) layout \<Rightarrow> cell heap \<Rightarrow> cell heap \<Rightarrow> 'x \<Rightarrow> bool" where
  "same_part M h h' y \<longleftrightarrow> ly_wt M h' y \<and> ly_read M h' y = ly_read M h y"

lemma same_partI:
  assumes "memory_layout M" "ly_wt M h y" "b \<notin> ly_owned M h y" "\<And>a. a < length h \<Longrightarrow> a \<noteq> b \<Longrightarrow> load h' a = load h a"
  shows "same_part M h h' y"
proof -
  have "agree (ly_owned M h y) h h'"
    using assms(3,4) memory_layout.owned_allocated [OF assms(1,2)] unfolding agree_def by blast
  then show ?thesis using memory_layout.local [OF assms(1,2)] unfolding same_part_def by blast
qed

lemma parts_kept:
  fixes x :: MicrovmMachine_h
  assumes "ly_wt MicrovmMachine_layout h x" "load h b = Some c" "\<And>a. a < length h \<Longrightarrow> a \<noteq> b \<Longrightarrow> load h' a = load h a"
    and "(\<exists>y. c = O_MicrovmMachine y) \<or> (\<exists>s. c = C_stringmap s) \<and> hom_Labels (hmm_ObjectMeta x) \<noteq> Some b \<and> hom_Annotations (hmm_ObjectMeta x) \<noteq> Some b"
  shows "same_part ObjectMeta_layout h h' (hmm_ObjectMeta x)"
    "same_part interfaces_layout h h' (hvm_NetworkInterfaces (hms_VMSpec (hmm_Spec x)))"
    "same_part keys_layout h h' (hms_SSHPublicKeys (hmm_Spec x))" "same_part string_ptr h h' (hms_ProviderID (hmm_Spec x))"
    "same_part vmstate_ptr h h' (hmst_VMState (hmm_Status x))" "same_part addresses_layout h h' (hmst_Addresses (hmm_Status x))"
    "same_part reason_ptr h h' (hmst_FailureReason (hmm_Status x))" "same_part string_ptr h h' (hmst_FailureMessage (hmm_Status x))"
    "same_part conditions_layout h h' (hmst_Conditions (hmm_Status x))"
proof -
  have c: "ct_un owner_array c = None" "ct_un string_array c = None" "ct_un time_cell c = None" "ct_un interface_array c = None"
    "ct_un key_array c = None" "ct_un string_cell c = None" "ct_un vmstate_cell c = None" "ct_un address_array c = None"
    "ct_un status_error_cell c = None" "ct_un condition_array c = None"
    "ct_un string_map_cell c = None \<or> hom_Labels (hmm_ObjectMeta x) \<noteq> Some b \<and> hom_Annotations (hmm_ObjectMeta x) \<noteq> Some b"
    using assms(4) by (auto simp: cell_type_defs)
  note wt = assms(1) [unfolded machine_wt]
  note same = same_partI [of _ h _ b h', OF _ _ _ assms(3)]
  show "same_part ObjectMeta_layout h h' (hmm_ObjectMeta x)"
    using wt by (intro same part_layouts meta_other [OF _ assms(2)] c) auto
  show "same_part interfaces_layout h h' (hvm_NetworkInterfaces (hms_VMSpec (hmm_Spec x)))"
    using wt by (intro same part_layouts slice_other [OF _ assms(2)] c) auto
  show "same_part keys_layout h h' (hms_SSHPublicKeys (hmm_Spec x))"
    using wt by (intro same part_layouts keys_other [OF _ assms(2)] c) auto
  show "same_part string_ptr h h' (hms_ProviderID (hmm_Spec x))" "same_part vmstate_ptr h h' (hmst_VMState (hmm_Status x))"
    "same_part reason_ptr h h' (hmst_FailureReason (hmm_Status x))" "same_part string_ptr h h' (hmst_FailureMessage (hmm_Status x))"
    using wt by (intro same part_layouts ptr_other [OF _ assms(2)] c; auto)+
  show "same_part addresses_layout h h' (hmst_Addresses (hmm_Status x))" "same_part conditions_layout h h' (hmst_Conditions (hmm_Status x))"
    using wt by (intro same part_layouts slice_other [OF _ assms(2)] c; auto)+
qed

lemma globals_kept:
  assumes "globals_ok G h" "load h b = Some c" "\<And>v. c \<noteq> C_vmstate v" "\<And>a. a < length h \<Longrightarrow> a \<noteq> b \<Longrightarrow> load h' a = load h a"
  shows "globals_ok G h'"
proof -
  have "load h' a = Some (C_vmstate v)" if "load h a = Some (C_vmstate v)" for a v
  proof -
    have "a < length h" "a \<noteq> b" using that assms(2,3) by (auto simp: load_def split: if_splits)
    then show ?thesis using assms(4) that by simp
  qed
  then show ?thesis using assms(1) by (simp add: globals_ok_def)
qed

lemma object_write:
  fixes G h p x' cs
  defines "h' \<equiv> store p (O_MicrovmMachine x') (h @ cs)" and "x \<equiv> machine_at h p"
  assumes "machine_ok G h p" "hmm_ObjectMeta x' = hmm_ObjectMeta x" "hms_VMSpec (hmm_Spec x') = hms_VMSpec (hmm_Spec x)"
    and "ly_wt MicrovmMachine_layout h' x'"
  shows "machine_at h' p = x'" "machine_ok G h' p"
proof -
  note old = machine_at_load [OF assms(3)]
  have "p < length (h @ cs)" using old by (auto simp: load_def split: if_splits)
  then have "load h' p = Some (O_MicrovmMachine x')" by (simp add: h'_def load_store)
  note new = machine_loaded [OF this]
  then show at: "machine_at h' p = x'" ..
  have other: "load h' a = load h a" if "a < length h" "a \<noteq> p" for a
    using that by (simp add: h'_def load_def store_def nth_append)
  have "globals_ok G h'" using assms(3) by (intro globals_kept [OF _ old _ other]) (auto simp: machine_ok_def)
  moreover have "labels_private x' = labels_private x" unfolding labels_private_def assms(4,5) ..
  ultimately show "machine_ok G h' p" using assms(3,6) new by (simp add: machine_ok_def x_def)
qed

lemma other_cells: "a < length h \<Longrightarrow> a \<noteq> p \<Longrightarrow> load (store p c (h @ cs)) a = load h a"
  by (simp add: load_def store_def nth_append)

lemma object_parts:
  fixes G h p c cs
  defines "h' \<equiv> store p c (h @ cs)" and "x \<equiv> machine_at h p"
  assumes "machine_ok G h p"
  shows "same_part ObjectMeta_layout h h' (hmm_ObjectMeta x)" "same_part labels_ptr h h' (hvm_Labels (hms_VMSpec (hmm_Spec x)))"
    "same_part interfaces_layout h h' (hvm_NetworkInterfaces (hms_VMSpec (hmm_Spec x)))"
    "same_part keys_layout h h' (hms_SSHPublicKeys (hmm_Spec x))" "same_part string_ptr h h' (hms_ProviderID (hmm_Spec x))"
    "same_part vmstate_ptr h h' (hmst_VMState (hmm_Status x))" "same_part addresses_layout h h' (hmst_Addresses (hmm_Status x))"
    "same_part reason_ptr h h' (hmst_FailureReason (hmm_Status x))" "same_part string_ptr h h' (hmst_FailureMessage (hmm_Status x))"
    "same_part conditions_layout h h' (hmst_Conditions (hmm_Status x))"
proof -
  note ld = machine_at_load [OF assms(3), folded x_def]
  have wt: "ly_wt MicrovmMachine_layout h x" using assms(3) by (simp add: machine_ok_def x_def)
  note parts = parts_kept [OF wt ld, of h', unfolded h'_def, OF other_cells disjI1]
  show "same_part ObjectMeta_layout h h' (hmm_ObjectMeta x)"
    "same_part interfaces_layout h h' (hvm_NetworkInterfaces (hms_VMSpec (hmm_Spec x)))"
    "same_part keys_layout h h' (hms_SSHPublicKeys (hmm_Spec x))" "same_part string_ptr h h' (hms_ProviderID (hmm_Spec x))"
    "same_part vmstate_ptr h h' (hmst_VMState (hmm_Status x))" "same_part addresses_layout h h' (hmst_Addresses (hmm_Status x))"
    "same_part reason_ptr h h' (hmst_FailureReason (hmm_Status x))" "same_part string_ptr h h' (hmst_FailureMessage (hmm_Status x))"
    "same_part conditions_layout h h' (hmst_Conditions (hmm_Status x))"
    unfolding h'_def by (rule parts; blast)+
  show "same_part labels_ptr h h' (hvm_Labels (hms_VMSpec (hmm_Spec x)))"
    unfolding h'_def
    by (rule same_partI [OF part_layouts(2) _ ptr_other [OF _ ld] other_cells])
       (use wt in \<open>simp_all add: machine_wt string_map_cell_def\<close>)
qed

section \<open>The methods keep the contract\<close>

text \<open>A method that replaces the object, after adding cells, and keeps its metadata and its microvm spec.\<close>

definition replaces :: "cell heap \<Rightarrow> addr \<Rightarrow> cell heap \<Rightarrow> MicrovmMachine_h \<Rightarrow> bool" where
  "replaces h p h' x' \<longleftrightarrow> (\<exists>cs. h' = store p (O_MicrovmMachine x') (h @ cs)) \<and>
     hmm_ObjectMeta x' = hmm_ObjectMeta (machine_at h p) \<and> hms_VMSpec (hmm_Spec x') = GetMicrovmSpec_h p h \<and>
     ly_wt MicrovmMachine_layout h' x' \<and>
     (case hmst_Conditions (hmm_Status x') of SNil \<Rightarrow> True | Slice a off n \<Rightarrow> a \<in> touched h p \<or> length h \<le> a)"

lemma replaces_scope_write:
  assumes "\<And>m p h. machine_ok G h p \<Longrightarrow> replaces h p (opr m p h) (x' m p h) \<and>
      m\<lparr>sc_MvmMachine := ly_read MicrovmMachine_layout (opr m p h) (x' m p h)\<rparr> = F (scope_at m h p)"
  shows "scope_write G opr F"
proof
  fix h p m b
  assume ok: "machine_ok G h p"
  obtain cs where h': "opr m p h = store p (O_MicrovmMachine (x' m p h)) (h @ cs)" and r: "replaces h p (opr m p h) (x' m p h)"
    using assms [OF ok, of m] unfolding replaces_def by blast
  have x': "hmm_ObjectMeta (x' m p h) = hmm_ObjectMeta (machine_at h p)"
    "hms_VMSpec (hmm_Spec (x' m p h)) = hms_VMSpec (hmm_Spec (machine_at h p))"
    "ly_wt MicrovmMachine_layout (opr m p h) (x' m p h)"
    using r by (simp_all add: replaces_def GetMicrovmSpec_h_def)
  note new = object_write [OF ok x'(1,2), of cs, folded h', OF x'(3)]
  show "machine_ok G (opr m p h) p" by (rule new(2))
  show "scope_at m (opr m p h) p = F (scope_at m h p)" using assms [OF ok, of m] by (simp add: scope_at_def new(1))
  show "length h \<le> length (opr m p h)" by (simp add: h')
  have "p \<in> touched h p" by (simp add: touched_def)
  then show "touched (opr m p h) p \<subseteq> touched h p \<union> {length h..}"
    using r by (auto simp: replaces_def touched_def GetMicrovmSpec_h_def new(1) split: gslice.splits)
  assume "b < length h" "b \<notin> touched h p"
  then show "load (opr m p h) b = load h b" unfolding h' by (intro other_cells) (auto simp: touched_def)
qed

lemma replacesI:
  assumes "h' = store p (O_MicrovmMachine x') (h @ cs)" "hmm_ObjectMeta x' = hmm_ObjectMeta (machine_at h p)"
    "hms_VMSpec (hmm_Spec x') = hms_VMSpec (hmm_Spec (machine_at h p))" "ly_wt MicrovmMachine_layout h' x'"
    "case hmst_Conditions (hmm_Status x') of SNil \<Rightarrow> True | Slice a off n \<Rightarrow> a \<in> touched h p \<or> length h \<le> a"
  shows "replaces h p h' x'"
  using assms by (auto simp: replaces_def GetMicrovmSpec_h_def)

lemmas parts_simps = machine_wt machine_read same_part_def
lemmas scope_value_simps = scope_at_def update_MvmMachine_def

lemma conditions_touched:
  "case hmst_Conditions (hmm_Status (machine_at h p)) of SNil \<Rightarrow> True | Slice a off n \<Rightarrow> a \<in> touched h p \<or> length h \<le> a"
  by (simp add: touched_def split: gslice.split)

lemma set_ready_write: "scope_write G (\<lambda>m. set_ready_h b) (update_MvmMachine (set_machine_ready b))"
proof (rule replaces_scope_write)
  fix m p h
  assume ok: "machine_ok G h p"
  let ?x = "machine_at h p" let ?x' = "?x\<lparr>hmm_Status := (hmm_Status ?x)\<lparr>hmst_Ready := b\<rparr>\<rparr>"
  obtain h' where h': "set_ready_h b p h = h'" "h' = store p (O_MicrovmMachine ?x') (h @ [])"
    by (simp add: set_ready_h_def write_machine_def)
  note parts = object_parts [OF ok, of "O_MicrovmMachine ?x'" "[]", folded h'(2), unfolded same_part_def]
  have "replaces h p h' ?x'" by (rule replacesI [OF h'(2)]) (use parts conditions_touched in \<open>simp_all add: machine_wt\<close>)
  then show "replaces h p (set_ready_h b p h) ?x' \<and>
      m\<lparr>sc_MvmMachine := ly_read MicrovmMachine_layout (set_ready_h b p h) ?x'\<rparr> = update_MvmMachine (set_machine_ready b) (scope_at m h p)"
    using parts by (simp add: h'(1) scope_value_simps set_machine_ready_def machine_read)
qed

lemma global_loaded:
  assumes "machine_ok G h p" "v \<in> {VMStatePending, VMStateRunning, VMStateFailed, VMStateUnknown}"
  shows "load h (G v) = Some (C_vmstate v)" "G v < length h" "G v \<noteq> p"
  using assms machine_at_load [OF assms(1)] by (auto simp: machine_ok_def globals_ok_def load_def split: if_splits)

lemma set_vmstate_write:
  assumes "v \<in> {VMStatePending, VMStateRunning, VMStateFailed, VMStateUnknown}"
  shows "scope_write G (\<lambda>m. set_vmstate_h G v) (update_MvmMachine (set_vmstate v))"
proof (rule replaces_scope_write)
  fix m p h
  assume ok: "machine_ok G h p"
  let ?x = "machine_at h p" let ?x' = "?x\<lparr>hmm_Status := (hmm_Status ?x)\<lparr>hmst_VMState := Some (G v)\<rparr>\<rparr>"
  obtain h' where h': "set_vmstate_h G v p h = h'" "h' = store p (O_MicrovmMachine ?x') (h @ [])"
    by (simp add: set_vmstate_h_def write_machine_def)
  note parts = object_parts [OF ok, of "O_MicrovmMachine ?x'" "[]", folded h'(2), unfolded same_part_def]
  have "load h' (G v) = Some (C_vmstate v)"
    using global_loaded [OF ok assms] other_cells unfolding h'(2) by metis
  then have new: "ly_wt vmstate_ptr h' (Some (G v))" "ly_read vmstate_ptr h' (Some (G v)) = Some v"
    by (simp_all add: ptr_layout_def flat_layout_def typed_def deref_def vmstate_cell_def)
  have "replaces h p h' ?x'" by (rule replacesI [OF h'(2)]) (use parts new conditions_touched in \<open>simp_all add: machine_wt\<close>)
  then show "replaces h p (set_vmstate_h G v p h) ?x' \<and>
      m\<lparr>sc_MvmMachine := ly_read MicrovmMachine_layout (set_vmstate_h G v p h) ?x'\<rparr> = update_MvmMachine (set_vmstate v) (scope_at m h p)"
    using parts new by (simp add: h'(1) scope_value_simps set_vmstate_def machine_read)
qed

lemma machine_bound: "machine_ok G h p \<Longrightarrow> p < length h"
  using machine_at_load [of G h p] by (auto simp: load_def split: if_splits)

lemma machine_at_grown: "machine_ok G h p \<Longrightarrow> machine_at (h @ cs) p = machine_at h p"
  using machine_bound [of G h p] load_prefix [of h "h @ cs" p] by (simp add: machine_at_def deref_def)

lemma SetProviderID_write: "scope_write G (\<lambda>m. SetProviderID_h fd uid) (SetProviderID fd uid)"
proof (rule replaces_scope_write)
  fix m p h
  assume ok: "machine_ok G h p"
  let ?x = "machine_at h p" and ?id = "ProviderPrefix @ fd @ ''/'' @ uid"
  let ?x' = "?x\<lparr>hmm_Spec := (hmm_Spec ?x)\<lparr>hms_ProviderID := Some (length h)\<rparr>\<rparr>"
  obtain h' where h': "SetProviderID_h fd uid p h = h'" "h' = store p (O_MicrovmMachine ?x') (h @ [C_string ?id])"
    using machine_at_grown [OF ok] by (simp add: SetProviderID_h_def write_machine_def new_cell_def)
  note parts = object_parts [OF ok, of "O_MicrovmMachine ?x'" "[C_string ?id]", folded h'(2), unfolded same_part_def]
  have "load h' (length h) = Some (C_string ?id)"
    using machine_bound [OF ok] by (simp add: h'(2) load_def store_def nth_append list_update_append)
  then have new: "ly_wt string_ptr h' (Some (length h))" "ly_read string_ptr h' (Some (length h)) = Some ?id"
    by (simp_all add: ptr_layout_def flat_layout_def typed_def deref_def string_cell_def)
  have "replaces h p h' ?x'" by (rule replacesI [OF h'(2)]) (use parts new conditions_touched in \<open>simp_all add: machine_wt\<close>)
  then show "replaces h p (SetProviderID_h fd uid p h) ?x' \<and>
      m\<lparr>sc_MvmMachine := ly_read MicrovmMachine_layout (SetProviderID_h fd uid p h) ?x'\<rparr> = SetProviderID fd uid (scope_at m h p)"
    using parts new by (simp add: h'(1) scope_value_simps SetProviderID_def set_provider_id_def machine_read)
qed

text \<open>\<open>GetLabels\<close> leaves the object and writes into the label map: the one of the spec if it has one.\<close>

lemma GetLabels_shared:
  assumes "machine_ok G h p" "hvm_Labels (GetMicrovmSpec_h p h) = Some a"
  obtains s where "load h a = Some (C_stringmap s)" "a \<noteq> p" "a < length h"
    "ly_read labels_ptr h (Some a) = Some s"
    "GetLabels_h m p h = (a, store a (C_stringmap (s(''cluster-name'' \<mapsto> MachineScope_ClusterName m))) (h @ [C_stringmap Map.empty]))"
proof -
  have wt: "ly_wt labels_ptr h (Some a)" using assms by (simp add: machine_ok_def machine_wt GetMicrovmSpec_h_def)
  then obtain c s where "load h a = Some c" "ct_un string_map_cell c = Some s"
    by (auto simp: ptr_layout_def typed_def bind_eq_Some_conv)
  then have a: "load h a = Some (C_stringmap s)" by (simp add: un_cells)
  then have l: "a < length h" by (auto simp: load_def split: if_splits)
  have d: "deref string_map_cell h' a = s" if "load h' a = Some (C_stringmap s)" for h'
    using that by (simp add: deref_def string_map_cell_def)
  have "load (h @ [C_stringmap Map.empty]) a = load h a" using l by (simp add: load_prefix)
  then have "GetLabels_h m p h = (a, store a (C_stringmap (s(''cluster-name'' \<mapsto> MachineScope_ClusterName m))) (h @ [C_stringmap Map.empty]))"
    using assms d a machine_at_grown [OF assms(1)] by (simp add: GetLabels_h_def new_cell_def GetMicrovmSpec_h_def)
  moreover have "a \<noteq> p" using a machine_at_load [OF assms(1)] by auto
  ultimately show ?thesis using that a l d by (simp add: ptr_layout_def flat_layout_def)
qed

lemma GetLabels_made:
  assumes "machine_ok G h p" "hvm_Labels (GetMicrovmSpec_h p h) = None"
  shows "GetLabels_h m p h = (length h, h @ [C_stringmap (Map.empty(''cluster-name'' \<mapsto> MachineScope_ClusterName m))])"
proof -
  have "deref string_map_cell (h @ [C_stringmap Map.empty]) (length h) = Map.empty"
    by (simp add: deref_def load_def string_map_cell_def)
  then show ?thesis
    using assms machine_at_grown [OF assms(1)]
    by (simp add: GetLabels_h_def new_cell_def GetMicrovmSpec_h_def store_def list_update_append)
qed

lemma label_map_write:
  fixes s' cs
  assumes ok: "machine_ok G h p" and a: "hvm_Labels (GetMicrovmSpec_h p h) = Some a" "load h a = Some (C_stringmap s)"
  defines "h' \<equiv> store a (C_stringmap s') (h @ cs)"
  shows "machine_ok G h' p" "machine_at h' p = machine_at h p"
    "scope_at m h' p = update_MvmMachine (set_vm_labels (Some s')) (scope_at m h p)"
proof -
  let ?x = "machine_at h p"
  have ne: "a \<noteq> p" and l: "a < length h" using a(2) machine_at_load [OF ok] by (auto simp: load_def split: if_splits)
  have other: "load h' b = load h b" if "b < length h" "b \<noteq> a" for b unfolding h'_def using that by (rule other_cells)
  have "load h' p = Some (O_MicrovmMachine ?x)" using other [OF machine_bound [OF ok]] ne machine_at_load [OF ok] by simp
  note at = machine_loaded [OF this]
  have own_map: "hom_Labels (hmm_ObjectMeta ?x) \<noteq> Some a \<and> hom_Annotations (hmm_ObjectMeta ?x) \<noteq> Some a"
    using ok a(1) by (simp add: machine_ok_def labels_private_def GetMicrovmSpec_h_def)
  have wt: "ly_wt MicrovmMachine_layout h ?x" using ok by (simp add: machine_ok_def)
  note parts = parts_kept [OF wt a(2) other disjI2, unfolded same_part_def]
  have "load h' a = Some (C_stringmap s')" using l by (simp add: h'_def load_store)
  then have new: "ly_wt labels_ptr h' (Some a)" "ly_read labels_ptr h' (Some a) = Some s'"
    by (simp_all add: ptr_layout_def flat_layout_def typed_def deref_def string_map_cell_def)
  have la: "hvm_Labels (hms_VMSpec (hmm_Spec ?x)) = Some a" using a(1) by (simp add: GetMicrovmSpec_h_def)
  have "ly_wt MicrovmMachine_layout h' ?x" using parts own_map new la by (simp add: machine_wt)
  moreover have "globals_ok G h'" using ok by (intro globals_kept [OF _ a(2) _ other]) (auto simp: machine_ok_def)
  ultimately show "machine_ok G h' p" "machine_at h' p = ?x" using ok at by (simp_all add: machine_ok_def)
  show "scope_at m h' p = update_MvmMachine (set_vm_labels (Some s')) (scope_at m h p)"
    using parts own_map new la at by (simp add: scope_value_simps set_vm_labels_def machine_read)
qed

lemma machine_grown:
  assumes ok: "machine_ok G h p"
  shows "machine_ok G (h @ cs) p" "scope_at m (h @ cs) p = scope_at m h p" "touched (h @ cs) p = touched h p"
proof -
  have lay: "memory_layout MicrovmMachine_layout" by (rule deep_copier.axioms(1)) (rule MicrovmMachine_copier [OF fx_copies_ok])
  note at = machine_at_grown [OF ok, of cs]
  have wt: "ly_wt MicrovmMachine_layout h (machine_at h p)" using ok by (simp add: machine_ok_def)
  note same = memory_layout.stable [OF lay wt, of "h @ cs"]
  have ld: "load (h @ cs) b = load h b" if "b < length h" for b using that by (simp add: load_prefix)
  have "load (h @ cs) p = Some (O_MicrovmMachine (machine_at h p))" using machine_at_load [OF ok] ld [OF machine_bound [OF ok]] by simp
  then have "typed MicrovmMachine_cell (h @ cs) p" using machine_loaded by blast
  moreover have "globals_ok G (h @ cs)"
  proof -
    have "load (h @ cs) b = Some c" if "load h b = Some c" for b c using that ld [of b] by (auto simp: load_def split: if_splits)
    then show ?thesis using ok by (simp add: machine_ok_def globals_ok_def)
  qed
  ultimately show "machine_ok G (h @ cs) p" using ok same by (simp add: machine_ok_def at)
  show "scope_at m (h @ cs) p = scope_at m h p" "touched (h @ cs) p = touched h p"
    using same by (simp_all add: scope_at_def at touched_def GetMicrovmSpec_h_def)
qed

lemma GetLabels_write: "scope_write G (\<lambda>m p h. snd (GetLabels_h m p h)) (\<lambda>m. snd (GetLabels m))"
proof
  fix h p m b
  assume ok: "machine_ok G h p"
  have read: "vm_Labels (ms_VMSpec (mm_Spec (sc_MvmMachine (scope_at m h p)))) = ly_read labels_ptr h (hvm_Labels (GetMicrovmSpec_h p h))"
    by (simp add: scope_at_def machine_read GetMicrovmSpec_h_def)
  have name: "MachineScope_ClusterName (scope_at m h p) = MachineScope_ClusterName m"
    by (simp add: scope_at_def MachineScope_ClusterName_def)
  have "machine_ok G (snd (GetLabels_h m p h)) p \<and> scope_at m (snd (GetLabels_h m p h)) p = snd (GetLabels (scope_at m h p)) \<and>
      (b < length h \<longrightarrow> b \<notin> touched h p \<longrightarrow> load (snd (GetLabels_h m p h)) b = load h b) \<and>
      touched (snd (GetLabels_h m p h)) p \<subseteq> touched h p \<union> {length h..} \<and> length h \<le> length (snd (GetLabels_h m p h))"
  proof (cases "hvm_Labels (GetMicrovmSpec_h p h)")
    case None
    then have "ly_read labels_ptr h (hvm_Labels (GetMicrovmSpec_h p h)) = None" by (simp add: ptr_layout_def)
    then show ?thesis using machine_grown [OF ok] GetLabels_made [OF ok None] read
      by (simp add: GetLabels_def load_prefix)
  next
    case (Some a)
    from GetLabels_shared [OF ok Some, of m] obtain s where s: "load h a = Some (C_stringmap s)"
      "ly_read labels_ptr h (Some a) = Some s" "GetLabels_h m p h =
        (a, store a (C_stringmap (s(''cluster-name'' \<mapsto> MachineScope_ClusterName m))) (h @ [C_stringmap Map.empty]))" by metis
    note w = label_map_write [OF ok Some s(1)]
    have "a \<in> touched h p" using Some by (simp add: touched_def)
    then have "load (snd (GetLabels_h m p h)) b = load h b" if "b < length h" "b \<notin> touched h p"
      unfolding s(3) snd_conv using that by (intro other_cells) auto
    moreover have "touched (snd (GetLabels_h m p h)) p = touched h p"
      using w(2) by (simp add: s(3) touched_def GetMicrovmSpec_h_def)
    ultimately show ?thesis using w read name Some s by (simp add: GetLabels_def Let_def)
  qed
  then show "machine_ok G (snd (GetLabels_h m p h)) p" "scope_at m (snd (GetLabels_h m p h)) p = snd (GetLabels (scope_at m h p))"
    "b < length h \<Longrightarrow> b \<notin> touched h p \<Longrightarrow> load (snd (GetLabels_h m p h)) b = load h b"
    "touched (snd (GetLabels_h m p h)) p \<subseteq> touched h p \<union> {length h..}" "length h \<le> length (snd (GetLabels_h m p h))"
    by blast+
qed

text \<open>What \<open>GetLabels\<close> returns: the map it has written into.\<close>

lemma GetLabels_returned:
  assumes ok: "machine_ok G h p"
  shows "deref string_map_cell (snd (GetLabels_h m p h)) (fst (GetLabels_h m p h)) = fst (GetLabels (scope_at m h p))"
proof -
  have read: "vm_Labels (ms_VMSpec (mm_Spec (sc_MvmMachine (scope_at m h p)))) = ly_read labels_ptr h (hvm_Labels (GetMicrovmSpec_h p h))"
    and name: "MachineScope_ClusterName (scope_at m h p) = MachineScope_ClusterName m"
    by (simp_all add: scope_at_def machine_read GetMicrovmSpec_h_def MachineScope_ClusterName_def)
  have d: "deref string_map_cell h' a = s" if "load h' a = Some (C_stringmap s)" for h' a s
    using that by (simp add: deref_def string_map_cell_def)
  show ?thesis
  proof (cases "hvm_Labels (GetMicrovmSpec_h p h)")
    case None
    then have "ly_read labels_ptr h (hvm_Labels (GetMicrovmSpec_h p h)) = None" by (simp add: ptr_layout_def)
    then show ?thesis using GetLabels_made [OF ok None] read name by (simp add: GetLabels_def d load_def)
  next
    case (Some a)
    from GetLabels_shared [OF ok Some, of m] obtain s where "a < length h" "ly_read labels_ptr h (Some a) = Some s"
      "GetLabels_h m p h = (a, store a (C_stringmap (s(''cluster-name'' \<mapsto> MachineScope_ClusterName m))) (h @ [C_stringmap Map.empty]))"
      by metis
    then show ?thesis using read name Some by (simp add: GetLabels_def Let_def d load_store)
  qed
qed

section \<open>Methods that call the conditions package\<close>

lemma scope_write_id: "scope_write G (\<lambda>m p h. h) (\<lambda>m. m)"
  by unfold_locales simp_all

lemma scope_write_if:
  assumes "scope_write G f F" "scope_write G g H"
  shows "scope_write G (\<lambda>m p h. if P (scope_at m h p) then f m p h else g m p h) (\<lambda>m. if P m then F m else H m)"
  using scope_write.ok [OF assms(1)] scope_write.refines [OF assms(1)] scope_write.frame [OF assms(1)]
    scope_write.fresh [OF assms(1)] scope_write.grows [OF assms(1)]
    scope_write.ok [OF assms(2)] scope_write.refines [OF assms(2)] scope_write.frame [OF assms(2)]
    scope_write.fresh [OF assms(2)] scope_write.grows [OF assms(2)]
  by unfold_locales auto

text \<open>
  What is supposed of \<open>MarkTrue\<close> and \<open>MarkFalse\<close>: they change the conditions as \<open>e_MarkTrue\<close> and \<open>e_MarkFalse\<close> do
  and write only the object and its array of conditions.
\<close>

definition marks_ok :: "env \<Rightarrow> vm_globals \<Rightarrow> mark_true \<Rightarrow> mark_false \<Rightarrow> bool" where
  "marks_ok E G markTrue markFalse \<longleftrightarrow>
     (\<forall>t. scope_write G (\<lambda>m. markTrue t) (update_MvmMachine (MarkTrue_Machine E t))) \<and>
     (\<forall>t reason sev msg. scope_write G (\<lambda>m. markFalse t reason sev msg) (update_MvmMachine (MarkFalse_Machine E t reason sev msg)))"

lemma SetReady_write:
  assumes "marks_ok E G markTrue markFalse"
  shows "scope_write G (\<lambda>m. SetReady_h markTrue) (SetReady E)"
proof -
  have "scope_write G (\<lambda>m. markTrue MicrovmReadyCondition) (update_MvmMachine (MarkTrue_Machine E MicrovmReadyCondition))"
    using assms by (simp add: marks_ok_def)
  from scope_write_comp [OF this set_ready_write [of G True]] show ?thesis by (simp add: SetReady_h_def [abs_def] SetReady_def [abs_def])
qed

lemma SetNotReady_write:
  assumes "marks_ok E G markTrue markFalse"
  shows "scope_write G (\<lambda>m. SetNotReady_h markFalse reason sev msg) (SetNotReady E reason sev msg)"
proof -
  have "scope_write G (\<lambda>m. markFalse MicrovmReadyCondition reason sev msg)
      (update_MvmMachine (MarkFalse_Machine E MicrovmReadyCondition reason sev msg))"
    using assms by (simp add: marks_ok_def)
  from scope_write_comp [OF this set_ready_write [of G False]]
  show ?thesis by (simp add: SetNotReady_h_def [abs_def] SetNotReady_def [abs_def])
qed

definition parseMicroVMState_h ::
  "vm_globals \<Rightarrow> mark_true \<Rightarrow> mark_false \<Rightarrow> MicroVMState \<Rightarrow> MachineScope \<Rightarrow> addr \<Rightarrow> cell heap \<Rightarrow> reconciled \<times> cell heap" where
  "parseMicroVMState_h G markTrue markFalse state m p h =
     (case state of
        CREATED \<Rightarrow>
          let h1 = set_vmstate_h G VMStateRunning p h
          in (case GetInstanceID (scope_at m h1 p) of
                Panic e \<Rightarrow> (Panic e, h1)
              | Return _ \<Rightarrow> (Return (zero_Result, None), SetReady_h markTrue p h1))
      | PENDING \<Rightarrow>
          (Return (requeue_later, None),
           SetNotReady_h markFalse MicrovmPendingReason ConditionSeverityInfo '''' p (set_vmstate_h G VMStatePending p h))
      | FAILED \<Rightarrow>
          (Return (zero_Result, Some errMicrovmFailed),
           SetNotReady_h markFalse MicrovmProvisionFailedReason ConditionSeverityError (Error errMicrovmFailed) p
             (set_vmstate_h G VMStateFailed p h))
      | DELETING \<Rightarrow> (Return (requeue_later, None), h)
      | OtherState _ \<Rightarrow>
          (Return (requeue_later, Some errMicrovmUnknownState),
           SetNotReady_h markFalse MicrovmUnknownStateReason ConditionSeverityError (Error errMicrovmUnknownState) p
             (set_vmstate_h G VMStateUnknown p h)))"

lemma parseMicroVMState_write:
  assumes "marks_ok E G markTrue markFalse"
  shows "scope_write G (\<lambda>m p h. snd (parseMicroVMState_h G markTrue markFalse st m p h)) (\<lambda>m. snd (parseMicroVMState E st m))"
proof -
  note not_ready = scope_write_comp [OF set_vmstate_write SetNotReady_write [OF assms]]
  let ?panics = "\<lambda>m. \<exists>e. GetInstanceID m = Panic e"
  have created: "scope_write G (\<lambda>m p h. if ?panics (scope_at m (set_vmstate_h G VMStateRunning p h) p)
        then set_vmstate_h G VMStateRunning p h else SetReady_h markTrue p (set_vmstate_h G VMStateRunning p h))
      (\<lambda>m. if ?panics (update_MvmMachine (set_vmstate VMStateRunning) m) then update_MvmMachine (set_vmstate VMStateRunning) m
        else SetReady E (update_MvmMachine (set_vmstate VMStateRunning) m))"
    using scope_write_comp [OF set_vmstate_write scope_write_if [OF scope_write_id SetReady_write [OF assms], where P = ?panics],
        of VMStateRunning] by simp
  show ?thesis
  proof (cases st)
    case CREATED
    have "(\<lambda>m p h. snd (parseMicroVMState_h G markTrue markFalse st m p h)) =
        (\<lambda>m p h. if ?panics (scope_at m (set_vmstate_h G VMStateRunning p h) p)
          then set_vmstate_h G VMStateRunning p h else SetReady_h markTrue p (set_vmstate_h G VMStateRunning p h))"
      "(\<lambda>m. snd (parseMicroVMState E st m)) =
        (\<lambda>m. if ?panics (update_MvmMachine (set_vmstate VMStateRunning) m) then update_MvmMachine (set_vmstate VMStateRunning) m
          else SetReady E (update_MvmMachine (set_vmstate VMStateRunning) m))"
      by (auto simp: CREATED parseMicroVMState_h_def parseMicroVMState_def Let_def fun_eq_iff split: outcome.split)
    with created show ?thesis by simp
  qed (use not_ready scope_write_id in \<open>simp_all add: parseMicroVMState_h_def parseMicroVMState_def Let_def\<close>)
qed

interpretation labels_write: scope_write G "\<lambda>m p h. snd (GetLabels_h m p h)" "\<lambda>m. snd (GetLabels m)" for G
  by (rule GetLabels_write)

interpretation provider_id_write: scope_write G "\<lambda>m. SetProviderID_h fd uid" "SetProviderID fd uid" for G fd uid
  by (rule SetProviderID_write)

interpretation vmstate_write: scope_write G "\<lambda>m. set_vmstate_h G VMStateRunning" "update_MvmMachine (set_vmstate VMStateRunning)" for G
  by (rule set_vmstate_write) simp

text \<open>The result of \<open>parseMicroVMState\<close> is the one of the method on values, too.\<close>

lemma parseMicroVMState_h_result:
  assumes "machine_ok G h p"
  shows "fst (parseMicroVMState_h G markTrue markFalse st m p h) = fst (parseMicroVMState E st (scope_at m h p))"
  using vmstate_write.refines [OF assms, of m]
  by (simp add: parseMicroVMState_h_def parseMicroVMState_def Let_def split: MicroVMState.split outcome.split)

section \<open>Sequences of calls\<close>

datatype scope_call =
    CallGetLabels
  | CallSetProviderID string string
  | CallSetReady
  | CallSetNotReady string ConditionSeverity string
  | CallParseMicroVMState MicroVMState

fun in_memory :: "vm_globals \<Rightarrow> mark_true \<Rightarrow> mark_false \<Rightarrow> MachineScope \<Rightarrow> addr \<Rightarrow> scope_call \<Rightarrow> cell heap \<Rightarrow> cell heap" where
  "in_memory G T F m p CallGetLabels = (\<lambda>h. snd (GetLabels_h m p h))"
| "in_memory G T F m p (CallSetProviderID fd uid) = SetProviderID_h fd uid p"
| "in_memory G T F m p CallSetReady = SetReady_h T p"
| "in_memory G T F m p (CallSetNotReady reason sev msg) = SetNotReady_h F reason sev msg p"
| "in_memory G T F m p (CallParseMicroVMState st) = (\<lambda>h. snd (parseMicroVMState_h G T F st m p h))"

fun on_values :: "env \<Rightarrow> scope_call \<Rightarrow> MachineScope \<Rightarrow> MachineScope" where
  "on_values E CallGetLabels = (\<lambda>m. snd (GetLabels m))"
| "on_values E (CallSetProviderID fd uid) = SetProviderID fd uid"
| "on_values E CallSetReady = SetReady E"
| "on_values E (CallSetNotReady reason sev msg) = SetNotReady E reason sev msg"
| "on_values E (CallParseMicroVMState st) = (\<lambda>m. snd (parseMicroVMState E st m))"

lemma call_write:
  assumes "marks_ok E G T F"
  shows "scope_write G (\<lambda>m p. in_memory G T F m p call) (on_values E call)"
  using GetLabels_write SetProviderID_write SetReady_write [OF assms] SetNotReady_write [OF assms] parseMicroVMState_write [OF assms]
  by (cases call) simp_all

lemma calls_write:
  assumes "marks_ok E G T F"
  shows "scope_write G (\<lambda>m p. fold (in_memory G T F m p) calls) (fold (on_values E) calls)"
proof (induction calls rule: rev_induct)
  case Nil
  show ?case using scope_write_id by (simp add: id_def)
next
  case (snoc call calls)
  from scope_write_comp [OF snoc call_write [OF assms]] show ?case by (simp add: o_def)
qed

text \<open>
  C17: the methods of the machine scope write through a pointer, and what they leave in memory is what the
  methods on values compute. Take a machine in memory whose spec does not share its label map with
  its own metadata. After any sequence of the writing methods of the scope (\<open>GetLabels\<close>, \<open>SetProviderID\<close>,
  \<open>SetReady\<close>, \<open>SetNotReady\<close>, \<open>parseMicroVMState\<close>) the object in memory stands for the object that the same
  methods on values give, the variables of the package \<open>microvm\<close> that its status points to still have
  their values, and every other object, of any type, that does not own the machine, its label map or
  its array of conditions stands for what it stood for.
\<close>

theorem scope_calls_in_memory:
  assumes "marks_ok E G T F" "machine_ok G h p" "memory_layout M" "ly_wt M h y" "ly_owned M h y \<inter> touched h p = {}"
  shows "let h' = fold (in_memory G T F m p) calls h in
     scope_at m h' p = fold (on_values E) calls (scope_at m h p) \<and> machine_ok G h' p \<and> ly_wt M h' y \<and> ly_read M h' y = ly_read M h y"
  using scope_write.refines [OF calls_write [OF assms(1)] assms(2)] scope_write.ok [OF calls_write [OF assms(1)] assms(2)]
    scope_write.others_kept [OF calls_write [OF assms(1)] assms(2-5)] by (simp add: Let_def)

text \<open>
  C18: \<open>GetLabels\<close> is not a pure accessor. It returns the user's labels with cluster-name set to the name of the
  cluster, overriding a user label of that name. When the machine's spec has a label map, the map it
  returns is that very map: the machine then has the label in its spec, and so has a copy of the spec
  that \<open>GetMicrovmSpec\<close> returned before the call. Otherwise it returns a new map and the machine does not
  change.
\<close>

theorem GetLabels_in_memory:
  assumes "machine_ok G h p"
  shows "case GetLabels_h m p h of (a, h') \<Rightarrow>
    deref string_map_cell h' a =
      (case vm_Labels (GetMicrovmSpec (scope_at m h p)) of None \<Rightarrow> Map.empty | Some ls \<Rightarrow> ls)(''cluster-name'' \<mapsto> MachineScope_ClusterName m) \<and>
    (case hvm_Labels (GetMicrovmSpec_h p h) of
       None \<Rightarrow> length h \<le> a \<and> scope_at m h' p = scope_at m h p
     | Some b \<Rightarrow> a = b \<and> vm_Labels (GetMicrovmSpec (scope_at m h' p)) = Some (deref string_map_cell h' a) \<and>
         vm_Labels (ly_read VMSpec_layout h' (GetMicrovmSpec_h p h)) = Some (deref string_map_cell h' a))"
proof -
  have s: "MachineScope_ClusterName (scope_at m h p) = MachineScope_ClusterName m"
    "vm_Labels (GetMicrovmSpec (scope_at m h p)) = ly_read labels_ptr h (hvm_Labels (GetMicrovmSpec_h p h))"
    by (simp_all add: scope_at_def MachineScope_ClusterName_def GetMicrovmSpec_def machine_read GetMicrovmSpec_h_def)
  have ret: "deref string_map_cell (snd (GetLabels_h m p h)) (fst (GetLabels_h m p h)) =
      (case vm_Labels (GetMicrovmSpec (scope_at m h p)) of None \<Rightarrow> Map.empty | Some ls \<Rightarrow> ls)(''cluster-name'' \<mapsto> MachineScope_ClusterName m)"
    unfolding GetLabels_returned [OF assms] by (simp add: GetLabels_def GetMicrovmSpec_def s(1) Let_def split: option.split)
  show ?thesis
  proof (cases "hvm_Labels (GetMicrovmSpec_h p h)")
    case None
    then show ?thesis using ret GetLabels_made [OF assms None, of m] machine_grown(2) [OF assms] by (simp add: case_prod_unfold)
  next
    case (Some b)
    from GetLabels_shared [OF assms Some, of m] obtain t where t: "load h b = Some (C_stringmap t)"
      "GetLabels_h m p h = (b, store b (C_stringmap (t(''cluster-name'' \<mapsto> MachineScope_ClusterName m))) (h @ [C_stringmap Map.empty]))"
      by metis
    note w = label_map_write(2) [OF assms Some t(1)]
    have "vm_Labels (ly_read VMSpec_layout h' sp) = ly_read labels_ptr h' (hvm_Labels sp)" for h' sp
      by (simp add: VMSpec_layout_def struct_layout_def pair_layout_def)
    moreover have "GetMicrovmSpec_h p (snd (GetLabels_h m p h)) = GetMicrovmSpec_h p h"
      using w by (simp add: t(2) GetMicrovmSpec_h_def)
    then have "vm_Labels (GetMicrovmSpec (scope_at m (snd (GetLabels_h m p h)) p)) =
        ly_read labels_ptr (snd (GetLabels_h m p h)) (Some b)"
      using Some by (simp add: scope_at_def GetMicrovmSpec_def machine_read GetMicrovmSpec_h_def)
    ultimately show ?thesis
      using ret Some by (simp add: case_prod_unfold t(2)) (simp add: ptr_layout_def flat_layout_def)
  qed
qed

section \<open>A concrete heap\<close>

text \<open>Marks that put the new conditions into a new array; they keep the contract.\<close>

definition fx_mark :: "(Conditions \<Rightarrow> Conditions) \<Rightarrow> addr \<Rightarrow> cell heap \<Rightarrow> cell heap" where
  "fx_mark f p h =
     (case f (ly_read conditions_layout h (hmst_Conditions (hmm_Status (machine_at h p)))) of
        None \<Rightarrow> SetConditions_h SNil p h
      | Some cs \<Rightarrow> let (a, h1) = new_cell (A_condition cs) h in SetConditions_h (Slice a 0 (length cs)) p h1)"

lemma conditions_slice:
  "load h a = Some (A_condition cs) \<Longrightarrow> ly_wt conditions_layout h (Slice a 0 (length cs)) \<and>
     ly_read conditions_layout h (Slice a 0 (length cs)) = Some cs"
  "ly_wt conditions_layout h SNil \<and> ly_read conditions_layout h SNil = None"
  by (simp_all add: slice_layout_def flat_layout_def typed_def deref_def window_def condition_array_def list_all_iff)

lemma fx_mark_write:
  "scope_write G (\<lambda>m. fx_mark f) (update_MvmMachine (\<lambda>mvm. MicrovmMachine_SetConditions (f (MicrovmMachine_GetConditions mvm)) mvm))"
  (is "scope_write G _ ?F")
proof (rule replaces_scope_write)
  fix m p h
  assume ok: "machine_ok G h p"
  let ?x = "machine_at h p" and ?new = "f (ly_read conditions_layout h (hmst_Conditions (hmm_Status (machine_at h p))))"
  let ?s = "case ?new of None \<Rightarrow> SNil | Some cs \<Rightarrow> Slice (length h) 0 (length cs)" and ?cs = "case ?new of None \<Rightarrow> [] | Some cs \<Rightarrow> [A_condition cs]"
  let ?x' = "?x\<lparr>hmm_Status := (hmm_Status ?x)\<lparr>hmst_Conditions := ?s\<rparr>\<rparr>"
  obtain h' where h': "fx_mark f p h = h'" "h' = store p (O_MicrovmMachine ?x') (h @ ?cs)"
    using machine_at_grown [OF ok] by (simp add: fx_mark_def SetConditions_h_def write_machine_def new_cell_def split: option.split)
  note parts = object_parts [OF ok, of "O_MicrovmMachine ?x'" ?cs, folded h'(2), unfolded same_part_def]
  have "load h' (length h) = Some (A_condition cs)" if "?new = Some cs" for cs
    using machine_bound [OF ok] that by (simp add: h'(2) load_def store_def nth_append list_update_append)
  then have new: "ly_wt conditions_layout h' ?s" "ly_read conditions_layout h' ?s = ?new"
    using conditions_slice by (auto split: option.split)
  have "replaces h p h' ?x'" by (rule replacesI [OF h'(2)]) (use parts new in \<open>auto simp: machine_wt split: option.split\<close>)
  then show "replaces h p (fx_mark f p h) ?x' \<and>
      m\<lparr>sc_MvmMachine := ly_read MicrovmMachine_layout (fx_mark f p h) ?x'\<rparr> = ?F (scope_at m h p)"
    using parts new by (simp add: h'(1) scope_value_simps MicrovmMachine_SetConditions_def MicrovmMachine_GetConditions_def machine_read)
qed

lemma fx_marks_ok:
  "marks_ok fx_env G (\<lambda>t. fx_mark (e_MarkTrue fx_env t)) (\<lambda>t reason sev msg. fx_mark (e_MarkFalse fx_env t reason sev msg))"
  unfolding marks_ok_def MarkTrue_Machine_def [abs_def] MarkFalse_Machine_def [abs_def] using fx_mark_write by blast

text \<open>Two machines: the first has labels, the second is running and points to the variable of that state.\<close>

fun fx_globals :: vm_globals where
  "fx_globals VMStatePending = 0"
| "fx_globals VMStateRunning = 1"
| "fx_globals VMStateFailed = 2"
| "fx_globals _ = 3"

definition fx_heap :: "cell heap" where
  "fx_heap = [C_vmstate VMStatePending, C_vmstate VMStateRunning, C_vmstate VMStateFailed, C_vmstate VMStateUnknown,
     C_stringmap [''role'' \<mapsto> ''web''],
     O_MicrovmMachine (zero_MicrovmMachine_h\<lparr>hmm_Spec := zero_MicrovmMachineSpec_h\<lparr>hms_VMSpec := zero_VMSpec_h\<lparr>hvm_Labels := Some 4\<rparr>\<rparr>\<rparr>),
     O_MicrovmMachine (zero_MicrovmMachine_h\<lparr>hmm_Status := zero_MicrovmMachineStatus_h\<lparr>hmst_VMState := Some 1\<rparr>\<rparr>)]"

lemmas fx_heap_simps = machine_at_def deref_def load_def typed_def GetMicrovmSpec_h_def cell_type_defs zero_MicrovmMachine_h_def
  zero_MicrovmMachineSpec_h_def zero_MicrovmMachineStatus_h_def zero_VMSpec_h_def zero_ObjectMeta_h_def fx_heap_def

lemma fx_heap_ok: "machine_ok fx_globals fx_heap 5"
  by (simp add: machine_ok_def labels_private_def globals_ok_def machine_wt ObjectMeta_layout_def struct_layout_def pair_layout_def
      ptr_layout_def slice_layout_def flat_layout_def fx_heap_simps)

lemma fx_other:
  "ly_wt (ptr_layout MicrovmMachine_cell MicrovmMachine_layout) fx_heap (Some 6)"
  "ly_owned (ptr_layout MicrovmMachine_cell MicrovmMachine_layout) fx_heap (Some 6) \<inter> touched fx_heap 5 = {}"
  by (simp_all add: touched_def ptr_layout_def MicrovmMachine_layout_def MicrovmMachineSpec_layout_def MicrovmMachineStatus_layout_def
      VMSpec_layout_def ObjectMeta_layout_def struct_layout_def pair_layout_def slice_layout_def flat_layout_def fx_heap_simps)

theorem scope_calls_in_memory_witness:
  "\<exists>h'. sc_MvmMachine (scope_at fx_scope h' 5) \<noteq> sc_MvmMachine (scope_at fx_scope fx_heap 5) \<and>
     machine_provider_id (sc_MvmMachine (scope_at fx_scope h' 5)) = Some ''microvm://fd1:9090/ABC'' \<and>
     machine_ready (sc_MvmMachine (scope_at fx_scope h' 5)) \<and>
     ly_read (ptr_layout MicrovmMachine_cell MicrovmMachine_layout) h' (Some 6) =
       ly_read (ptr_layout MicrovmMachine_cell MicrovmMachine_layout) fx_heap (Some 6)"
proof -
  let ?calls = "[CallGetLabels, CallSetProviderID ''fd1:9090'' ''ABC'', CallSetReady]"
  let ?T = "\<lambda>t. fx_mark (e_MarkTrue fx_env t)" and ?F = "\<lambda>t reason sev msg. fx_mark (e_MarkFalse fx_env t reason sev msg)"
  define h' where "h' = fold (in_memory fx_globals ?T ?F fx_scope 5) ?calls fx_heap"
  have lay: "memory_layout (ptr_layout MicrovmMachine_cell MicrovmMachine_layout)"
    by (intro ptr_layoutI deep_copier.axioms(1) [OF MicrovmMachine_copier [OF fx_copies_ok]])
  note seq = scope_calls_in_memory [OF fx_marks_ok fx_heap_ok lay fx_other, of fx_scope ?calls, unfolded Let_def, folded h'_def]
  then have val: "sc_MvmMachine (scope_at fx_scope h' 5) =
      sc_MvmMachine (SetReady fx_env (SetProviderID ''fd1:9090'' ''ABC'' (snd (GetLabels (scope_at fx_scope fx_heap 5)))))" by simp
  have old: "machine_provider_id (sc_MvmMachine (scope_at fx_scope fx_heap 5)) = None"
    by (simp add: scope_at_def machine_read ptr_layout_def fx_heap_simps)
  have "machine_provider_id (sc_MvmMachine (scope_at fx_scope h' 5)) = Some ''microvm://fd1:9090/ABC''"
    "machine_ready (sc_MvmMachine (scope_at fx_scope h' 5))"
    unfolding val by (simp_all add: SetReady_def SetProviderID_def scope_simps machine_parts ProviderPrefix_def)
  then show ?thesis using seq old by (intro exI [of _ h']) auto
qed

theorem GetLabels_in_memory_witness:
  "fst (GetLabels_h fx_scope 5 fx_heap) = 4 \<and>
   vm_Labels (ly_read VMSpec_layout (snd (GetLabels_h fx_scope 5 fx_heap)) (GetMicrovmSpec_h 5 fx_heap)) =
     Some [''role'' \<mapsto> ''web'', ''cluster-name'' \<mapsto> ''tenant1'']"
proof -
  have "hvm_Labels (GetMicrovmSpec_h 5 fx_heap) = Some 4"
    "vm_Labels (GetMicrovmSpec (scope_at fx_scope fx_heap 5)) = Some [''role'' \<mapsto> ''web'']"
    by (simp_all add: scope_at_def GetMicrovmSpec_def machine_read ptr_layout_def flat_layout_def fx_heap_simps)
  moreover have "MachineScope_ClusterName fx_scope = ''tenant1''" by (simp add: MachineScope_ClusterName_def fx_defs)
  ultimately show ?thesis using GetLabels_in_memory [OF fx_heap_ok, of fx_scope] by (auto simp: case_prod_unfold)
qed

end
