(* ===== verification/Fake_Client.thy ===== *)
theory Fake_Client
  imports Go_Errors
begin

text \<open>
  \<^verbatim>\<open>controllers/fakes/fake_client.go\<close>: the fake of the flintlock client that the controller tests use. A
  method of the fake records its arguments, counts the call in the log of invocations and answers with
  its stub, the result set for this call, or its default result, in this order. The requests and
  responses of flintlock are opaque handles. A stub is a function of a test: what it does, also to the
  fake, is a parameter.

  The operations here are those of one goroutine; \<open>Fake_Locks\<close> models the mutexes.
\<close>

section \<open>State\<close>

type_synonym Context = nat
type_synonym CallOption = nat
type_synonym 'q call_args = "Context \<times> 'q option \<times> CallOption list option"
type_synonym 'p call_result = "'p option \<times> error option"
type_synonym stub = nat

record ('a, 'r) fake_method =
  fm_Stub :: "stub option"
  fm_ArgsForCall :: "'a list"
  fm_Returns :: 'r
  fm_ReturnsOnCall :: "(int \<rightharpoonup> 'r) option"

text \<open>The handles of the messages, and an argument as an interface value in the log.\<close>

datatype CreateMicroVMRequest = CreateMicroVMRequest nat
datatype CreateMicroVMResponse = CreateMicroVMResponse nat
datatype DeleteMicroVMRequest = DeleteMicroVMRequest nat
datatype Empty = Empty nat
datatype GetMicroVMRequest = GetMicroVMRequest nat
datatype GetMicroVMResponse = GetMicroVMResponse nat
datatype ListMicroVMsRequest = ListMicroVMsRequest nat
datatype ListMicroVMsResponse = ListMicroVMsResponse nat
datatype ListMessageStream = ListMessageStream nat

datatype interface =
    I_Context Context
  | I_CallOptions "CallOption list option"
  | I_CreateMicroVMRequest "CreateMicroVMRequest option"
  | I_DeleteMicroVMRequest "DeleteMicroVMRequest option"
  | I_GetMicroVMRequest "GetMicroVMRequest option"
  | I_ListMicroVMsRequest "ListMicroVMsRequest option"

record FakeClient =
  fk_CloseStub :: "stub option"
  fk_closeArgsForCall :: "unit list"
  fk_CreateMicroVM :: "(CreateMicroVMRequest call_args, CreateMicroVMResponse call_result) fake_method"
  fk_DeleteMicroVM :: "(DeleteMicroVMRequest call_args, Empty call_result) fake_method"
  fk_GetMicroVM :: "(GetMicroVMRequest call_args, GetMicroVMResponse call_result) fake_method"
  fk_ListMicroVMs :: "(ListMicroVMsRequest call_args, ListMicroVMsResponse call_result) fake_method"
  fk_ListMicroVMsStream :: "(ListMicroVMsRequest call_args, ListMessageStream call_result) fake_method"
  fk_invocations :: "(string \<rightharpoonup> interface list list) option"

text \<open>The functions of the tests behind the stubs.\<close>

record stubs =
  st_Close :: "stub \<Rightarrow> FakeClient \<Rightarrow> FakeClient"
  st_CreateMicroVM :: "stub \<Rightarrow> CreateMicroVMRequest call_args \<Rightarrow> FakeClient \<Rightarrow> CreateMicroVMResponse call_result \<times> FakeClient"
  st_DeleteMicroVM :: "stub \<Rightarrow> DeleteMicroVMRequest call_args \<Rightarrow> FakeClient \<Rightarrow> Empty call_result \<times> FakeClient"
  st_GetMicroVM :: "stub \<Rightarrow> GetMicroVMRequest call_args \<Rightarrow> FakeClient \<Rightarrow> GetMicroVMResponse call_result \<times> FakeClient"
  st_ListMicroVMs :: "stub \<Rightarrow> ListMicroVMsRequest call_args \<Rightarrow> FakeClient \<Rightarrow> ListMicroVMsResponse call_result \<times> FakeClient"
  st_ListMicroVMsStream :: "stub \<Rightarrow> ListMicroVMsRequest call_args \<Rightarrow> FakeClient \<Rightarrow> ListMessageStream call_result \<times> FakeClient"

section \<open>Operations\<close>

text \<open>A call: the next entry of the log under its name.\<close>

definition recordInvocation :: "string \<Rightarrow> interface list \<Rightarrow> FakeClient \<Rightarrow> FakeClient" where
  "recordInvocation key args fake =
     (let invocations = (case fk_invocations fake of None \<Rightarrow> Map.empty | Some m \<Rightarrow> m);
          calls = (case invocations key of None \<Rightarrow> [] | Some cs \<Rightarrow> cs)
      in fake\<lparr>fk_invocations := Some (invocations(key \<mapsto> calls @ [args]))\<rparr>)"

definition FakeClient_Invocations :: "FakeClient \<Rightarrow> string \<rightharpoonup> interface list list" where
  "FakeClient_Invocations fake = (case fk_invocations fake of None \<Rightarrow> Map.empty | Some m \<Rightarrow> m)"

text \<open>
  \<open>Close\<close> reads the stub again after it has released the mutex; a stub that has been removed in
  between would be called as a nil function.
\<close>

definition FakeClient_Close :: "stubs \<Rightarrow> FakeClient \<Rightarrow> FakeClient outcome" where
  "FakeClient_Close S fake =
     (let stub = fk_CloseStub fake;
          fake1 = recordInvocation ''Close'' [] (fake\<lparr>fk_closeArgsForCall := fk_closeArgsForCall fake @ [()]\<rparr>)
      in if stub \<noteq> None
         then (case fk_CloseStub fake1 of
                 None \<Rightarrow> Panic ''invalid memory address or nil pointer dereference''
               | Some s \<Rightarrow> Return (st_Close S s fake1))
         else Return fake1)"

definition FakeClient_CloseCallCount :: "FakeClient \<Rightarrow> int" where
  "FakeClient_CloseCallCount fake = int (length (fk_closeArgsForCall fake))"

definition FakeClient_CloseCalls :: "stub option \<Rightarrow> FakeClient \<Rightarrow> FakeClient" where
  "FakeClient_CloseCalls stub fake = fake\<lparr>fk_CloseStub := stub\<rparr>"

text \<open>
  The other methods have the same body up to the names: \<open>get\<close> and \<open>upd\<close> read and write the method's
  fields, \<open>box\<close> makes interface values of the arguments, \<open>call\<close> runs a stub.
\<close>

definition fake_invoke ::
  "(FakeClient \<Rightarrow> ('a, 'r) fake_method) \<Rightarrow>
   ((('a, 'r) fake_method \<Rightarrow> ('a, 'r) fake_method) \<Rightarrow> FakeClient \<Rightarrow> FakeClient) \<Rightarrow>
   string \<Rightarrow> ('a \<Rightarrow> interface list) \<Rightarrow> (stub \<Rightarrow> 'a \<Rightarrow> FakeClient \<Rightarrow> 'r \<times> FakeClient) \<Rightarrow>
   'a \<Rightarrow> FakeClient \<Rightarrow> 'r \<times> FakeClient" where
  "fake_invoke get upd key box call args fake =
     (let ret = Option.bind (fm_ReturnsOnCall (get fake)) (\<lambda>m. m (int (length (fm_ArgsForCall (get fake)))));
          fake1 = upd (\<lambda>m. m\<lparr>fm_ArgsForCall := fm_ArgsForCall m @ [args]\<rparr>) fake;
          stub = fm_Stub (get fake1);
          fakeReturns = fm_Returns (get fake1);
          fake2 = recordInvocation key (box args) fake1
      in case stub of
           Some s \<Rightarrow> call s args fake2
         | None \<Rightarrow> (case ret of Some r \<Rightarrow> (r, fake2) | None \<Rightarrow> (fakeReturns, fake2)))"

definition method_CallCount :: "('a, 'r) fake_method \<Rightarrow> int" where
  "method_CallCount m = int (length (fm_ArgsForCall m))"

definition method_Calls :: "stub option \<Rightarrow> ('a, 'r) fake_method \<Rightarrow> ('a, 'r) fake_method" where
  "method_Calls stub m = m\<lparr>fm_Stub := stub\<rparr>"

definition method_ArgsForCall :: "('a, 'r) fake_method \<Rightarrow> int \<Rightarrow> 'a outcome" where
  "method_ArgsForCall m i =
     (if 0 \<le> i \<and> nat i < length (fm_ArgsForCall m) then Return (fm_ArgsForCall m ! nat i)
      else Panic ''index out of range'')"

definition method_Returns :: "'r \<Rightarrow> ('a, 'r) fake_method \<Rightarrow> ('a, 'r) fake_method" where
  "method_Returns r m = m\<lparr>fm_Stub := None, fm_Returns := r\<rparr>"

definition method_ReturnsOnCall :: "int \<Rightarrow> 'r \<Rightarrow> ('a, 'r) fake_method \<Rightarrow> ('a, 'r) fake_method" where
  "method_ReturnsOnCall i r m =
     (let specific = (case fm_ReturnsOnCall m of None \<Rightarrow> Map.empty | Some f \<Rightarrow> f)
      in m\<lparr>fm_Stub := None, fm_ReturnsOnCall := Some (specific(i \<mapsto> r))\<rparr>)"

definition FakeClient_CreateMicroVM ::
  "stubs \<Rightarrow> Context \<Rightarrow> CreateMicroVMRequest option \<Rightarrow> CallOption list option \<Rightarrow> FakeClient \<Rightarrow>
   CreateMicroVMResponse call_result \<times> FakeClient" where
  "FakeClient_CreateMicroVM S arg1 arg2 arg3 =
     fake_invoke fk_CreateMicroVM fk_CreateMicroVM_update ''CreateMicroVM''
       (\<lambda>(arg1, arg2, arg3). [I_Context arg1, I_CreateMicroVMRequest arg2, I_CallOptions arg3]) (st_CreateMicroVM S) (arg1, arg2, arg3)"

definition FakeClient_CreateMicroVMCallCount :: "FakeClient \<Rightarrow> int" where
  "FakeClient_CreateMicroVMCallCount fake = method_CallCount (fk_CreateMicroVM fake)"

definition FakeClient_CreateMicroVMCalls :: "stub option \<Rightarrow> FakeClient \<Rightarrow> FakeClient" where
  "FakeClient_CreateMicroVMCalls stub = fk_CreateMicroVM_update (method_Calls stub)"

definition FakeClient_CreateMicroVMArgsForCall :: "int \<Rightarrow> FakeClient \<Rightarrow> CreateMicroVMRequest call_args outcome" where
  "FakeClient_CreateMicroVMArgsForCall i fake = method_ArgsForCall (fk_CreateMicroVM fake) i"

definition FakeClient_CreateMicroVMReturns :: "CreateMicroVMResponse option \<Rightarrow> error option \<Rightarrow> FakeClient \<Rightarrow> FakeClient" where
  "FakeClient_CreateMicroVMReturns result1 result2 = fk_CreateMicroVM_update (method_Returns (result1, result2))"

definition FakeClient_CreateMicroVMReturnsOnCall ::
  "int \<Rightarrow> CreateMicroVMResponse option \<Rightarrow> error option \<Rightarrow> FakeClient \<Rightarrow> FakeClient" where
  "FakeClient_CreateMicroVMReturnsOnCall i result1 result2 =
     fk_CreateMicroVM_update (method_ReturnsOnCall i (result1, result2))"

definition FakeClient_DeleteMicroVM ::
  "stubs \<Rightarrow> Context \<Rightarrow> DeleteMicroVMRequest option \<Rightarrow> CallOption list option \<Rightarrow> FakeClient \<Rightarrow>
   Empty call_result \<times> FakeClient" where
  "FakeClient_DeleteMicroVM S arg1 arg2 arg3 =
     fake_invoke fk_DeleteMicroVM fk_DeleteMicroVM_update ''DeleteMicroVM''
       (\<lambda>(arg1, arg2, arg3). [I_Context arg1, I_DeleteMicroVMRequest arg2, I_CallOptions arg3]) (st_DeleteMicroVM S) (arg1, arg2, arg3)"

definition FakeClient_DeleteMicroVMCallCount :: "FakeClient \<Rightarrow> int" where
  "FakeClient_DeleteMicroVMCallCount fake = method_CallCount (fk_DeleteMicroVM fake)"

definition FakeClient_DeleteMicroVMCalls :: "stub option \<Rightarrow> FakeClient \<Rightarrow> FakeClient" where
  "FakeClient_DeleteMicroVMCalls stub = fk_DeleteMicroVM_update (method_Calls stub)"

definition FakeClient_DeleteMicroVMArgsForCall :: "int \<Rightarrow> FakeClient \<Rightarrow> DeleteMicroVMRequest call_args outcome" where
  "FakeClient_DeleteMicroVMArgsForCall i fake = method_ArgsForCall (fk_DeleteMicroVM fake) i"

definition FakeClient_DeleteMicroVMReturns :: "Empty option \<Rightarrow> error option \<Rightarrow> FakeClient \<Rightarrow> FakeClient" where
  "FakeClient_DeleteMicroVMReturns result1 result2 = fk_DeleteMicroVM_update (method_Returns (result1, result2))"

definition FakeClient_DeleteMicroVMReturnsOnCall ::
  "int \<Rightarrow> Empty option \<Rightarrow> error option \<Rightarrow> FakeClient \<Rightarrow> FakeClient" where
  "FakeClient_DeleteMicroVMReturnsOnCall i result1 result2 =
     fk_DeleteMicroVM_update (method_ReturnsOnCall i (result1, result2))"

definition FakeClient_GetMicroVM ::
  "stubs \<Rightarrow> Context \<Rightarrow> GetMicroVMRequest option \<Rightarrow> CallOption list option \<Rightarrow> FakeClient \<Rightarrow>
   GetMicroVMResponse call_result \<times> FakeClient" where
  "FakeClient_GetMicroVM S arg1 arg2 arg3 =
     fake_invoke fk_GetMicroVM fk_GetMicroVM_update ''GetMicroVM''
       (\<lambda>(arg1, arg2, arg3). [I_Context arg1, I_GetMicroVMRequest arg2, I_CallOptions arg3]) (st_GetMicroVM S) (arg1, arg2, arg3)"

definition FakeClient_GetMicroVMCallCount :: "FakeClient \<Rightarrow> int" where
  "FakeClient_GetMicroVMCallCount fake = method_CallCount (fk_GetMicroVM fake)"

definition FakeClient_GetMicroVMCalls :: "stub option \<Rightarrow> FakeClient \<Rightarrow> FakeClient" where
  "FakeClient_GetMicroVMCalls stub = fk_GetMicroVM_update (method_Calls stub)"

definition FakeClient_GetMicroVMArgsForCall :: "int \<Rightarrow> FakeClient \<Rightarrow> GetMicroVMRequest call_args outcome" where
  "FakeClient_GetMicroVMArgsForCall i fake = method_ArgsForCall (fk_GetMicroVM fake) i"

definition FakeClient_GetMicroVMReturns :: "GetMicroVMResponse option \<Rightarrow> error option \<Rightarrow> FakeClient \<Rightarrow> FakeClient" where
  "FakeClient_GetMicroVMReturns result1 result2 = fk_GetMicroVM_update (method_Returns (result1, result2))"

definition FakeClient_GetMicroVMReturnsOnCall ::
  "int \<Rightarrow> GetMicroVMResponse option \<Rightarrow> error option \<Rightarrow> FakeClient \<Rightarrow> FakeClient" where
  "FakeClient_GetMicroVMReturnsOnCall i result1 result2 =
     fk_GetMicroVM_update (method_ReturnsOnCall i (result1, result2))"

definition FakeClient_ListMicroVMs ::
  "stubs \<Rightarrow> Context \<Rightarrow> ListMicroVMsRequest option \<Rightarrow> CallOption list option \<Rightarrow> FakeClient \<Rightarrow>
   ListMicroVMsResponse call_result \<times> FakeClient" where
  "FakeClient_ListMicroVMs S arg1 arg2 arg3 =
     fake_invoke fk_ListMicroVMs fk_ListMicroVMs_update ''ListMicroVMs''
       (\<lambda>(arg1, arg2, arg3). [I_Context arg1, I_ListMicroVMsRequest arg2, I_CallOptions arg3]) (st_ListMicroVMs S) (arg1, arg2, arg3)"

definition FakeClient_ListMicroVMsCallCount :: "FakeClient \<Rightarrow> int" where
  "FakeClient_ListMicroVMsCallCount fake = method_CallCount (fk_ListMicroVMs fake)"

definition FakeClient_ListMicroVMsCalls :: "stub option \<Rightarrow> FakeClient \<Rightarrow> FakeClient" where
  "FakeClient_ListMicroVMsCalls stub = fk_ListMicroVMs_update (method_Calls stub)"

definition FakeClient_ListMicroVMsArgsForCall :: "int \<Rightarrow> FakeClient \<Rightarrow> ListMicroVMsRequest call_args outcome" where
  "FakeClient_ListMicroVMsArgsForCall i fake = method_ArgsForCall (fk_ListMicroVMs fake) i"

definition FakeClient_ListMicroVMsReturns :: "ListMicroVMsResponse option \<Rightarrow> error option \<Rightarrow> FakeClient \<Rightarrow> FakeClient" where
  "FakeClient_ListMicroVMsReturns result1 result2 = fk_ListMicroVMs_update (method_Returns (result1, result2))"

definition FakeClient_ListMicroVMsReturnsOnCall ::
  "int \<Rightarrow> ListMicroVMsResponse option \<Rightarrow> error option \<Rightarrow> FakeClient \<Rightarrow> FakeClient" where
  "FakeClient_ListMicroVMsReturnsOnCall i result1 result2 =
     fk_ListMicroVMs_update (method_ReturnsOnCall i (result1, result2))"

definition FakeClient_ListMicroVMsStream ::
  "stubs \<Rightarrow> Context \<Rightarrow> ListMicroVMsRequest option \<Rightarrow> CallOption list option \<Rightarrow> FakeClient \<Rightarrow>
   ListMessageStream call_result \<times> FakeClient" where
  "FakeClient_ListMicroVMsStream S arg1 arg2 arg3 =
     fake_invoke fk_ListMicroVMsStream fk_ListMicroVMsStream_update ''ListMicroVMsStream''
       (\<lambda>(arg1, arg2, arg3). [I_Context arg1, I_ListMicroVMsRequest arg2, I_CallOptions arg3]) (st_ListMicroVMsStream S) (arg1, arg2, arg3)"

definition FakeClient_ListMicroVMsStreamCallCount :: "FakeClient \<Rightarrow> int" where
  "FakeClient_ListMicroVMsStreamCallCount fake = method_CallCount (fk_ListMicroVMsStream fake)"

definition FakeClient_ListMicroVMsStreamCalls :: "stub option \<Rightarrow> FakeClient \<Rightarrow> FakeClient" where
  "FakeClient_ListMicroVMsStreamCalls stub = fk_ListMicroVMsStream_update (method_Calls stub)"

definition FakeClient_ListMicroVMsStreamArgsForCall :: "int \<Rightarrow> FakeClient \<Rightarrow> ListMicroVMsRequest call_args outcome" where
  "FakeClient_ListMicroVMsStreamArgsForCall i fake = method_ArgsForCall (fk_ListMicroVMsStream fake) i"

definition FakeClient_ListMicroVMsStreamReturns :: "ListMessageStream option \<Rightarrow> error option \<Rightarrow> FakeClient \<Rightarrow> FakeClient" where
  "FakeClient_ListMicroVMsStreamReturns result1 result2 = fk_ListMicroVMsStream_update (method_Returns (result1, result2))"

definition FakeClient_ListMicroVMsStreamReturnsOnCall ::
  "int \<Rightarrow> ListMessageStream option \<Rightarrow> error option \<Rightarrow> FakeClient \<Rightarrow> FakeClient" where
  "FakeClient_ListMicroVMsStreamReturnsOnCall i result1 result2 =
     fk_ListMicroVMsStream_update (method_ReturnsOnCall i (result1, result2))"

section \<open>A method's fields as a part of the fake\<close>

locale fake_slot =
  fixes get :: "FakeClient \<Rightarrow> ('a, 'r) fake_method"
    and upd :: "(('a, 'r) fake_method \<Rightarrow> ('a, 'r) fake_method) \<Rightarrow> FakeClient \<Rightarrow> FakeClient"
  assumes get_upd: "get (upd f c) = f (get c)"
    and log_upd: "fk_invocations (upd f c) = fk_invocations c"
    and get_log: "get (c\<lparr>fk_invocations := l\<rparr>) = get c"
begin

lemma recorded: "get (recordInvocation key args c) = get c"
  by (simp add: recordInvocation_def Let_def get_log)

text \<open>The answer of a call: the stub, else the result set for this call, else the default.\<close>

lemma answer:
  "fst (fake_invoke get upd key box call args c) =
     (case fm_Stub (get c) of
        Some s \<Rightarrow> fst (call s args (recordInvocation key (box args) (upd (\<lambda>m. m\<lparr>fm_ArgsForCall := fm_ArgsForCall m @ [args]\<rparr>) c)))
      | None \<Rightarrow> (case Option.bind (fm_ReturnsOnCall (get c)) (\<lambda>m. m (method_CallCount (get c))) of
                  Some r \<Rightarrow> r | None \<Rightarrow> fm_Returns (get c)))"
  by (simp add: fake_invoke_def Let_def get_upd method_CallCount_def split: option.splits)

lemma invoked:
  assumes "\<And>s args c. snd (call s args c) = c"
  shows "snd (fake_invoke get upd key box call args c) =
    recordInvocation key (box args) (upd (\<lambda>m. m\<lparr>fm_ArgsForCall := fm_ArgsForCall m @ [args]\<rparr>) c)"
  using assms by (simp add: fake_invoke_def Let_def split: option.splits)

end

interpretation CreateMicroVM_slot: fake_slot fk_CreateMicroVM fk_CreateMicroVM_update
  by unfold_locales simp_all

interpretation DeleteMicroVM_slot: fake_slot fk_DeleteMicroVM fk_DeleteMicroVM_update
  by unfold_locales simp_all

interpretation GetMicroVM_slot: fake_slot fk_GetMicroVM fk_GetMicroVM_update
  by unfold_locales simp_all

interpretation ListMicroVMs_slot: fake_slot fk_ListMicroVMs fk_ListMicroVMs_update
  by unfold_locales simp_all

interpretation ListMicroVMsStream_slot: fake_slot fk_ListMicroVMsStream fk_ListMicroVMsStream_update
  by unfold_locales simp_all

section \<open>Sequences of operations\<close>

datatype fake_op =
    Op_Close
  | Op_CloseCalls "stub option"
  | Op_CreateMicroVM Context "CreateMicroVMRequest option" "CallOption list option"
  | Op_CreateMicroVMCalls "stub option"
  | Op_CreateMicroVMReturns "CreateMicroVMResponse option" "error option"
  | Op_CreateMicroVMReturnsOnCall int "CreateMicroVMResponse option" "error option"
  | Op_DeleteMicroVM Context "DeleteMicroVMRequest option" "CallOption list option"
  | Op_DeleteMicroVMCalls "stub option"
  | Op_DeleteMicroVMReturns "Empty option" "error option"
  | Op_DeleteMicroVMReturnsOnCall int "Empty option" "error option"
  | Op_GetMicroVM Context "GetMicroVMRequest option" "CallOption list option"
  | Op_GetMicroVMCalls "stub option"
  | Op_GetMicroVMReturns "GetMicroVMResponse option" "error option"
  | Op_GetMicroVMReturnsOnCall int "GetMicroVMResponse option" "error option"
  | Op_ListMicroVMs Context "ListMicroVMsRequest option" "CallOption list option"
  | Op_ListMicroVMsCalls "stub option"
  | Op_ListMicroVMsReturns "ListMicroVMsResponse option" "error option"
  | Op_ListMicroVMsReturnsOnCall int "ListMicroVMsResponse option" "error option"
  | Op_ListMicroVMsStream Context "ListMicroVMsRequest option" "CallOption list option"
  | Op_ListMicroVMsStreamCalls "stub option"
  | Op_ListMicroVMsStreamReturns "ListMessageStream option" "error option"
  | Op_ListMicroVMsStreamReturnsOnCall int "ListMessageStream option" "error option"

fun fake_step :: "stubs \<Rightarrow> fake_op \<Rightarrow> FakeClient \<Rightarrow> FakeClient" where
  "fake_step S Op_Close fake = (case FakeClient_Close S fake of Return f \<Rightarrow> f | Panic _ \<Rightarrow> fake)"
| "fake_step S (Op_CloseCalls s) fake = FakeClient_CloseCalls s fake"
| "fake_step S (Op_CreateMicroVM a b c) fake = snd (FakeClient_CreateMicroVM S a b c fake)"
| "fake_step S (Op_CreateMicroVMCalls s) fake = FakeClient_CreateMicroVMCalls s fake"
| "fake_step S (Op_CreateMicroVMReturns a b) fake = FakeClient_CreateMicroVMReturns a b fake"
| "fake_step S (Op_CreateMicroVMReturnsOnCall i a b) fake = FakeClient_CreateMicroVMReturnsOnCall i a b fake"
| "fake_step S (Op_DeleteMicroVM a b c) fake = snd (FakeClient_DeleteMicroVM S a b c fake)"
| "fake_step S (Op_DeleteMicroVMCalls s) fake = FakeClient_DeleteMicroVMCalls s fake"
| "fake_step S (Op_DeleteMicroVMReturns a b) fake = FakeClient_DeleteMicroVMReturns a b fake"
| "fake_step S (Op_DeleteMicroVMReturnsOnCall i a b) fake = FakeClient_DeleteMicroVMReturnsOnCall i a b fake"
| "fake_step S (Op_GetMicroVM a b c) fake = snd (FakeClient_GetMicroVM S a b c fake)"
| "fake_step S (Op_GetMicroVMCalls s) fake = FakeClient_GetMicroVMCalls s fake"
| "fake_step S (Op_GetMicroVMReturns a b) fake = FakeClient_GetMicroVMReturns a b fake"
| "fake_step S (Op_GetMicroVMReturnsOnCall i a b) fake = FakeClient_GetMicroVMReturnsOnCall i a b fake"
| "fake_step S (Op_ListMicroVMs a b c) fake = snd (FakeClient_ListMicroVMs S a b c fake)"
| "fake_step S (Op_ListMicroVMsCalls s) fake = FakeClient_ListMicroVMsCalls s fake"
| "fake_step S (Op_ListMicroVMsReturns a b) fake = FakeClient_ListMicroVMsReturns a b fake"
| "fake_step S (Op_ListMicroVMsReturnsOnCall i a b) fake = FakeClient_ListMicroVMsReturnsOnCall i a b fake"
| "fake_step S (Op_ListMicroVMsStream a b c) fake = snd (FakeClient_ListMicroVMsStream S a b c fake)"
| "fake_step S (Op_ListMicroVMsStreamCalls s) fake = FakeClient_ListMicroVMsStreamCalls s fake"
| "fake_step S (Op_ListMicroVMsStreamReturns a b) fake = FakeClient_ListMicroVMsStreamReturns a b fake"
| "fake_step S (Op_ListMicroVMsStreamReturnsOnCall i a b) fake = FakeClient_ListMicroVMsStreamReturnsOnCall i a b fake"

definition fake_run :: "stubs \<Rightarrow> fake_op list \<Rightarrow> FakeClient \<Rightarrow> FakeClient" where
  "fake_run S ops = fold (fake_step S) ops"

text \<open>\<open>new(FakeClient)\<close>\<close>

definition new_method :: "('a, 'p call_result) fake_method" where
  "new_method = \<lparr>fm_Stub = None, fm_ArgsForCall = [], fm_Returns = (None, None), fm_ReturnsOnCall = None\<rparr>"

definition new_FakeClient :: FakeClient where
  "new_FakeClient = \<lparr>fk_CloseStub = None, fk_closeArgsForCall = [], fk_CreateMicroVM = new_method,
     fk_DeleteMicroVM = new_method,
     fk_GetMicroVM = new_method,
     fk_ListMicroVMs = new_method,
     fk_ListMicroVMsStream = new_method, fk_invocations = None\<rparr>"

text \<open>The calls of a sequence of operations under one name, as the log shows them.\<close>

fun log_entry :: "fake_op \<Rightarrow> (string \<times> interface list) list" where
  "log_entry Op_Close = [(''Close'', [])]"
| "log_entry (Op_CreateMicroVM a b c) = [(''CreateMicroVM'', [I_Context a, I_CreateMicroVMRequest b, I_CallOptions c])]"
| "log_entry (Op_DeleteMicroVM a b c) = [(''DeleteMicroVM'', [I_Context a, I_DeleteMicroVMRequest b, I_CallOptions c])]"
| "log_entry (Op_GetMicroVM a b c) = [(''GetMicroVM'', [I_Context a, I_GetMicroVMRequest b, I_CallOptions c])]"
| "log_entry (Op_ListMicroVMs a b c) = [(''ListMicroVMs'', [I_Context a, I_ListMicroVMsRequest b, I_CallOptions c])]"
| "log_entry (Op_ListMicroVMsStream a b c) = [(''ListMicroVMsStream'', [I_Context a, I_ListMicroVMsRequest b, I_CallOptions c])]"
| "log_entry _ = []"

definition calls_of :: "string \<Rightarrow> fake_op list \<Rightarrow> interface list list" where
  "calls_of key ops = map snd (filter (\<lambda>e. fst e = key) (concat (map log_entry ops)))"

text \<open>Stubs that leave the fake alone.\<close>

definition quiet :: "stubs \<Rightarrow> bool" where
  "quiet S \<longleftrightarrow> (\<forall>s f. st_Close S s f = f) \<and>
     (\<forall>s a f. snd (st_CreateMicroVM S s a f) = f) \<and>
     (\<forall>s a f. snd (st_DeleteMicroVM S s a f) = f) \<and>
     (\<forall>s a f. snd (st_GetMicroVM S s a f) = f) \<and>
     (\<forall>s a f. snd (st_ListMicroVMs S s a f) = f) \<and>
     (\<forall>s a f. snd (st_ListMicroVMsStream S s a f) = f)"

lemma quietD:
  assumes "quiet S"
  shows "st_Close S s f = f" 
    "snd (st_CreateMicroVM S s a0 f) = f" 
    "snd (st_DeleteMicroVM S s a1 f) = f" 
    "snd (st_GetMicroVM S s a2 f) = f" 
    "snd (st_ListMicroVMs S s a3 f) = f" 
    "snd (st_ListMicroVMsStream S s a4 f) = f"
  using assms unfolding quiet_def by blast+

lemma Close_returns:
  assumes "quiet S"
  shows "FakeClient_Close S fake =
    Return (recordInvocation ''Close'' [] (fake\<lparr>fk_closeArgsForCall := fk_closeArgsForCall fake @ [()]\<rparr>))"
  by (auto simp: FakeClient_Close_def recordInvocation_def Let_def quietD(1) [OF assms])

lemma calls_of_snoc: "calls_of key (ops @ [x]) = calls_of key ops @ map snd (filter (\<lambda>e. fst e = key) (log_entry x))"
  by (simp add: calls_of_def)

lemma Invocations_recorded:
  "FakeClient_Invocations (recordInvocation key args fake) =
     (FakeClient_Invocations fake)(key \<mapsto> (case FakeClient_Invocations fake key of None \<Rightarrow> [] | Some cs \<Rightarrow> cs) @ [args])"
  by (simp add: FakeClient_Invocations_def recordInvocation_def Let_def)

text \<open>The state of the fake after a sequence of operations: the log and the numbers of the calls.\<close>

definition logged :: "FakeClient \<Rightarrow> fake_op list \<Rightarrow> bool" where
  "logged fake ops \<longleftrightarrow>
     (\<forall>key. FakeClient_Invocations fake key = (if calls_of key ops = [] then None else Some (calls_of key ops)))"

definition boxed :: "('q option \<Rightarrow> interface) \<Rightarrow> 'q call_args \<Rightarrow> interface list" where
  "boxed i = (\<lambda>(arg1, arg2, arg3). [I_Context arg1, i arg2, I_CallOptions arg3])"

definition counted :: "FakeClient \<Rightarrow> fake_op list \<Rightarrow> bool" where
  "counted fake ops \<longleftrightarrow>
     length (fk_closeArgsForCall fake) = length (calls_of ''Close'' ops) \<and>
     map (boxed I_CreateMicroVMRequest) (fm_ArgsForCall (fk_CreateMicroVM fake)) = calls_of ''CreateMicroVM'' ops \<and>
     map (boxed I_DeleteMicroVMRequest) (fm_ArgsForCall (fk_DeleteMicroVM fake)) = calls_of ''DeleteMicroVM'' ops \<and>
     map (boxed I_GetMicroVMRequest) (fm_ArgsForCall (fk_GetMicroVM fake)) = calls_of ''GetMicroVM'' ops \<and>
     map (boxed I_ListMicroVMsRequest) (fm_ArgsForCall (fk_ListMicroVMs fake)) = calls_of ''ListMicroVMs'' ops \<and>
     map (boxed I_ListMicroVMsRequest) (fm_ArgsForCall (fk_ListMicroVMsStream fake)) = calls_of ''ListMicroVMsStream'' ops"

lemma invoked_eqs:
  assumes "quiet S"
  shows
    "snd (FakeClient_CreateMicroVM S a bCreateMicroVMRequest c fake) = recordInvocation ''CreateMicroVM'' [I_Context a, I_CreateMicroVMRequest bCreateMicroVMRequest, I_CallOptions c]
       (fk_CreateMicroVM_update (\<lambda>m. m\<lparr>fm_ArgsForCall := fm_ArgsForCall m @ [(a, bCreateMicroVMRequest, c)]\<rparr>) fake)"
    "snd (FakeClient_DeleteMicroVM S a bDeleteMicroVMRequest c fake) = recordInvocation ''DeleteMicroVM'' [I_Context a, I_DeleteMicroVMRequest bDeleteMicroVMRequest, I_CallOptions c]
       (fk_DeleteMicroVM_update (\<lambda>m. m\<lparr>fm_ArgsForCall := fm_ArgsForCall m @ [(a, bDeleteMicroVMRequest, c)]\<rparr>) fake)"
    "snd (FakeClient_GetMicroVM S a bGetMicroVMRequest c fake) = recordInvocation ''GetMicroVM'' [I_Context a, I_GetMicroVMRequest bGetMicroVMRequest, I_CallOptions c]
       (fk_GetMicroVM_update (\<lambda>m. m\<lparr>fm_ArgsForCall := fm_ArgsForCall m @ [(a, bGetMicroVMRequest, c)]\<rparr>) fake)"
    "snd (FakeClient_ListMicroVMs S a bListMicroVMsRequest c fake) = recordInvocation ''ListMicroVMs'' [I_Context a, I_ListMicroVMsRequest bListMicroVMsRequest, I_CallOptions c]
       (fk_ListMicroVMs_update (\<lambda>m. m\<lparr>fm_ArgsForCall := fm_ArgsForCall m @ [(a, bListMicroVMsRequest, c)]\<rparr>) fake)"
    "snd (FakeClient_ListMicroVMsStream S a bListMicroVMsRequest c fake) = recordInvocation ''ListMicroVMsStream'' [I_Context a, I_ListMicroVMsRequest bListMicroVMsRequest, I_CallOptions c]
       (fk_ListMicroVMsStream_update (\<lambda>m. m\<lparr>fm_ArgsForCall := fm_ArgsForCall m @ [(a, bListMicroVMsRequest, c)]\<rparr>) fake)"
  unfolding FakeClient_CreateMicroVM_def FakeClient_DeleteMicroVM_def FakeClient_GetMicroVM_def FakeClient_ListMicroVMs_def FakeClient_ListMicroVMsStream_def
  using assms by (subst fake_slot.invoked, unfold_locales, simp_all add: quietD)+

lemma logged_recorded:
  assumes "logged fake ops" "fk_invocations fake' = fk_invocations fake" "log_entry x = [(key, args)]"
  shows "logged (recordInvocation key args fake') (ops @ [x])"
proof -
  have "FakeClient_Invocations fake' = FakeClient_Invocations fake" by (simp add: FakeClient_Invocations_def assms(2))
  then show ?thesis using assms(1,3) by (simp add: logged_def Invocations_recorded calls_of_snoc)
qed

lemma logged_unrecorded:
  assumes "logged fake ops" "fk_invocations fake' = fk_invocations fake" "log_entry x = []"
  shows "logged fake' (ops @ [x])"
  using assms by (simp add: logged_def calls_of_snoc FakeClient_Invocations_def)

lemmas configure_defs =
  FakeClient_CloseCalls_def method_Calls_def method_Returns_def method_ReturnsOnCall_def Let_def
  FakeClient_CreateMicroVMCalls_def FakeClient_CreateMicroVMReturns_def FakeClient_CreateMicroVMReturnsOnCall_def
  FakeClient_DeleteMicroVMCalls_def FakeClient_DeleteMicroVMReturns_def FakeClient_DeleteMicroVMReturnsOnCall_def
  FakeClient_GetMicroVMCalls_def FakeClient_GetMicroVMReturns_def FakeClient_GetMicroVMReturnsOnCall_def
  FakeClient_ListMicroVMsCalls_def FakeClient_ListMicroVMsReturns_def FakeClient_ListMicroVMsReturnsOnCall_def
  FakeClient_ListMicroVMsStreamCalls_def FakeClient_ListMicroVMsStreamReturns_def FakeClient_ListMicroVMsStreamReturnsOnCall_def

lemma fake_step_logged:
  assumes "quiet S" "logged fake ops"
  shows "logged (fake_step S x fake) (ops @ [x])"
  using logged_recorded [OF assms(2)] logged_unrecorded [OF assms(2)]
  by (cases x) (simp_all add: Close_returns [OF assms(1)] invoked_eqs [OF assms(1)] configure_defs)

lemma fake_step_counted:
  assumes "quiet S" "counted fake ops"
  shows "counted (fake_step S x fake) (ops @ [x])"
  using assms(2)
  by (cases x) (simp_all add: counted_def calls_of_snoc boxed_def Close_returns [OF assms(1)] invoked_eqs [OF assms(1)]
      recordInvocation_def configure_defs)

lemma fake_run_records:
  assumes "quiet S"
  shows "logged (fake_run S ops new_FakeClient) ops \<and> counted (fake_run S ops new_FakeClient) ops"
proof (induction ops rule: rev_induct)
  case Nil
  then show ?case
    by (simp add: fake_run_def logged_def counted_def calls_of_def FakeClient_Invocations_def new_FakeClient_def new_method_def)
next
  case (snoc x ops)
  then show ?case using fake_step_logged [OF assms] fake_step_counted [OF assms] by (simp add: fake_run_def)
qed

section \<open>Properties\<close>

text \<open>
  A reader of the arguments of a call: it gives those of the i-th of the recorded calls, and panics for an
  index at which there was no call.
\<close>

definition reads_args :: "('q option \<Rightarrow> interface) \<Rightarrow> (int \<Rightarrow> 'q call_args outcome) \<Rightarrow> interface list list \<Rightarrow> bool" where
  "reads_args box ArgsForCall calls \<longleftrightarrow>
     (\<forall>i. if 0 \<le> i \<and> i < int (length calls)
          then \<exists>args. ArgsForCall i = Return args \<and> boxed box args = calls ! nat i
          else ArgsForCall i = Panic ''index out of range'')"

lemma method_ArgsForCall_reads:
  assumes "map (boxed box) (fm_ArgsForCall m) = calls"
  shows "reads_args box (method_ArgsForCall m) calls"
  unfolding reads_args_def assms [symmetric] by (auto simp: method_ArgsForCall_def nat_less_iff)

text \<open>
  C38: what a test reads from the fake after any sequence of calls and settings is what happened: the log
  has under each name the arguments of the calls in their order, the call counts are the numbers of
  the calls, \<open>ArgsForCall(i)\<close> of each of the five methods with arguments gives those of the i-th call, and
  it panics exactly for an index at which there was no call. No setting of a stub or a result changes the
  record. It is supposed that the stubs a test installs do not themselves call the fake (\<open>quiet\<close>); their
  calls would be in the record as well.
\<close>

theorem fake_records:
  assumes "quiet S" and fake: "fake = fake_run S ops new_FakeClient"
  shows "(\<forall>key. FakeClient_Invocations fake key = (if calls_of key ops = [] then None else Some (calls_of key ops))) \<and>
    FakeClient_CloseCallCount fake = int (length (calls_of ''Close'' ops)) \<and>
    FakeClient_CreateMicroVMCallCount fake = int (length (calls_of ''CreateMicroVM'' ops)) \<and>
    FakeClient_DeleteMicroVMCallCount fake = int (length (calls_of ''DeleteMicroVM'' ops)) \<and>
    FakeClient_GetMicroVMCallCount fake = int (length (calls_of ''GetMicroVM'' ops)) \<and>
    FakeClient_ListMicroVMsCallCount fake = int (length (calls_of ''ListMicroVMs'' ops)) \<and>
    FakeClient_ListMicroVMsStreamCallCount fake = int (length (calls_of ''ListMicroVMsStream'' ops)) \<and>
    reads_args I_CreateMicroVMRequest (\<lambda>i. FakeClient_CreateMicroVMArgsForCall i fake) (calls_of ''CreateMicroVM'' ops) \<and>
    reads_args I_DeleteMicroVMRequest (\<lambda>i. FakeClient_DeleteMicroVMArgsForCall i fake) (calls_of ''DeleteMicroVM'' ops) \<and>
    reads_args I_GetMicroVMRequest (\<lambda>i. FakeClient_GetMicroVMArgsForCall i fake) (calls_of ''GetMicroVM'' ops) \<and>
    reads_args I_ListMicroVMsRequest (\<lambda>i. FakeClient_ListMicroVMsArgsForCall i fake) (calls_of ''ListMicroVMs'' ops) \<and>
    reads_args I_ListMicroVMsRequest (\<lambda>i. FakeClient_ListMicroVMsStreamArgsForCall i fake) (calls_of ''ListMicroVMsStream'' ops)"
proof -
  have l: "logged fake ops" and c: "counted fake ops" using fake_run_records [OF assms(1)] fake by auto
  have len: "length (fm_ArgsForCall m) = length cs" if "map f (fm_ArgsForCall m) = cs" for f cs and m :: "('a, 'b) fake_method"
    using that by auto
  have "reads_args I_CreateMicroVMRequest (\<lambda>i. FakeClient_CreateMicroVMArgsForCall i fake) (calls_of ''CreateMicroVM'' ops)"
    "reads_args I_DeleteMicroVMRequest (\<lambda>i. FakeClient_DeleteMicroVMArgsForCall i fake) (calls_of ''DeleteMicroVM'' ops)"
    "reads_args I_GetMicroVMRequest (\<lambda>i. FakeClient_GetMicroVMArgsForCall i fake) (calls_of ''GetMicroVM'' ops)"
    "reads_args I_ListMicroVMsRequest (\<lambda>i. FakeClient_ListMicroVMsArgsForCall i fake) (calls_of ''ListMicroVMs'' ops)"
    "reads_args I_ListMicroVMsRequest (\<lambda>i. FakeClient_ListMicroVMsStreamArgsForCall i fake) (calls_of ''ListMicroVMsStream'' ops)"
    using c by (auto simp: counted_def FakeClient_CreateMicroVMArgsForCall_def FakeClient_DeleteMicroVMArgsForCall_def
        FakeClient_GetMicroVMArgsForCall_def FakeClient_ListMicroVMsArgsForCall_def FakeClient_ListMicroVMsStreamArgsForCall_def
        intro!: method_ArgsForCall_reads)
  note args = this
  show ?thesis
    using l c by (intro conjI args) (auto simp: logged_def counted_def FakeClient_CloseCallCount_def method_CallCount_def
        FakeClient_CreateMicroVMCallCount_def FakeClient_DeleteMicroVMCallCount_def FakeClient_GetMicroVMCallCount_def
        FakeClient_ListMicroVMsCallCount_def FakeClient_ListMicroVMsStreamCallCount_def dest: len)
qed

definition fx_stubs :: stubs where
  "fx_stubs = \<lparr>st_Close = \<lambda>s f. f, st_CreateMicroVM = \<lambda>s a f. ((None, None), f), st_DeleteMicroVM = \<lambda>s a f. ((None, None), f),
     st_GetMicroVM = \<lambda>s a f. ((None, None), f), st_ListMicroVMs = \<lambda>s a f. ((None, None), f),
     st_ListMicroVMsStream = \<lambda>s a f. ((None, None), f)\<rparr>"

theorem fake_records_witness:
  "FakeClient_GetMicroVMCallCount (fake_run fx_stubs
     [Op_GetMicroVM 0 None None, Op_GetMicroVMReturns None None, Op_Close] new_FakeClient) = 1"
proof -
  have "quiet fx_stubs" by (simp add: quiet_def fx_stubs_def)
  from fake_records [OF this refl] show ?thesis by (simp add: calls_of_def)
qed

text \<open>
  The answer of a call: the stub decides when there is one; otherwise the result set for a call with
  this number, and the default result when there is none. Setting a result removes the stub, and a
  result that was set for a call is what that call returns, whatever is set for other calls.
\<close>

lemma fake_answers:
  "fst (FakeClient_GetMicroVM S a b c fake) =
     (case fm_Stub (fk_GetMicroVM fake) of
        Some s \<Rightarrow> fst (st_GetMicroVM S s (a, b, c) (recordInvocation ''GetMicroVM'' (boxed I_GetMicroVMRequest (a, b, c))
          (fk_GetMicroVM_update (\<lambda>m. m\<lparr>fm_ArgsForCall := fm_ArgsForCall m @ [(a, b, c)]\<rparr>) fake)))
      | None \<Rightarrow> (case Option.bind (fm_ReturnsOnCall (fk_GetMicroVM fake)) (\<lambda>m. m (FakeClient_GetMicroVMCallCount fake)) of
                  Some r \<Rightarrow> r | None \<Rightarrow> fm_Returns (fk_GetMicroVM fake))) \<and>
   fst (FakeClient_GetMicroVM S a b c (FakeClient_GetMicroVMReturnsOnCall i r1 r2 fake)) =
     (if i = FakeClient_GetMicroVMCallCount fake then (r1, r2)
      else fst (FakeClient_GetMicroVM S a b c (FakeClient_GetMicroVMCalls None fake)))"
  unfolding FakeClient_GetMicroVM_def GetMicroVM_slot.answer
  by (auto simp: boxed_def FakeClient_GetMicroVMCallCount_def FakeClient_GetMicroVMReturnsOnCall_def
      FakeClient_GetMicroVMCalls_def method_ReturnsOnCall_def method_Calls_def method_CallCount_def Let_def
      split: option.splits)

end
