(* ===== verification/Fake_Locks.thy ===== *)
theory Fake_Locks
  imports Fake_Client
begin

text \<open>
  The mutexes of \<^verbatim>\<open>controllers/fakes/fake_client.go\<close>. Every operation of the fake is the sequence of its
  lock operations; a goroutine is what is left of the sequences it has to go through, and a step of the
  program is the next lock operation of one goroutine, if the mutex allows it. The controller under
  test and the test itself are such goroutines.
\<close>

section \<open>Lock operations\<close>

datatype mutex =
  closeMutex | createMicroVMMutex | deleteMicroVMMutex | getMicroVMMutex | listMicroVMsMutex |
  listMicroVMsStreamMutex | invocationsMutex

text \<open>
  \<open>Lock\<close> of a \<open>sync.RWMutex\<close> has two stages: from its announcement on, no new reader is let in; it is
  granted when no other goroutine holds the mutex.
\<close>

datatype lock_op = Announce mutex | Lock mutex | Unlock mutex | RLock mutex | RUnlock mutex

abbreviation exclusive :: "mutex \<Rightarrow> lock_op list \<Rightarrow> lock_op list" where
  "exclusive m body \<equiv> [Announce m, Lock m] @ body @ [Unlock m]"

definition recordInvocation_locks :: "lock_op list" where
  "recordInvocation_locks = exclusive invocationsMutex []"

text \<open>The three kinds of an operation on one method's fields.\<close>

definition invoke_locks :: "mutex \<Rightarrow> lock_op list" where
  "invoke_locks m = exclusive m recordInvocation_locks"

definition configure_locks :: "mutex \<Rightarrow> lock_op list" where
  "configure_locks m = exclusive m []"

definition inspect_locks :: "mutex \<Rightarrow> lock_op list" where
  "inspect_locks m = [RLock m, RUnlock m]"

text \<open>\<open>Invocations\<close> takes all the mutexes, first the one of the log; the deferred calls run backwards.\<close>

definition Invocations_locks :: "lock_op list" where
  "Invocations_locks =
     [RLock invocationsMutex, RLock closeMutex, RLock createMicroVMMutex, RLock deleteMicroVMMutex,
      RLock getMicroVMMutex, RLock listMicroVMsMutex, RLock listMicroVMsStreamMutex,
      RUnlock listMicroVMsStreamMutex, RUnlock listMicroVMsMutex, RUnlock getMicroVMMutex,
      RUnlock deleteMicroVMMutex, RUnlock createMicroVMMutex, RUnlock closeMutex, RUnlock invocationsMutex]"

section \<open>Goroutines\<close>

text \<open>
  What a goroutine holds follows from what it still has to do: it holds a mutex when the next
  operation it does on this mutex releases it.
\<close>

fun lock_mutex :: "lock_op \<Rightarrow> mutex" where
  "lock_mutex (Announce m) = m"
| "lock_mutex (Lock m) = m"
| "lock_mutex (Unlock m) = m"
| "lock_mutex (RLock m) = m"
| "lock_mutex (RUnlock m) = m"

definition next_on :: "mutex \<Rightarrow> lock_op list \<Rightarrow> lock_op option" where
  "next_on m p = find (\<lambda>x. lock_mutex x = m) p"

definition writes_lock :: "mutex \<Rightarrow> lock_op list \<Rightarrow> bool" where
  "writes_lock m p \<longleftrightarrow> next_on m p = Some (Unlock m)"

definition reads_lock :: "mutex \<Rightarrow> lock_op list \<Rightarrow> bool" where
  "reads_lock m p \<longleftrightarrow> next_on m p = Some (RUnlock m)"

definition awaits :: "mutex \<Rightarrow> lock_op list \<Rightarrow> bool" where
  "awaits m p \<longleftrightarrow> p \<noteq> [] \<and> hd p = Lock m"

fun allowed :: "lock_op list list \<Rightarrow> lock_op \<Rightarrow> bool" where
  "allowed others (Lock m) \<longleftrightarrow> list_all (\<lambda>p. \<not> writes_lock m p \<and> \<not> reads_lock m p) others"
| "allowed others (RLock m) \<longleftrightarrow> list_all (\<lambda>p. \<not> writes_lock m p \<and> \<not> awaits m p) others"
| "allowed others _ \<longleftrightarrow> True"

inductive go_step :: "lock_op list list \<Rightarrow> lock_op list list \<Rightarrow> bool" where
  go: "allowed (gs1 @ gs2) x \<Longrightarrow> go_step (gs1 @ (x # p) # gs2) (gs1 @ p # gs2)"

inductive_cases go_stepE: "go_step gs gs'"

definition finished :: "lock_op list list \<Rightarrow> bool" where
  "finished gs \<longleftrightarrow> list_all (\<lambda>p. p = []) gs"

definition deadlocked :: "lock_op list list \<Rightarrow> bool" where
  "deadlocked gs \<longleftrightarrow> \<not> finished gs \<and> (\<forall>gs'. \<not> go_step gs gs')"

text \<open>The operations of a goroutine: some of the fake's, one after the other.\<close>

datatype fake_action = Invoke mutex | Configure mutex | Inspect mutex | Invocations

fun action_locks :: "fake_action \<Rightarrow> lock_op list" where
  "action_locks (Invoke m) = invoke_locks m"
| "action_locks (Configure m) = configure_locks m"
| "action_locks (Inspect m) = inspect_locks m"
| "action_locks Invocations = Invocations_locks"

fun method_action :: "fake_action \<Rightarrow> bool" where
  "method_action (Invoke m) = (m \<noteq> invocationsMutex)"
| "method_action (Configure m) = (m \<noteq> invocationsMutex)"
| "method_action (Inspect m) = (m \<noteq> invocationsMutex)"
| "method_action Invocations = False"

definition goroutine :: "fake_action list \<Rightarrow> lock_op list" where
  "goroutine as = concat (map action_locks as)"

section \<open>Progress without Invocations\<close>

lemmas lock_defs = invoke_locks_def configure_locks_def inspect_locks_def recordInvocation_locks_def

text \<open>A goroutine of method operations, somewhere in the middle of one of them.\<close>

definition midway_method :: "lock_op list \<Rightarrow> bool" where
  "midway_method p \<longleftrightarrow> (\<exists>q a as. list_all method_action as \<and> method_action a \<and>
     suffix q (action_locks a) \<and> p = q @ goroutine as)"

lemma method_start: "list_all method_action as \<Longrightarrow> as \<noteq> [] \<Longrightarrow> midway_method (goroutine as)"
proof (cases as)
  case (Cons a bs)
  assume "list_all method_action as"
  then show ?thesis using Cons unfolding midway_method_def goroutine_def by fastforce
qed simp

text \<open>The positions in an operation.\<close>

lemma method_suffixes:
  assumes "method_action a" "suffix q (action_locks a)"
  obtains "q = []"
  | m where "m \<noteq> invocationsMutex" "q = action_locks a" "hd q = Announce m \<or> hd q = RLock m" "q \<noteq> []"
  | m where "m \<noteq> invocationsMutex" "q = Lock m # recordInvocation_locks @ [Unlock m] \<or> q = [Lock m, Unlock m]"
  | m where "m \<noteq> invocationsMutex" "q = Announce invocationsMutex # Lock invocationsMutex # Unlock invocationsMutex # [Unlock m]"
  | m where "m \<noteq> invocationsMutex" "q = Lock invocationsMutex # Unlock invocationsMutex # [Unlock m]"
  | m where "m \<noteq> invocationsMutex" "q = Unlock invocationsMutex # [Unlock m]"
  | m where "m \<noteq> invocationsMutex" "q = [Unlock m] \<or> q = [RUnlock m]"
  using assms by (cases a) (auto simp: lock_defs suffix_Cons)

text \<open>The step a goroutine takes next, by what the mutexes may do to it.\<close>

fun unhindered :: "lock_op list \<Rightarrow> bool" where
  "unhindered (Announce m # p) = True"
| "unhindered (Unlock m # p) = True"
| "unhindered (RUnlock m # p) = True"
| "unhindered _ = False"

lemma next_on_append: "next_on m (p @ q) = (case next_on m p of None \<Rightarrow> next_on m q | Some x \<Rightarrow> Some x)"
  unfolding next_on_def by (induction p) auto

lemma next_on_start:
  "method_action a \<Longrightarrow> next_on m (action_locks a) \<in> {None, Some (Announce m), Some (RLock m)}"
  by (cases a) (auto simp: lock_defs next_on_def)

lemma boundary_free:
  assumes "list_all method_action as"
  shows "next_on m (goroutine as) \<in> {None, Some (Announce m), Some (RLock m)}"
  using assms
proof (induction as)
  case (Cons a as)
  then show ?case using next_on_start [of a m] by (auto simp: goroutine_def next_on_append)
qed (simp add: goroutine_def next_on_def)

lemma action_locks_ne: "action_locks a \<noteq> []"
  by (cases a) (simp_all add: lock_defs Invocations_locks_def)

text \<open>A goroutine in the middle of an operation, normalised so that it has a next step.\<close>

lemma midway_cases:
  assumes "midway_method p"
  obtains "p = []"
  | q a as where "list_all method_action as" "method_action a" "suffix q (action_locks a)" "q \<noteq> []" "p = q @ goroutine as"
proof -
  obtain q a as where p: "list_all method_action as" "method_action a" "suffix q (action_locks a)" "p = q @ goroutine as"
    using assms unfolding midway_method_def by blast
  show thesis
  proof (cases "q = []")
    case False
    with p that(2) show ?thesis by blast
  next
    case q: True
    show ?thesis
    proof (cases as)
      case Nil
      with q p(4) that(1) show ?thesis by (simp add: goroutine_def)
    next
      case (Cons b bs)
      then have "p = action_locks b @ goroutine bs" "list_all method_action bs" "method_action b"
        using p q by (simp_all add: goroutine_def)
      with that(2) [of bs b "action_locks b"] action_locks_ne show ?thesis by simp
    qed
  qed
qed

lemma midway_tail: "midway_method (x # p) \<Longrightarrow> midway_method p"
proof -
  assume "midway_method (x # p)"
  then show ?thesis
  proof (cases rule: midway_cases)
    case (2 q a as)
    then obtain q' where q: "q = x # q'" "p = q' @ goroutine as" by (cases q) auto
    then have "suffix q' (action_locks a)" using 2(3) by (auto intro: suffix_ConsD)
    with 2(1,2) q(2) show ?thesis unfolding midway_method_def by blast
  qed simp
qed

text \<open>What holding a mutex says about the next step.\<close>

lemma midway_heads:
  assumes "midway_method p"
  shows "\<not> reads_lock invocationsMutex p"
    and "writes_lock invocationsMutex p \<Longrightarrow> unhindered p"
    and "writes_lock m p \<or> reads_lock m p \<Longrightarrow> unhindered p \<or> hd p = Lock invocationsMutex"
proof -
  have "\<not> reads_lock invocationsMutex p \<and> (writes_lock invocationsMutex p \<longrightarrow> unhindered p) \<and>
      (writes_lock m p \<or> reads_lock m p \<longrightarrow> unhindered p \<or> hd p = Lock invocationsMutex)"
    using assms
  proof (cases rule: midway_cases)
    case 1
    then show ?thesis by (simp add: writes_lock_def reads_lock_def next_on_def)
  next
    case (2 q a as)
    note b = boundary_free [OF 2(1), of invocationsMutex] boundary_free [OF 2(1), of m]
    have n: "next_on k p = (case next_on k q of None \<Rightarrow> next_on k (goroutine as) | Some x \<Rightarrow> Some x)" for k
      by (simp add: 2(5) next_on_append)
    show ?thesis
      using 2(2,3)
    proof (cases rule: method_suffixes)
      case 1
      with 2(4) show ?thesis by simp
    next
      case (2 m')
      then show ?thesis
        using b next_on_start [OF \<open>method_action a\<close>, of m] next_on_start [OF \<open>method_action a\<close>, of invocationsMutex]
        by (auto simp: writes_lock_def reads_lock_def n)
    qed (use b \<open>p = q @ goroutine as\<close> in \<open>auto simp: writes_lock_def reads_lock_def n next_on_def lock_defs split: if_splits\<close>)
  qed
  then show "\<not> reads_lock invocationsMutex p" "writes_lock invocationsMutex p \<Longrightarrow> unhindered p"
    "writes_lock m p \<or> reads_lock m p \<Longrightarrow> unhindered p \<or> hd p = Lock invocationsMutex" by auto
qed

lemma step_at:
  assumes "p \<in> set gs" "p \<noteq> []" "\<And>others. set others \<subseteq> set gs \<Longrightarrow> allowed others (hd p)"
  shows "\<exists>gs'. go_step gs gs'"
proof -
  obtain gs1 gs2 where gs: "gs = gs1 @ p # gs2" using assms(1) by (meson split_list)
  obtain x p' where p: "p = x # p'" using assms(2) by (cases p) auto
  have "allowed (gs1 @ gs2) x" using assms(3) [of "gs1 @ gs2"] gs p by auto
  then show ?thesis using go [of gs1 gs2 x p'] gs p by blast
qed

lemma unhindered_allowed: "unhindered p \<Longrightarrow> p \<noteq> [] \<and> allowed others (hd p)"
  by (cases p rule: unhindered.cases) auto

lemma methods_progress:
  assumes "list_all midway_method gs" "\<not> finished gs"
  shows "\<exists>gs'. go_step gs gs'"
proof (cases "\<exists>p \<in> set gs. unhindered p")
  case True
  then obtain p where p: "p \<in> set gs" "unhindered p" by blast
  show ?thesis by (rule step_at [OF p(1)]) (use unhindered_allowed [OF p(2)] in auto)
next
  case hindered: False
  have mid: "midway_method p" if "p \<in> set gs" for p using assms(1) that by (simp add: list_all_iff)
  have log: "\<not> writes_lock invocationsMutex p \<and> \<not> reads_lock invocationsMutex p" if "p \<in> set gs" for p
    using midway_heads(1,2) [OF mid [OF that]] hindered that by blast
  show ?thesis
  proof (cases "\<exists>p \<in> set gs. p \<noteq> [] \<and> hd p = Lock invocationsMutex")
    case True
    then obtain p where p: "p \<in> set gs" "p \<noteq> []" "hd p = Lock invocationsMutex" by blast
    show ?thesis by (rule step_at [OF p(1,2)]) (use log p(3) in \<open>auto simp: list_all_iff\<close>)
  next
    case False
    have free: "\<not> writes_lock m p \<and> \<not> reads_lock m p" if "p \<in> set gs" for m p
      using midway_heads(3) [OF mid [OF that], of m] hindered False that
      by (cases "p = []") (auto simp: writes_lock_def reads_lock_def next_on_def)
    show ?thesis
    proof (cases "\<exists>p \<in> set gs. \<exists>m. awaits m p")
      case True
      then obtain p m where p: "p \<in> set gs" "p \<noteq> []" "hd p = Lock m" by (auto simp: awaits_def)
      show ?thesis by (rule step_at [OF p(1,2)]) (use free p(3) in \<open>auto simp: list_all_iff\<close>)
    next
      case calm: False
      obtain p where p: "p \<in> set gs" "p \<noteq> []" using assms(2) by (auto simp: finished_def list_all_iff)
      moreover obtain m where "hd p = RLock m"
        using p calm hindered by (cases p rule: unhindered.cases) (auto simp: awaits_def)
      ultimately show ?thesis using free calm by (intro step_at [OF p]) (auto simp: list_all_iff)
    qed
  qed
qed

lemma midway_step: "go_step gs gs' \<Longrightarrow> list_all midway_method gs \<Longrightarrow> list_all midway_method gs'"
  by (induction rule: go_step.induct) (auto dest: midway_tail)

text \<open>Every step shortens the work that is left, so every run comes to an end.\<close>

lemma step_shortens: "go_step gs gs' \<Longrightarrow> length (concat gs) = Suc (length (concat gs'))"
  by (induction rule: go_step.induct) simp

section \<open>Properties\<close>

text \<open>
  C39: goroutines that call the methods of the fake, set stubs and results, count calls and look at
  arguments never block each other for good: whatever has happened so far, either all of them have
  come to their end or one of them can go on, and they take exactly as many steps as there are lock
  operations. So every run ends with all operations carried out.
\<close>

theorem fake_methods_terminate:
  assumes "list_all (list_all method_action) ass" "go_step\<^sup>*\<^sup>* (map goroutine ass) gs"
  shows "\<not> deadlocked gs \<and> wfP (\<lambda>gs' gs. go_step gs gs') \<and> (Ex (go_step gs) \<or> finished gs)"
proof -
  have "midway_method (goroutine as)" if "list_all method_action as" for as
  proof (cases "as = []")
    case True
    have "midway_method [] \<longleftrightarrow> True"
      unfolding midway_method_def
      by (intro eq_True [THEN iffD2] exI [of _ "[]"] exI [of _ "Inspect closeMutex"]) (simp add: goroutine_def)
    then show ?thesis using True by (simp add: goroutine_def)
  qed (use method_start [OF that] in simp)
  then have "list_all midway_method (map goroutine ass)" using assms(1) by (auto simp: list_all_iff)
  with assms(2) have mid: "list_all midway_method gs"
    by (induction rule: rtranclp_induct) (auto dest: midway_step)
  have "wfP (\<lambda>gs' gs. go_step gs gs')"
    by (rule wfp_if_convertible_to_nat [of _ "\<lambda>gs. length (concat gs)"]) (use step_shortens in fastforce)
  then show ?thesis using methods_progress [OF mid] by (auto simp: deadlocked_def)
qed

theorem fake_methods_terminate_witness:
  "\<not> deadlocked [[Lock invocationsMutex, Unlock invocationsMutex, Unlock createMicroVMMutex], [RLock createMicroVMMutex, RUnlock createMicroVMMutex]]"
  (is "\<not> deadlocked ?gs")
proof -
  let ?ass = "[[Invoke createMicroVMMutex], [Inspect createMicroVMMutex]]"
  have "go_step\<^sup>*\<^sup>* (map goroutine ?ass) ?gs"
  proof -
    let ?q = "[RLock createMicroVMMutex, RUnlock createMicroVMMutex]"
    have "go_step ((x # p) # [?q]) (p # [?q])" if "allowed [?q] x" for x p
      using go [of "[]" "[?q]" x p] that by simp
    then have "go_step\<^sup>*\<^sup>* ((x # y # z # p) # [?q]) (p # [?q])" if "allowed [?q] x" "allowed [?q] y" "allowed [?q] z" for x y z p
      using that by (meson converse_rtranclp_into_rtranclp rtranclp.rtrancl_refl)
    then show ?thesis by (simp add: goroutine_def lock_defs writes_lock_def reads_lock_def next_on_def)
  qed
  from fake_methods_terminate [of ?ass, OF _ this] show ?thesis by simp
qed

text \<open>
  C40: \<open>Invocations\<close> takes the mutexes in the opposite order: a goroutine that calls a method and one that
  reads the log can reach a state in which each waits for the other for ever.
\<close>

theorem Invocations_deadlock:
  "\<exists>gs. go_step\<^sup>*\<^sup>* [goroutine [Invoke createMicroVMMutex], goroutine [Invocations]] gs \<and> deadlocked gs"
proof -
  let ?p = "[Lock invocationsMutex, Unlock invocationsMutex, Unlock createMicroVMMutex]"
  let ?q = "drop 2 Invocations_locks"
  let ?a = "Announce invocationsMutex # ?p" and ?I = Invocations_locks
  have start: "[goroutine [Invoke createMicroVMMutex], goroutine [Invocations]] =
      [Announce createMicroVMMutex # Lock createMicroVMMutex # ?a, ?I]"
    by (simp add: goroutine_def lock_defs)
  have 1: "go_step [Announce createMicroVMMutex # Lock createMicroVMMutex # ?a, ?I] [Lock createMicroVMMutex # ?a, ?I]"
    using go [of "[]" "[?I]" "Announce createMicroVMMutex"] by simp
  have 2: "go_step [Lock createMicroVMMutex # ?a, ?I] [?a, ?I]"
    using go [of "[]" "[?I]" "Lock createMicroVMMutex" ?a]
    by (simp add: Invocations_locks_def writes_lock_def reads_lock_def next_on_def)
  have 3: "go_step [?a, ?I] [?a, drop 1 ?I]"
    using go [of "[?a]" "[]" "RLock invocationsMutex" "drop 1 ?I"]
    by (simp add: Invocations_locks_def writes_lock_def awaits_def next_on_def)
  have 4: "go_step [?a, drop 1 ?I] [?a, ?q]"
    using go [of "[?a]" "[]" "RLock closeMutex" ?q]
    by (simp add: Invocations_locks_def writes_lock_def awaits_def next_on_def)
  have 5: "go_step [?a, ?q] [?p, ?q]" using go [of "[]" "[?q]" "Announce invocationsMutex"] by simp
  note step = converse_rtranclp_into_rtranclp [of go_step]
  have "go_step\<^sup>*\<^sup>* [goroutine [Invoke createMicroVMMutex], goroutine [Invocations]] [?p, ?q]"
    unfolding start by (rule step [OF 1 step [OF 2 step [OF 3 step [OF 4 step [OF 5 rtranclp.rtrancl_refl]]]]])
  moreover have "deadlocked [?p, ?q]"
    by (auto simp: deadlocked_def finished_def Invocations_locks_def writes_lock_def reads_lock_def awaits_def next_on_def
        Cons_eq_append_conv elim!: go_stepE)
  ultimately show ?thesis by blast
qed

end
