(* ===== verification/Machine_Properties.thy ===== *)
theory Machine_Properties
  imports Machine_Controller
begin

text \<open>
  The properties of the machine controller: the protocol it keeps with the API server and flintlock,
  what it publishes about a machine, when it lets a machine go, and when it can panic.
\<close>

section \<open>Consequences of a legal run\<close>

fun calls_create :: "event \<Rightarrow> bool" where
  "calls_create (ServiceCreate _) = True"
| "calls_create _ = False"

fun calls_delete :: "event \<Rightarrow> bool" where
  "calls_delete (ServiceDelete _) = True"
| "calls_delete _ = False"

fun calls_close :: "event \<Rightarrow> bool" where
  "calls_close (ServiceClose _) = True"
| "calls_close _ = False"

fun connects :: "event \<Rightarrow> bool" where
  "connects (NewFlintlockClient _ _) = True"
| "connects _ = False"

text \<open>An event that occurs once splits a history in one way.\<close>

lemma unique_hit:
  assumes "xs @ c # ys = pre @ d # post" "P d" "list_all (\<lambda>x. \<not> P x) xs" "list_all (\<lambda>x. \<not> P x) ys"
  shows "xs = pre \<and> c = d \<and> ys = post"
  using assms
  by (auto simp: append_eq_append_conv2 Cons_eq_append_conv append_eq_Cons_conv list_all_iff)

lemma calm_not_in: "list_all (\<lambda>e. \<not> P e) xs \<Longrightarrow> P e \<Longrightarrow> e \<notin> set xs"
  by (auto simp: list_all_iff)

lemma reads_are_calm:
  assumes "list_all reads_only rs"
  shows "list_all (\<lambda>e. \<not> calls_create e) rs" "list_all (\<lambda>e. \<not> calls_delete e) rs"
    "list_all (\<lambda>e. \<not> calls_close e) rs" "list_all (\<lambda>e. \<not> connects e) rs" "list_all (\<lambda>e. \<not> patches_machine e) rs"
proof -
  have "\<not> calls_create e \<and> \<not> calls_delete e \<and> \<not> calls_close e \<and> \<not> connects e \<and> \<not> patches_machine e"
    if "reads_only e" for e using that by (cases e) auto
  then show "list_all (\<lambda>e. \<not> calls_create e) rs" "list_all (\<lambda>e. \<not> calls_delete e) rs"
    "list_all (\<lambda>e. \<not> calls_close e) rs" "list_all (\<lambda>e. \<not> connects e) rs" "list_all (\<lambda>e. \<not> patches_machine e) rs"
    using assms by (auto simp: list_all_iff)
qed

lemma reads_secret_reads_only: "list_all reads_secret ss \<Longrightarrow> list_all reads_only ss"
proof -
  have "reads_only e" if "reads_secret e" for e using that by (cases e) auto
  then show "list_all reads_secret ss \<Longrightarrow> list_all reads_only ss" by (auto simp: list_all_iff)
qed

lemmas secrets_are_calm = reads_are_calm [OF reads_secret_reads_only]

inductive_cases normal_restE: "normal_rest E h es"
inductive_cases delete_restE: "delete_rest E h es"
inductive_cases body_runE: "body_run E h es"
inductive_cases legal_runE: "legal_run E h es"

lemma delete_rest_calm:
  "delete_rest E h es \<Longrightarrow> list_all (\<lambda>e. \<not> calls_create e \<and> \<not> calls_close e \<and> \<not> connects e) es \<and>
     length (filter calls_delete es) \<le> 1"
  by (elim delete_restE) auto

lemma normal_rest_calm:
  "normal_rest E h es \<Longrightarrow> list_all (\<lambda>e. \<not> calls_delete e \<and> \<not> calls_close e \<and> \<not> connects e) es \<and>
     length (filter calls_create es) \<le> 1"
  by (elim normal_restE) auto

lemma normal_rest_create:
  assumes "normal_rest E h es" "es = pre @ ServiceCreate s # post"
  shows "\<exists>m. pre = [PatchMachine m machine_owned] \<and> guarded m \<and> fst (e_PatchMachine E h m machine_owned) = None \<and>
     list_all (\<lambda>e. \<not> calls_create e) post"
  using assms by (elim normal_restE) (auto simp: Cons_eq_append_conv append_eq_Cons_conv)

lemma body_run_create:
  assumes "body_run E h es" "es = pre @ ServiceCreate s # post"
  shows "\<exists>pre' m. pre = pre' @ [PatchMachine m machine_owned] \<and> guarded m \<and>
     fst (e_PatchMachine E (h @ pre') m machine_owned) = None \<and> list_all (\<lambda>e. \<not> calls_create e) (pre @ post)"
  using assms
proof (cases rule: body_run.cases)
  case (br_normal ss a opts gs sg es' sc)
  let ?front = "ss @ [NewFlintlockClient a opts] @ gs"
  have calm: "list_all (\<lambda>e. \<not> calls_create e) ?front"
    using secrets_are_calm(1) [OF br_normal(2)] br_normal(4) by auto
  have "ServiceCreate s \<in> set es'"
  proof -
    have "ServiceCreate s \<in> set (?front @ es' @ [ServiceClose sc])"
      using br_normal(1) assms(2) by (metis append.assoc in_set_conv_decomp)
    moreover have "ServiceCreate s \<notin> set ?front" using calm_not_in [OF calm] by simp
    ultimately show ?thesis by auto
  qed
  then obtain p q where pq: "es' = p @ ServiceCreate s # q" by (meson split_list)
  from normal_rest_create [OF br_normal(5) this] obtain m where m: "p = [PatchMachine m machine_owned]"
    "guarded m" "fst (e_PatchMachine E (h @ ?front) m machine_owned) = None"
    "list_all (\<lambda>e. \<not> calls_create e) q" by auto
  have "(?front @ p) @ ServiceCreate s # q @ [ServiceClose sc] = pre @ ServiceCreate s # post"
    using br_normal(1) assms(2) pq by simp
  from unique_hit [where P = calls_create, OF this] have "?front @ p = pre" "q @ [ServiceClose sc] = post"
    using calm m(1,4) by (auto simp: list_all_iff)
  then show ?thesis using m calm by auto
next
  case (br_delete ss a opts sg es' sc)
  have "list_all (\<lambda>e. \<not> calls_create e) es"
    using br_delete secrets_are_calm(1) delete_rest_calm by (fastforce simp: list_all_iff)
  then show ?thesis using assms(2) by simp
next
  case (br_refused ss a opts)
  then have "list_all (\<lambda>e. \<not> calls_create e) es" using secrets_are_calm(1) by simp
  then show ?thesis using assms(2) by simp
qed (use secrets_are_calm(1) in fastforce)

lemma legal_run_create:
  assumes "legal_run E h es" "es = pre @ ServiceCreate s # post"
  shows "\<exists>pre' m. pre = pre' @ [PatchMachine m machine_owned] \<and> guarded m \<and>
     fst (e_PatchMachine E (h @ pre') m machine_owned) = None \<and> list_all (\<lambda>e. \<not> calls_create e) (pre @ post)"
  using assms
proof (cases rule: legal_run.cases)
  case lr_skip
  then show ?thesis using assms(2) reads_are_calm(1) by fastforce
next
  case (lr_run rs es' m)
  have calm: "list_all (\<lambda>e. \<not> calls_create e) rs" by (rule reads_are_calm(1)) (rule lr_run(2))
  have "ServiceCreate s \<in> set (rs @ es' @ [PatchMachine m machine_owned])"
    using lr_run(1) assms(2) by (metis in_set_conv_decomp)
  then have "ServiceCreate s \<in> set es'" using calm_not_in [OF calm] by auto
  then obtain p q where pq: "es' = p @ ServiceCreate s # q" by (meson split_list)
  from body_run_create [OF lr_run(3) this] obtain p' m' where m': "p = p' @ [PatchMachine m' machine_owned]"
    "guarded m'" "fst (e_PatchMachine E ((h @ rs) @ p') m' machine_owned) = None"
    "list_all (\<lambda>e. \<not> calls_create e) (p @ q)" by auto
  have "(rs @ p) @ ServiceCreate s # q @ [PatchMachine m machine_owned] = pre @ ServiceCreate s # post"
    using lr_run(1) assms(2) pq by simp
  from unique_hit [where P = calls_create, OF this]
  have "rs @ p = pre" "q @ [PatchMachine m machine_owned] = post" using calm m'(1,4) by auto
  then show ?thesis using m' calm by auto
qed

text \<open>How often a run calls what.\<close>

lemma body_run_counts:
  assumes "body_run E h es"
  shows "length (filter calls_create es) + length (filter calls_delete es) \<le> 1"
proof -
  have none: "filter P xs = []" if "list_all (\<lambda>e. \<not> P e) xs" for P and xs :: "event list"
    using that by (simp add: filter_empty_conv list_all_iff)
  show ?thesis
    using assms
  proof (cases rule: body_run.cases)
    case (br_normal ss a opts gs s es' s')
    then show ?thesis
      using none [OF secrets_are_calm(1) [OF br_normal(2)]] none [OF secrets_are_calm(2) [OF br_normal(2)]]
        normal_rest_calm [OF br_normal(5)] none [of calls_delete es'] by (auto simp: list_all_iff)
  next
    case (br_delete ss a opts s es' s')
    then show ?thesis
      using none [OF secrets_are_calm(1) [OF br_delete(2)]] none [OF secrets_are_calm(2) [OF br_delete(2)]]
        delete_rest_calm [OF br_delete(4)] none [of calls_create es'] by (auto simp: list_all_iff)
  qed (use none secrets_are_calm(1,2) in auto)
qed

text \<open>A client that was made is closed once, after every other call; one that was not is not used.\<close>

lemma body_run_connect:
  assumes "body_run E h es" "es = pre @ NewFlintlockClient a opts # post"
  shows "list_all (\<lambda>e. \<not> connects e) (pre @ post) \<and>
    (if client_made E (h @ pre) a opts
     then \<exists>mid s. post = mid @ [ServiceClose s] \<and> list_all (\<lambda>e. \<not> calls_close e) mid
     else post = [])"
  using assms(1)
proof (cases rule: body_run.cases)
  case br_unconnected
  then show ?thesis using assms(2) secrets_are_calm(4) by fastforce
next
  case (br_refused ss a' opts')
  have "ss @ NewFlintlockClient a' opts' # [] = pre @ NewFlintlockClient a opts # post"
    using br_refused(1) assms(2) by simp
  from unique_hit [where P = connects, OF this] br_refused(3) show ?thesis
    using secrets_are_calm(4) [OF br_refused(2)] by auto
next
  case (br_normal ss a' opts' gs s es' s')
  have split: "ss @ NewFlintlockClient a' opts' # (gs @ es' @ [ServiceClose s']) = pre @ NewFlintlockClient a opts # post"
    using br_normal(1) assms(2) by simp
  have calm: "list_all (\<lambda>e. \<not> calls_close e \<and> \<not> connects e) (gs @ es')"
    using br_normal(4) normal_rest_calm [OF br_normal(5)] by (auto simp: list_all_iff)
  then have "list_all (\<lambda>e. \<not> connects e) (gs @ es' @ [ServiceClose s'])" by (auto simp: list_all_iff)
  from unique_hit [where P = connects, OF split _ secrets_are_calm(4) [OF br_normal(2)] this]
  have "pre = ss" "a' = a" "opts' = opts" "post = (gs @ es') @ [ServiceClose s']" by auto
  with br_normal(3) calm secrets_are_calm(4) [OF br_normal(2)] show ?thesis
    unfolding list_all_iff by auto
next
  case (br_delete ss a' opts' s es' s')
  have split: "ss @ NewFlintlockClient a' opts' # (ServiceGet s # es' @ [ServiceClose s']) = pre @ NewFlintlockClient a opts # post"
    using br_delete(1) assms(2) by simp
  have calm: "list_all (\<lambda>e. \<not> calls_close e \<and> \<not> connects e) (ServiceGet s # es')"
    using delete_rest_calm [OF br_delete(4)] by (auto simp: list_all_iff)
  then have "list_all (\<lambda>e. \<not> connects e) (ServiceGet s # es' @ [ServiceClose s'])" by (auto simp: list_all_iff)
  from unique_hit [where P = connects, OF split _ secrets_are_calm(4) [OF br_delete(2)] this]
  have "pre = ss" "a' = a" "opts' = opts" "post = (ServiceGet s # es') @ [ServiceClose s']" by auto
  with br_delete(3) calm secrets_are_calm(4) [OF br_delete(2)] show ?thesis
    unfolding list_all_iff by auto
qed

lemma legal_run_connect:
  assumes "legal_run E h es" "es = pre @ NewFlintlockClient a opts # post"
  shows "\<exists>mid m. post = mid @ [PatchMachine m machine_owned] \<and>
    (if client_made E (h @ pre) a opts
     then \<exists>calls s. mid = calls @ [ServiceClose s] \<and> list_all (\<lambda>e. \<not> calls_close e) calls
     else mid = [])"
  using assms(1)
proof (cases rule: legal_run.cases)
  case lr_skip
  then show ?thesis using assms(2) by simp
next
  case (lr_run rs es' m)
  have rs: "list_all (\<lambda>e. \<not> connects e) rs" by (rule reads_are_calm(4)) (rule lr_run(2))
  have "NewFlintlockClient a opts \<in> set (rs @ es' @ [PatchMachine m machine_owned])"
    using lr_run(1) assms(2) by (metis in_set_conv_decomp)
  then have "NewFlintlockClient a opts \<in> set es'" using calm_not_in [OF rs] by auto
  then obtain p q where pq: "es' = p @ NewFlintlockClient a opts # q" by (meson split_list)
  note conn = body_run_connect [OF lr_run(3) pq]
  have "(rs @ p) @ NewFlintlockClient a opts # q @ [PatchMachine m machine_owned] = pre @ NewFlintlockClient a opts # post"
    using lr_run(1) assms(2) pq by simp
  from unique_hit [where P = connects, OF this] have "rs @ p = pre" "q @ [PatchMachine m machine_owned] = post"
    using rs conn by auto
  then show ?thesis using conn by auto
qed

lemma body_run_silent:
  assumes "body_run E h es" "\<not> list_ex connects es"
  shows "list_all reads_secret es"
  using assms by (cases rule: body_run.cases) (auto simp: list_ex_iff)

section \<open>The states of a microvm\<close>

lemma parseMicroVMState_result:
  "fst (parseMicroVMState E st m) = Return
     (case st of CREATED \<Rightarrow> (zero_Result, None) | PENDING \<Rightarrow> (requeue_later, None)
      | FAILED \<Rightarrow> (zero_Result, Some errMicrovmFailed) | DELETING \<Rightarrow> (requeue_later, None)
      | OtherState _ \<Rightarrow> (requeue_later, Some errMicrovmUnknownState))"
  using GetInstanceID_returns [of "update_MvmMachine (set_vmstate VMStateRunning) m"]
  by (auto simp: parseMicroVMState_def Let_def split: MicroVMState.split)

lemma parseMicroVMState_machine:
  fixes E st m
  defines "m' \<equiv> sc_MvmMachine (snd (parseMicroVMState E st m))"
  shows "machine_ready m' \<longleftrightarrow> st = CREATED \<or> st = DELETING \<and> machine_ready (sc_MvmMachine m)"
    "machine_vmstate m' = (case st of CREATED \<Rightarrow> Some VMStateRunning | PENDING \<Rightarrow> Some VMStatePending
       | FAILED \<Rightarrow> Some VMStateFailed | DELETING \<Rightarrow> machine_vmstate (sc_MvmMachine m)
       | OtherState _ \<Rightarrow> Some VMStateUnknown)"
    "mm_ObjectMeta m' = mm_ObjectMeta (sc_MvmMachine m)" "mm_Spec m' = mm_Spec (sc_MvmMachine m)"
  using GetInstanceID_returns [of "update_MvmMachine (set_vmstate VMStateRunning) m"]
  unfolding m'_def
  by (auto simp: parseMicroVMState_def Let_def scope_simps machine_parts split: MicroVMState.split)

section \<open>Panics\<close>

text \<open>
  What flintlock answers, by its protobuf definition: a microvm that is returned has its spec, with
  the uid, and its status; a creation that succeeds returns a microvm.
\<close>

definition complete_vm :: "MicroVM \<Rightarrow> bool" where
  "complete_vm vm \<longleftrightarrow> (\<exists>uid st. mv_Spec vm = Some (Some uid) \<and> mv_Status vm = Some st)"

definition service_complete :: "env \<Rightarrow> bool" where
  "service_complete E \<longleftrightarrow>
     (\<forall>h s vm. fst (fst (e_ServiceGet E h s)) = Some vm \<longrightarrow> complete_vm vm) \<and>
     (\<forall>h s. snd (fst (e_ServiceCreate E h s)) = None \<longrightarrow>
        (\<exists>vm. fst (fst (e_ServiceCreate E h s)) = Some vm \<and> complete_vm vm))"

lemma GetFailureDomain_total: "\<exists>r. GetFailureDomain m = Return r"
  using GetFailureDomain_placed [of m] GetFailureDomain_unplaced [of m] by (cases "unplaced m") auto

lemma record_microvm_returns: "complete_vm vm \<Longrightarrow> returned (fst (record_microvm E fd (Some vm) m h))"
  by (auto simp: complete_vm_def record_microvm_eq parseMicroVMState_result split: option.splits)

lemma ensure_microvm_returns:
  assumes "service_complete E" "\<And>v. vm = Some v \<Longrightarrow> complete_vm v"
  shows "returned (fst (ensure_microvm E fd svc vm m h))"
proof -
  have "\<exists>v. fst (created E svc m' h') = Some v \<and> complete_vm v" if "snd (created E svc m' h') = None" for m' h'
    using assms(1) that by (simp add: service_complete_def)
  then show ?thesis
    using record_microvm_returns assms(2)
    by (auto simp: ensure_microvm_eq Let_def split: option.splits) (metis option.sel)
qed

lemma normal_with_service_returns:
  assumes "service_complete E"
  shows "returned (fst (normal_with_service E fd svc m h))"
proof -
  have "complete_vm v" if "fst (got E svc m h) = Some v" for v
    using assms that by (simp add: service_complete_def)
  then show ?thesis
    using ensure_microvm_returns [OF assms, of None] ensure_microvm_returns [OF assms, of "fst (got E svc m h)"]
    by (simp add: normal_with_service_eq)
qed

lemma delete_with_service_returns:
  assumes "service_complete E"
  shows "returned (fst (delete_with_service E svc m h))"
  using assms
  by (fastforce simp: delete_with_service_eq Let_def service_complete_def complete_vm_def split: option.splits)

lemma machine_body_returns:
  assumes "service_complete E"
  shows "returned (fst (machine_body E req h f))"
proof -
  have close: "returned (fst (with_deferred_close svc out)) = returned (fst out)" for svc and out :: "reconciled \<times> _"
    by (simp add: with_deferred_close_def split: prod.splits)
  obtain r where "GetFailureDomain (machine_scope_of f) = Return r" using GetFailureDomain_total by blast
  then show ?thesis
    using normal_with_service_returns [OF assms] delete_with_service_returns [OF assms]
    by (auto simp: machine_body_def MachineReconciler_reconcileDelete_def MachineReconciler_reconcileNormal_def
        close split: sum.split prod.split)
qed

section \<open>What the calls leave of the machine\<close>

text \<open>
  With a patch helper that does not change the object and a service that only relabels it, the parts
  of the machine that matter here survive every call.
\<close>

lemma patched_scope_machine:
  "patch_frame E \<Longrightarrow> sc_MvmMachine (patched_scope E m h) = summarised E (sc_MvmMachine m)"
  by (simp add: patched_scope_def patch_frameD)

lemma patched_scope_parts:
  assumes "patch_frame E"
  shows "mm_ObjectMeta (sc_MvmMachine (patched_scope E m h)) = mm_ObjectMeta (sc_MvmMachine m)"
    "mm_Spec (sc_MvmMachine (patched_scope E m h)) = mm_Spec (sc_MvmMachine m)"
    "machine_ready (sc_MvmMachine (patched_scope E m h)) = machine_ready (sc_MvmMachine m)"
    "machine_vmstate (sc_MvmMachine (patched_scope E m h)) = machine_vmstate (sc_MvmMachine m)"
  by (simp_all add: patched_scope_machine [OF assms] machine_parts)

lemma service_scope_parts:
  assumes "service_frame E"
  shows "mm_ObjectMeta (sc_MvmMachine (got_scope E svc m h)) = mm_ObjectMeta (sc_MvmMachine m)"
    "mm_Status (sc_MvmMachine (got_scope E svc m h)) = mm_Status (sc_MvmMachine m)"
    "machine_provider_id (sc_MvmMachine (got_scope E svc m h)) = machine_provider_id (sc_MvmMachine m)"
    "mm_ObjectMeta (sc_MvmMachine (created_scope E svc m h)) = mm_ObjectMeta (sc_MvmMachine m)"
    "mm_Status (sc_MvmMachine (created_scope E svc m h)) = mm_Status (sc_MvmMachine m)"
    "mm_ObjectMeta (sc_MvmMachine (deleted_scope E svc m h)) = mm_ObjectMeta (sc_MvmMachine m)"
    "mm_Status (sc_MvmMachine (deleted_scope E svc m h)) = mm_Status (sc_MvmMachine m)"
proof -
  have s: "sc_MvmMachine (svc_scope (service_at svc m)) = sc_MvmMachine m"
    by (simp add: service_at_def)
  note D = service_frameD [OF assms, of "service_at svc m", unfolded s]
  show "mm_ObjectMeta (sc_MvmMachine (got_scope E svc m h)) = mm_ObjectMeta (sc_MvmMachine m)"
    "mm_Status (sc_MvmMachine (got_scope E svc m h)) = mm_Status (sc_MvmMachine m)"
    "machine_provider_id (sc_MvmMachine (got_scope E svc m h)) = machine_provider_id (sc_MvmMachine m)"
    "mm_ObjectMeta (sc_MvmMachine (created_scope E svc m h)) = mm_ObjectMeta (sc_MvmMachine m)"
    "mm_Status (sc_MvmMachine (created_scope E svc m h)) = mm_Status (sc_MvmMachine m)"
    "mm_ObjectMeta (sc_MvmMachine (deleted_scope E svc m h)) = mm_ObjectMeta (sc_MvmMachine m)"
    "mm_Status (sc_MvmMachine (deleted_scope E svc m h)) = mm_Status (sc_MvmMachine m)"
    using relabelledD [OF D(1)] relabelledD [OF D(2)] relabelledD [OF D(3)]
    by (simp_all add: got_scope_def created_scope_def deleted_scope_def)
qed

lemma finalizer_scopes:
  "mm_Status (sc_MvmMachine (guard_scope E m)) = mm_Status (sc_MvmMachine m)"
  "mm_Spec (sc_MvmMachine (guard_scope E m)) = mm_Spec (sc_MvmMachine m)"
  "machine_finalizers (sc_MvmMachine (guard_scope E m)) =
     e_AddFinalizer E (machine_finalizers (sc_MvmMachine m)) MachineFinalizer"
  "machine_finalizers (sc_MvmMachine (release_scope E m)) =
     e_RemoveFinalizer E (machine_finalizers (sc_MvmMachine m)) MachineFinalizer"
  by (simp_all add: guard_scope_def release_scope_def scope_simps machine_parts)

subsection \<open>The finalizer\<close>

text \<open>The lookup's answer by which the deletion concludes that there is no microvm any more.\<close>

abbreviation vm_gone :: "MicroVM option \<times> error option \<Rightarrow> bool" where
  "vm_gone r \<equiv> fst r = None \<and> (snd r = None \<or> isSpecNotFound (the (snd r)))"

lemma delete_with_service_finalizers:
  assumes "finalizer_laws E" "patch_frame E" "service_frame E"
  shows "set (machine_finalizers (sc_MvmMachine (fst (snd (delete_with_service E svc m h))))) =
    (if vm_gone (got E svc m h) then set (machine_finalizers (sc_MvmMachine m)) - {MachineFinalizer}
     else set (machine_finalizers (sc_MvmMachine m)))"
  by (auto simp: delete_with_service_eq Let_def finalizer_scopes finalizer_lawsD(2) [OF assms(1)]
      patched_scope_parts [OF assms(2)] service_scope_parts [OF assms(3)] scope_simps machine_parts
      split: option.splits)

lemma record_microvm_finalizers:
  assumes "patch_frame E"
  shows "machine_finalizers (sc_MvmMachine (fst (snd (record_microvm E fd vm m h)))) =
    machine_finalizers (sc_MvmMachine m)"
  by (auto simp: record_microvm_eq patched_scope_parts [OF assms] parseMicroVMState_machine scope_simps
      machine_parts split: option.splits)

lemma ensure_microvm_finalizers:
  assumes "finalizer_laws E" "patch_frame E" "service_frame E"
  shows "set (machine_finalizers (sc_MvmMachine (fst (snd (ensure_microvm E fd svc vm m h))))) =
    insert MachineFinalizer (set (machine_finalizers (sc_MvmMachine m)))"
  by (auto simp: ensure_microvm_eq Let_def record_microvm_finalizers [OF assms(2)] finalizer_scopes
      finalizer_lawsD(1) [OF assms(1)] patched_scope_parts [OF assms(2)] service_scope_parts [OF assms(3)]
      split: option.splits)

subsection \<open>What flintlock reported\<close>

text \<open>The microvm was the answer of a lookup or a creation of this history.\<close>

definition reported :: "env \<Rightarrow> history \<Rightarrow> MicroVM \<Rightarrow> bool" where
  "reported E hs vm \<longleftrightarrow> (\<exists>h' svc rest.
     hs = h' @ ServiceGet svc # rest \<and> fst (fst (e_ServiceGet E h' svc)) = Some vm \<or>
     hs = h' @ ServiceCreate svc # rest \<and> fst (fst (e_ServiceCreate E h' svc)) = Some vm)"

lemma reported_mono: "reported E hs vm \<Longrightarrow> reported E (hs @ es) vm"
  unfolding reported_def by (metis append.assoc append_Cons)

lemma reported_got: "fst (got E svc m h) = Some vm \<Longrightarrow> reported E (h @ [ServiceGet (service_at svc m)]) vm"
  unfolding reported_def by blast

lemma reported_created:
  "fst (created E svc m h) = Some vm \<Longrightarrow> reported E (h @ [ServiceCreate (service_at svc m)]) vm"
  unfolding reported_def by blast

text \<open>A successful reconciliation has settled the machine on a microvm that flintlock reported.\<close>

definition settled :: "string \<Rightarrow> MicroVM \<Rightarrow> MicrovmMachine \<Rightarrow> MicrovmMachine \<Rightarrow> Result \<Rightarrow> bool" where
  "settled fd vm old new res \<longleftrightarrow> (\<exists>uid st.
     mv_Spec vm = Some (Some uid) \<and> mv_Status vm = Some st \<and> st \<in> {CREATED, PENDING, DELETING} \<and>
     machine_provider_id new = Some (ProviderPrefix @ fd @ ''/'' @ uid) \<and>
     (machine_ready new \<longleftrightarrow> st = CREATED \<or> st = DELETING \<and> machine_ready old) \<and>
     machine_vmstate new = (case st of CREATED \<Rightarrow> Some VMStateRunning | PENDING \<Rightarrow> Some VMStatePending
       | _ \<Rightarrow> machine_vmstate old) \<and>
     res = (if st = CREATED then zero_Result else requeue_later))"

lemma record_microvm_settled:
  assumes "patch_frame E" "fst (record_microvm E fd vm m h) = Return (res, None)"
  shows "\<exists>v. vm = Some v \<and> settled fd v (sc_MvmMachine m) (sc_MvmMachine (fst (snd (record_microvm E fd vm m h)))) res"
proof -
  from assms(2) obtain v uid st where v: "vm = Some v" "mv_Spec v = Some (Some uid)" "mv_Status v = Some st"
    and ok: "patch_error E (SetProviderID fd uid m) h = None"
    by (auto simp: record_microvm_eq bind_eq_Some_conv split: option.splits)
  then have eq: "record_microvm E fd vm m h =
      (fst (parseMicroVMState E st (patched_scope E (SetProviderID fd uid m) h)),
       snd (parseMicroVMState E st (patched_scope E (SetProviderID fd uid m) h)),
       h @ [patch_event E (SetProviderID fd uid m)])"
    by (simp add: record_microvm_eq)
  show ?thesis
    using assms(2) v unfolding eq settled_def
    by (cases st) (simp_all add: parseMicroVMState_result parseMicroVMState_machine
        patched_scope_parts [OF assms(1)] scope_simps machine_parts)
qed

lemma settled_cong:
  assumes "machine_ready old = machine_ready old'" "machine_vmstate old = machine_vmstate old'"
  shows "settled fd v old new res = settled fd v old' new res"
  unfolding settled_def assms ..

lemma ensure_microvm_settled:
  assumes "patch_frame E" "service_frame E"
    and "fst (ensure_microvm E fd svc vm m h) = Return (res, None)"
    and "\<And>v. vm = Some v \<Longrightarrow> reported E h v"
  shows "\<exists>v. reported E (snd (snd (ensure_microvm E fd svc vm m h))) v \<and>
    settled fd v (sc_MvmMachine m) (sc_MvmMachine (fst (snd (ensure_microvm E fd svc vm m h)))) res"
proof -
  let ?m2 = "patched_scope E (guard_scope E m) h" and ?h2 = "h @ [patch_event E (guard_scope E m)]"
  let ?m3 = "created_scope E svc ?m2 ?h2" and ?h3 = "?h2 @ [ServiceCreate (service_at svc ?m2)]"
  have ok: "patch_error E (guard_scope E m) h = None"
    using assms(3) by (auto simp: ensure_microvm_eq Let_def split: option.splits)
  have grows: "\<exists>es. snd (snd (record_microvm E fd x y z)) = z @ es" for x y z
    using record_microvm_trace [of E fd x y z] by auto
  have old2: "settled fd v (sc_MvmMachine ?m2) new res = settled fd v (sc_MvmMachine m) new res" for v new
    by (rule settled_cong) (simp_all add: patched_scope_parts [OF assms(1)] finalizer_scopes)
  show ?thesis
  proof (cases vm)
    case (Some v)
    then have eq: "ensure_microvm E fd svc vm m h = record_microvm E fd (Some v) ?m2 ?h2"
      using ok by (simp add: ensure_microvm_eq Let_def)
    obtain es where "snd (snd (record_microvm E fd (Some v) ?m2 ?h2)) = h @ [patch_event E (guard_scope E m)] @ es"
      using grows [of "Some v" ?m2 ?h2] by auto
    then show ?thesis
      using record_microvm_settled [OF assms(1) assms(3) [unfolded eq]] reported_mono [OF assms(4) [OF Some]]
      unfolding eq old2 by auto
  next
    case None
    then have eq: "ensure_microvm E fd svc vm m h = record_microvm E fd (fst (created E svc ?m2 ?h2)) ?m3 ?h3"
      using ok assms(3) by (auto simp: ensure_microvm_eq Let_def split: option.splits)
    obtain es where es: "snd (snd (record_microvm E fd (fst (created E svc ?m2 ?h2)) ?m3 ?h3)) = ?h3 @ es"
      using grows by blast
    from record_microvm_settled [OF assms(1) assms(3) [unfolded eq]] obtain v where
      v: "fst (created E svc ?m2 ?h2) = Some v" and
      set: "settled fd v (sc_MvmMachine ?m3) (sc_MvmMachine (fst (snd (record_microvm E fd (fst (created E svc ?m2 ?h2)) ?m3 ?h3)))) res"
      by blast
    have "settled fd v (sc_MvmMachine ?m3) new res = settled fd v (sc_MvmMachine ?m2) new res" for new
      by (rule settled_cong) (simp_all add: service_scope_parts [OF assms(2)])
    then show ?thesis
      using set reported_mono [OF reported_created [OF v], of es] unfolding eq es old2 by auto
  qed
qed

lemma normal_with_service_settled:
  assumes "finalizer_laws E" "patch_frame E" "service_frame E"
    and "fst (normal_with_service E fd svc m h) = Return (res, None)"
  shows "\<exists>v. reported E (snd (snd (normal_with_service E fd svc m h))) v \<and>
    settled fd v (sc_MvmMachine m) (sc_MvmMachine (fst (snd (normal_with_service E fd svc m h)))) res"
    "guarded (sc_MvmMachine (fst (snd (normal_with_service E fd svc m h))))"
proof -
  let ?h = "h @ [ServiceGet (service_at svc m)]" and ?m = "got_scope E svc m h"
  have ok: "\<not> lookup_failed (got E svc m h) \<or> GetProviderID m = ''''"
    using assms(4) by (auto simp: normal_with_service_eq split: if_splits)
  have "settled fd v (sc_MvmMachine ?m) new res = settled fd v (sc_MvmMachine m) new res" for v new
    by (rule settled_cong) (simp_all add: service_scope_parts [OF assms(3)])
  then show "\<exists>v. reported E (snd (snd (normal_with_service E fd svc m h))) v \<and>
      settled fd v (sc_MvmMachine m) (sc_MvmMachine (fst (snd (normal_with_service E fd svc m h)))) res"
    using ok assms(4) reported_got [of E h svc m]
      ensure_microvm_settled [OF assms(2,3), of fd svc None m h res]
      ensure_microvm_settled [OF assms(2,3), of fd svc "fst (got E svc m h)" ?m ?h res]
    by (auto simp: normal_with_service_eq)
  show "guarded (sc_MvmMachine (fst (snd (normal_with_service E fd svc m h))))"
    using ok ensure_microvm_finalizers [OF assms(1-3)] by (auto simp: normal_with_service_eq)
qed

text \<open>A machine is ready at the end of a run only if it was before or flintlock reported it created.\<close>

lemma record_microvm_ready:
  assumes "patch_frame E" "machine_ready (sc_MvmMachine (fst (snd (record_microvm E fd vm m h))))"
  shows "machine_ready (sc_MvmMachine m) \<or> Option.bind vm mv_Status = Some CREATED"
  using assms(2)
  by (auto simp: record_microvm_eq patched_scope_parts [OF assms(1)] parseMicroVMState_machine scope_simps
      machine_parts split: option.splits)

lemma ensure_microvm_ready:
  assumes "patch_frame E" "service_frame E" "\<And>v. vm = Some v \<Longrightarrow> reported E h v"
    and "machine_ready (sc_MvmMachine (fst (snd (ensure_microvm E fd svc vm m h))))"
  shows "machine_ready (sc_MvmMachine m) \<or>
    (\<exists>v. reported E (snd (snd (ensure_microvm E fd svc vm m h))) v \<and> mv_Status v = Some CREATED)"
proof -
  let ?m2 = "patched_scope E (guard_scope E m) h" and ?h2 = "h @ [patch_event E (guard_scope E m)]"
  let ?m3 = "created_scope E svc ?m2 ?h2" and ?h3 = "?h2 @ [ServiceCreate (service_at svc ?m2)]"
  let ?out = "ensure_microvm E fd svc vm m h"
  have same: "machine_ready (sc_MvmMachine ?m2) = machine_ready (sc_MvmMachine m)"
    "machine_ready (sc_MvmMachine ?m3) = machine_ready (sc_MvmMachine m)"
    by (simp_all add: patched_scope_parts [OF assms(1)] service_scope_parts [OF assms(2)] finalizer_scopes)
  have grows: "reported E (snd (snd (record_microvm E fd x y z))) v" if "reported E z v" for x y z v
    using record_microvm_trace [of E fd x y z] reported_mono [OF that] that by auto
  consider (kept) "machine_ready (sc_MvmMachine (fst (snd ?out))) = machine_ready (sc_MvmMachine m)"
    | (found) v where "vm = Some v" "?out = record_microvm E fd (Some v) ?m2 ?h2"
    | (made) "?out = record_microvm E fd (fst (created E svc ?m2 ?h2)) ?m3 ?h3"
    using same
    by (cases "patch_error E (guard_scope E m) h"; cases vm; cases "snd (created E svc ?m2 ?h2)")
       (simp_all add: ensure_microvm_eq Let_def)
  then show ?thesis
  proof cases
    case kept
    then show ?thesis using assms(4) by simp
  next
    case found
    then show ?thesis
      using record_microvm_ready [OF assms(1) assms(4) [unfolded found(2)]] same(1)
        grows [OF reported_mono [OF assms(3) [OF found(1)]]] by auto
  next
    case made
    then show ?thesis
      using record_microvm_ready [OF assms(1) assms(4) [unfolded made]] same(2)
        grows [OF reported_created [of E ?h2 svc ?m2]] by (auto simp: bind_eq_Some_conv)
  qed
qed

lemma normal_with_service_ready:
  assumes "patch_frame E" "service_frame E"
    and "machine_ready (sc_MvmMachine (fst (snd (normal_with_service E fd svc m h))))"
  shows "machine_ready (sc_MvmMachine m) \<or>
    (\<exists>v. reported E (snd (snd (normal_with_service E fd svc m h))) v \<and> mv_Status v = Some CREATED)"
proof -
  let ?h = "h @ [ServiceGet (service_at svc m)]" and ?m = "got_scope E svc m h"
  have "machine_ready (sc_MvmMachine ?m) = machine_ready (sc_MvmMachine m)"
    by (simp add: service_scope_parts [OF assms(2)])
  then show ?thesis
    using assms(3) reported_got [of E h svc m] ensure_microvm_ready [OF assms(1,2), of None h fd svc m]
      ensure_microvm_ready [OF assms(1,2), of "fst (got E svc m h)" ?h fd svc ?m]
    by (auto simp: normal_with_service_eq split: if_splits)
qed

lemma delete_with_service_keeps_ready:
  assumes "patch_frame E" "service_frame E"
    and "machine_ready (sc_MvmMachine (fst (snd (delete_with_service E svc m h))))"
  shows "machine_ready (sc_MvmMachine m)"
  using assms(3)
  by (auto simp: delete_with_service_eq Let_def patched_scope_parts [OF assms(1)]
      service_scope_parts [OF assms(2)] release_scope_def scope_simps machine_parts split: option.splits if_splits)

section \<open>From the parts to a reconciliation\<close>

lemma with_deferred_close_parts:
  "fst (with_deferred_close svc out) = fst out"
  "fst (snd (with_deferred_close svc out)) = fst (snd out)"
  "snd (snd (with_deferred_close svc out)) = snd (snd out) @ [ServiceClose (service_at svc (fst (snd out)))]"
  by (simp_all add: with_deferred_close_def split: prod.splits)

text \<open>A live machine whose cluster and bootstrap data are ready.\<close>

abbreviation provisionable :: "MachineScope \<Rightarrow> bool" where
  "provisionable m \<equiv> cl_Status_InfrastructureReady (sc_Cluster m) \<and>
     m_Spec_Bootstrap_DataSecretName (sc_Machine m) \<noteq> None"

lemma getMicrovmService_grows:
  assumes "getMicrovmService E fd m h = (r, h1)"
  shows "\<exists>ss. h1 = h @ ss \<and> \<not> list_ex calls_create ss \<and> \<not> list_ex calls_delete ss \<and> \<not> list_ex patches_machine ss"
proof -
  obtain ss where ss: "list_all reads_secret ss" and ev: "service_events E fd m h ss"
    using getMicrovmService_events by blast
  have "\<not> list_ex calls_create ss" "\<not> list_ex calls_delete ss" "\<not> list_ex patches_machine ss"
    using secrets_are_calm(1,2,5) [OF ss] by (auto simp: list_ex_iff list_all_iff)
  then show ?thesis
    using assms ev by (auto simp: service_events_def split: sum.splits)
qed

lemma reconcileNormal_cases:
  obtains (stopped) "machine_ready (sc_MvmMachine (fst (snd (MachineReconciler_reconcileNormal E m h)))) =
      machine_ready (sc_MvmMachine m)"
    "mm_ObjectMeta (sc_MvmMachine (fst (snd (MachineReconciler_reconcileNormal E m h)))) = mm_ObjectMeta (sc_MvmMachine m)"
    "provisionable m \<Longrightarrow> \<exists>e. fst (MachineReconciler_reconcileNormal E m h) = Return (zero_Result, Some e)"
    "\<exists>ss. snd (snd (MachineReconciler_reconcileNormal E m h)) = h @ ss \<and> \<not> list_ex calls_create ss \<and> \<not> list_ex calls_delete ss \<and> \<not> list_ex patches_machine ss"
  | (service) fd svc h1 where "provisionable m" "GetFailureDomain m = Return (Inr fd)"
    "getMicrovmService E fd m h = (Inr svc, h1)"
    "MachineReconciler_reconcileNormal E m h = with_deferred_close svc (normal_with_service E fd svc m h1)"
proof -
  obtain r where r: "GetFailureDomain m = Return r" using GetFailureDomain_total by blast
  show thesis
  proof (cases "provisionable m")
    case False
    then show ?thesis
      by (intro stopped) (auto simp: MachineReconciler_reconcileNormal_def scope_simps machine_parts)
  next
    case True
    show ?thesis
    proof (cases r)
      case (Inl e)
      with r True show ?thesis by (intro stopped) (auto simp: MachineReconciler_reconcileNormal_def)
    next
      case (Inr fd)
      obtain s h1 where s: "getMicrovmService E fd m h = (s, h1)" by fastforce
      show ?thesis
      proof (cases s)
        case (Inl e)
        with r s True \<open>r = Inr fd\<close> getMicrovmService_grows [OF s] show ?thesis
          by (intro stopped) (auto simp: MachineReconciler_reconcileNormal_def)
      next
        case (Inr svc)
        with r s True \<open>r = Inr fd\<close> show ?thesis
          by (intro service [of fd svc h1]) (auto simp: MachineReconciler_reconcileNormal_def)
      qed
    qed
  qed
qed

lemma reconcileDelete_cases:
  obtains (stopped) "fst (snd (MachineReconciler_reconcileDelete E m h)) = m"
    "\<And>fd svc h1. GetFailureDomain m = Return (Inr fd) \<Longrightarrow> getMicrovmService E fd m h \<noteq> (Inr svc, h1)"
    "\<exists>ss. snd (snd (MachineReconciler_reconcileDelete E m h)) = h @ ss \<and> \<not> list_ex calls_create ss \<and> \<not> list_ex calls_delete ss \<and> \<not> list_ex patches_machine ss"
  | (service) fd svc h1 where "GetFailureDomain m = Return (Inr fd)"
    "getMicrovmService E fd m h = (Inr svc, h1)"
    "MachineReconciler_reconcileDelete E m h = with_deferred_close svc (delete_with_service E svc m h1)"
proof -
  obtain r where r: "GetFailureDomain m = Return r" using GetFailureDomain_total by blast
  show thesis
  proof (cases r)
    case (Inl e)
    with r show ?thesis by (intro stopped) (auto simp: MachineReconciler_reconcileDelete_def)
  next
    case (Inr fd)
    obtain s h1 where s: "getMicrovmService E fd m h = (s, h1)" by fastforce
    show ?thesis
    proof (cases s)
      case (Inl e)
      with r s \<open>r = Inr fd\<close> getMicrovmService_grows [OF s] show ?thesis
        by (intro stopped) (auto simp: MachineReconciler_reconcileDelete_def)
    next
      case (Inr svc)
      with r s \<open>r = Inr fd\<close> show ?thesis
        by (intro service [of fd svc h1]) (auto simp: MachineReconciler_reconcileDelete_def)
    qed
  qed
qed

text \<open>The object the deferred patch sends.\<close>

lemma machine_Reconcile_last:
  assumes "machine_admitted E req h f"
  shows "last (snd (MachineReconciler_Reconcile E req h)) = patch_event E (fst (snd (machine_body E req h f)))"
    "snd (MachineReconciler_Reconcile E req h) =
       snd (snd (machine_body E req h f)) @ [patch_event E (fst (snd (machine_body E req h f)))]"
    "fst (MachineReconciler_Reconcile E req h) = fst (machine_body E req h f)"
  by (simp_all add: machine_Reconcile_admitted [OF assms] call_eqs)

lemma machine_scope_of_parts:
  "sc_MvmMachine (machine_scope_of f) = f_mvm f" "sc_Cluster (machine_scope_of f) = f_cluster f"
  "sc_Machine (machine_scope_of f) = f_machine f"
  by (simp_all add: machine_scope_of_def)

section \<open>Properties\<close>

text \<open>
  The machine of the fixtures while it is being deleted: it has a deletion timestamp, the finalizer of
  the controller and another one.
\<close>

definition fx_deleting_machine :: MicrovmMachine where
  "fx_deleting_machine = fx_mvm_machine\<lparr>mm_ObjectMeta := (mm_ObjectMeta fx_mvm_machine)
     \<lparr>om_DeletionTimestamp := Some 1, om_Finalizers := [MachineFinalizer, ''other'']\<rparr>\<rparr>"

definition fx_env_deleting :: env where
  "fx_env_deleting = fx_env\<lparr>e_GetMicrovmMachine := \<lambda>h k. Inr fx_deleting_machine\<rparr>"

definition fx_found :: "MicrovmMachine \<Rightarrow> found" where
  "fx_found m = \<lparr>f_mvm = m, f_machine = fx_machine, f_cluster = fx_cluster,
     f_ref = \<lparr>ref_Namespace = fx_namespace, ref_Name = ''tenant1''\<rparr>, f_mvmCluster = fx_mvm_cluster\<rparr>"

lemmas fx_deleting_defs = fx_deleting_machine_def fx_env_deleting_def fx_found_def MachineFinalizer_def

lemma fx_deleting_laws:
  "finalizer_laws fx_env_deleting" "patch_frame fx_env_deleting" "service_frame fx_env_deleting"
  using fx_finalizer_laws(1) fx_patch_frame(1) fx_service_frame(1)
  by (simp_all add: fx_env_deleting_def finalizer_laws_def patch_frame_def service_frame_def)

text \<open>The definitions a witness runs.\<close>

lemmas machine_defs =
  MachineReconciler_Reconcile_def MachineReconciler_reconcileNormal_def MachineReconciler_reconcileDelete_def
  NewMachineScope_def normal_with_service_def ensure_microvm_def record_microvm_def delete_with_service_def
  getMicrovmService_def GetBasicAuthToken_def GetTLSConfig_def GetFailureDomain_def GetProviderID_def
  Service_Get_def Service_Create_def Service_Delete_def MachineScope_Patch_def with_deferred_close_def
  with_deferred_patch_def parseMicroVMState_def update_MvmMachine_def machine_setter_defs Let_def

text \<open>
  C4: every reconciliation of a MicrovmMachine, whatever the API server and flintlock answer, is a
  legal run of the protocol: it only reads, or it reads, obtains a flintlock client, looks up,
  persists the finalizer and creates, or marks not ready and deletes, closes the client and ends with
  one patch of the object.
\<close>

theorem machine_Reconcile_protocol:
  assumes "finalizer_laws E"
  shows "\<exists>es. snd (MachineReconciler_Reconcile E req h) = h @ es \<and> legal_run E h es"
  by (rule machine_run_legal) (rule assms)

theorem machine_Reconcile_protocol_witness:
  "\<exists>es. snd (MachineReconciler_Reconcile fx_env (fx_key ''machine1'') []) = [] @ es \<and> legal_run fx_env [] es"
  by (rule machine_Reconcile_protocol) (rule fx_finalizer_laws)

text \<open>
  C3: a microvm is never created unguarded. Whenever a run calls Create, the call directly before it
  is a patch that succeeded and whose object carries the finalizer, so a microvm that exists is never
  left behind by a deletion of the object; and there is no other call of Create in the run.
\<close>

theorem machine_create_guarded:
  assumes "finalizer_laws E"
    and "snd (MachineReconciler_Reconcile E req h) = h @ pre @ ServiceCreate s # post"
  shows "\<exists>pre' m. pre = pre' @ [PatchMachine m machine_owned] \<and>
    MachineFinalizer \<in> set (machine_finalizers m) \<and>
    fst (e_PatchMachine E (h @ pre') m machine_owned) = None \<and> \<not> list_ex calls_create (pre @ post)"
proof -
  from machine_run_legal [OF assms(1), of req h] assms(2)
  have "legal_run E h (pre @ ServiceCreate s # post)" by auto
  from legal_run_create [OF this refl] show ?thesis
    by (auto simp: list_all_iff list_ex_iff)
qed

theorem machine_create_guarded_witness:
  "\<exists>pre s post pre' m. snd (MachineReconciler_Reconcile fx_env (fx_key ''machine1'') []) = [] @ pre @ ServiceCreate s # post \<and>
     pre = pre' @ [PatchMachine m machine_owned] \<and> MachineFinalizer \<in> set (machine_finalizers m)"
proof -
  have "\<exists>s. ServiceCreate s \<in> set (snd (MachineReconciler_Reconcile fx_env (fx_key ''machine1'') []))"
    by (simp add: machine_defs fx_defs)
  then obtain s pre post where split:
    "snd (MachineReconciler_Reconcile fx_env (fx_key ''machine1'') []) = [] @ pre @ ServiceCreate s # post"
    by (auto dest!: split_list)
  from machine_create_guarded [OF fx_finalizer_laws(1) this] split show ?thesis by blast
qed

text \<open>
  C7: one run of the machine controller performs at most one operation on microvms: it never creates
  twice, never deletes twice and never does both.
\<close>

theorem machine_one_operation:
  assumes "finalizer_laws E"
  shows "\<exists>es. snd (MachineReconciler_Reconcile E req h) = h @ es \<and>
    length (filter calls_create es) + length (filter calls_delete es) \<le> 1"
proof -
  obtain es where es: "snd (MachineReconciler_Reconcile E req h) = h @ es" "legal_run E h es"
    using machine_run_legal [OF assms] by blast
  from es(2) have "length (filter calls_create es) + length (filter calls_delete es) \<le> 1"
  proof (cases rule: legal_run.cases)
    case lr_skip
    then have "filter calls_create es = []" "filter calls_delete es = []"
      using reads_are_calm(1,2) [OF lr_skip] by (simp_all add: filter_empty_conv list_all_iff)
    then show ?thesis by simp
  next
    case (lr_run rs es' m)
    then have "filter calls_create rs = []" "filter calls_delete rs = []"
      using reads_are_calm(1,2) [OF lr_run(2)] by (simp_all add: filter_empty_conv list_all_iff)
    then show ?thesis using lr_run(1) body_run_counts [OF lr_run(3)] by simp
  qed
  with es(1) show ?thesis by blast
qed

theorem machine_one_operation_witness:
  "\<exists>es. snd (MachineReconciler_Reconcile fx_env (fx_key ''machine1'') []) = [] @ es \<and>
    length (filter calls_create es) + length (filter calls_delete es) \<le> 1"
  by (rule machine_one_operation) (rule fx_finalizer_laws)

text \<open>
  C8: flintlock clients do not leak. When the client factory returned a client, the run ends with
  closing it (once, after every call made with it) followed by the final patch; when the factory
  failed, nothing but the final patch follows.
\<close>

theorem machine_client_closed:
  assumes "finalizer_laws E"
    and "snd (MachineReconciler_Reconcile E req h) = h @ pre @ NewFlintlockClient a opts # post"
  shows "\<exists>mid m. post = mid @ [PatchMachine m machine_owned] \<and>
    (if client_made E (h @ pre) a opts
     then \<exists>calls s. mid = calls @ [ServiceClose s] \<and> \<not> list_ex calls_close calls
     else mid = [])"
proof -
  from machine_run_legal [OF assms(1), of req h] assms(2)
  have "legal_run E h (pre @ NewFlintlockClient a opts # post)" by auto
  from legal_run_connect [OF this refl] show ?thesis
    by (auto simp: list_all_iff list_ex_iff split: if_splits)
qed

theorem machine_client_closed_witness:
  "\<exists>pre a opts post calls s m. snd (MachineReconciler_Reconcile fx_env (fx_key ''machine1'') []) =
     [] @ pre @ NewFlintlockClient a opts # post \<and> post = (calls @ [ServiceClose s]) @ [PatchMachine m machine_owned]"
proof -
  have "\<exists>a opts. NewFlintlockClient a opts \<in> set (snd (MachineReconciler_Reconcile fx_env (fx_key ''machine1'') []))"
    by (simp add: machine_defs fx_defs)
  then obtain a opts pre post where split:
    "snd (MachineReconciler_Reconcile fx_env (fx_key ''machine1'') []) = [] @ pre @ NewFlintlockClient a opts # post"
    by (auto dest!: split_list)
  have "client_made fx_env ([] @ pre) a opts" by (simp add: client_made_def fx_defs)
  with machine_client_closed [OF fx_finalizer_laws(1) split] obtain calls s m
    where "post = (calls @ [ServiceClose s]) @ [PatchMachine m machine_owned]" by auto
  with split show ?thesis by blast
qed

text \<open>
  C2: when a machine is let go. For a machine that is being deleted and carries the finalizer, the
  final patch drops the finalizer exactly when a service for its host could be obtained and the
  lookup found no microvm (no answer and either no error or one whose text says not found); the other
  finalizers are never touched, and in that run no microvm operation is called.
\<close>

theorem machine_released_iff_gone:
  assumes "machine_admitted E req h f" "\<not> e_TimeIsZero E (om_DeletionTimestamp (mm_ObjectMeta (f_mvm f)))"
    and "finalizer_laws E" "patch_frame E" "service_frame E"
    and "MachineFinalizer \<in> set (machine_finalizers (f_mvm f))"
  shows "\<exists>m'. last (snd (MachineReconciler_Reconcile E req h)) = PatchMachine m' machine_owned \<and>
    (MachineFinalizer \<notin> set (machine_finalizers m') \<longleftrightarrow>
       (\<exists>fd svc h1. GetFailureDomain (machine_scope_of f) = Return (Inr fd) \<and>
          getMicrovmService E fd (machine_scope_of f) (h @ machine_preamble req f) = (Inr svc, h1) \<and>
          fst (got E svc (machine_scope_of f) h1) = None \<and>
          (case snd (got E svc (machine_scope_of f) h1) of None \<Rightarrow> True
           | Some err \<Rightarrow> Contains (Error err) ''not found''))) \<and>
    set (machine_finalizers m') - {MachineFinalizer} = set (machine_finalizers (f_mvm f)) - {MachineFinalizer}"
proof -
  let ?m = "machine_scope_of f" and ?h = "h @ machine_preamble req f"
  have body: "machine_body E req h f = MachineReconciler_reconcileDelete E ?m ?h"
    using assms(2) by (simp add: machine_body_def)
  have gone: "vm_gone r \<longleftrightarrow> fst r = None \<and> (case snd r of None \<Rightarrow> True | Some err \<Rightarrow> Contains (Error err) ''not found'')"
    for r :: "MicroVM option \<times> error option"
    by (cases "snd r") (simp_all add: isSpecNotFound_def)
  show ?thesis
  proof (cases rule: reconcileDelete_cases [of E ?m ?h])
    case stopped
    then show ?thesis
      using machine_Reconcile_last(1) [OF assms(1)] assms(6)
      by (auto simp: body machine_parts machine_scope_of_parts)
  next
    case (service fd svc h1)
    have fin: "set (machine_finalizers (summarised E (sc_MvmMachine (fst (snd (machine_body E req h f)))))) =
      (if vm_gone (got E svc ?m h1) then set (machine_finalizers (f_mvm f)) - {MachineFinalizer}
       else set (machine_finalizers (f_mvm f)))"
      unfolding body service(3) machine_parts with_deferred_close_parts
        delete_with_service_finalizers [OF assms(3-5)] machine_scope_of_parts ..
    have "(\<exists>fd' svc' h1'. GetFailureDomain ?m = Return (Inr fd') \<and>
          getMicrovmService E fd' ?m ?h = (Inr svc', h1') \<and> vm_gone (got E svc' ?m h1')) \<longleftrightarrow> vm_gone (got E svc ?m h1)"
      using service(1,2) by auto
    then show ?thesis
      using machine_Reconcile_last(1) [OF assms(1)] fin assms(6) unfolding gone by auto
  qed
qed

theorem machine_released_iff_gone_witness:
  "\<exists>m'. last (snd (MachineReconciler_Reconcile fx_env_deleting (fx_key ''machine1'') [])) = PatchMachine m' machine_owned \<and>
     MachineFinalizer \<notin> set (machine_finalizers m')"
proof -
  let ?m = "machine_scope_of (fx_found fx_deleting_machine)"
  have adm: "machine_admitted fx_env_deleting (fx_key ''machine1'') [] (fx_found fx_deleting_machine)"
    by (simp add: machine_admitted_def fx_deleting_defs fx_defs)
  have live: "\<not> e_TimeIsZero fx_env_deleting (om_DeletionTimestamp (mm_ObjectMeta (f_mvm (fx_found fx_deleting_machine))))"
    and fin: "MachineFinalizer \<in> set (machine_finalizers (f_mvm (fx_found fx_deleting_machine)))"
    by (simp_all add: fx_deleting_defs fx_defs)
  have fd: "GetFailureDomain ?m = Return (Inr ''127.0.0.1:9090'')"
    by (simp add: GetFailureDomain_def machine_scope_of_def fx_found_def fx_machine_def)
  have "\<exists>svc h1. getMicrovmService fx_env_deleting ''127.0.0.1:9090'' ?m h = (Inr svc, h1)" for h
    by (simp add: getMicrovmService_def GetBasicAuthToken_def GetTLSConfig_def machine_scope_of_def
        fx_env_deleting_def fx_found_def fx_defs)
  moreover have "got fx_env_deleting svc ?m h1 = (None, Some fx_not_found)" for svc h1
    by (simp add: fx_env_deleting_def fx_env_def)
  moreover have "Contains (Error fx_not_found) ''not found''" by (simp add: fx_not_found_def Contains_def Index_def)
  ultimately show ?thesis
    using machine_released_iff_gone [OF adm live fx_deleting_laws fin] fd by fastforce
qed

end
