(* ===== verification/Machine_Outcomes.thy ===== *)
theory Machine_Outcomes
  imports Machine_Properties
begin

text \<open>
  The outcomes of a machine reconciliation: what a successful run publishes, when a machine may be
  called ready, which runs only read, which panic, and which failures are not reported to the caller.
\<close>

text \<open>The uid and the state a machine was settled on.\<close>

definition settled_as :: "string \<Rightarrow> string \<Rightarrow> MicroVMState \<Rightarrow> MicrovmMachine \<Rightarrow> MicrovmMachine \<Rightarrow> Result \<Rightarrow> bool" where
  "settled_as fd uid st old new res \<longleftrightarrow>
     st \<in> {CREATED, PENDING, DELETING} \<and>
     machine_provider_id new = Some (ProviderPrefix @ fd @ ''/'' @ uid) \<and>
     (machine_ready new \<longleftrightarrow> st = CREATED \<or> st = DELETING \<and> machine_ready old) \<and>
     machine_vmstate new = (case st of CREATED \<Rightarrow> Some VMStateRunning | PENDING \<Rightarrow> Some VMStatePending
       | _ \<Rightarrow> machine_vmstate old) \<and>
     res = (if st = CREATED then zero_Result else requeue_later)"

lemma settled_iff:
  "settled fd vm old new res \<longleftrightarrow> (\<exists>uid st. mv_Spec vm = Some (Some uid) \<and> mv_Status vm = Some st \<and>
     settled_as fd uid st old new res)"
  unfolding settled_def settled_as_def by blast

lemma machine_success_settles:
  assumes "machine_admitted E req h f" "e_TimeIsZero E (om_DeletionTimestamp (mm_ObjectMeta (f_mvm f)))"
    and "provisionable (machine_scope_of f)"
    and "finalizer_laws E" "patch_frame E" "service_frame E"
    and "fst (MachineReconciler_Reconcile E req h) = Return (res, None)"
  shows "\<exists>fd vm uid st m'. GetFailureDomain (machine_scope_of f) = Return (Inr fd) \<and>
    reported E (snd (MachineReconciler_Reconcile E req h)) vm \<and>
    mv_Spec vm = Some (Some uid) \<and> mv_Status vm = Some st \<and> st \<in> {CREATED, PENDING, DELETING} \<and>
    last (snd (MachineReconciler_Reconcile E req h)) = PatchMachine m' machine_owned \<and>
    MachineFinalizer \<in> set (machine_finalizers m') \<and>
    machine_provider_id m' = Some (ProviderPrefix @ fd @ ''/'' @ uid) \<and>
    (machine_ready m' \<longleftrightarrow> st = CREATED \<or> st = DELETING \<and> machine_ready (f_mvm f)) \<and>
    machine_vmstate m' = (case st of CREATED \<Rightarrow> Some VMStateRunning | PENDING \<Rightarrow> Some VMStatePending
      | _ \<Rightarrow> machine_vmstate (f_mvm f)) \<and>
    res = (if st = CREATED then zero_Result else zero_Result\<lparr>RequeueAfter := requeuePeriod\<rparr>)"
proof -
  let ?m = "machine_scope_of f" and ?h = "h @ machine_preamble req f"
  have body: "machine_body E req h f = MachineReconciler_reconcileNormal E ?m ?h"
    using assms(2) by (simp add: machine_body_def)
  note last = machine_Reconcile_last [OF assms(1)]
  show ?thesis
  proof (cases rule: reconcileNormal_cases [of E ?m ?h])
    case stopped
    then show ?thesis using assms(3,7) last(3) by (auto simp: body)
  next
    case (service fd svc h1)
    let ?out = "normal_with_service E fd svc ?m h1"
    note body' = trans [OF body service(4)]
    have "fst ?out = Return (res, None)"
      using assms(7) last(3) by (simp add: body' with_deferred_close_parts)
    from normal_with_service_settled [OF assms(4-6) this]
    obtain vm where vm: "reported E (snd (snd ?out)) vm"
      "settled fd vm (f_mvm f) (sc_MvmMachine (fst (snd ?out))) res"
      and g: "guarded (sc_MvmMachine (fst (snd ?out)))" unfolding machine_scope_of_parts by blast
    have "reported E (snd (MachineReconciler_Reconcile E req h)) vm"
      using vm(1) by (simp add: last(2) body' with_deferred_close_parts reported_mono del: append_assoc)
    moreover have "last (snd (MachineReconciler_Reconcile E req h)) = patch_event E (fst (snd ?out))"
      using last(1) by (simp add: body' with_deferred_close_parts)
    moreover from vm(2) obtain uid st where "mv_Spec vm = Some (Some uid)" "mv_Status vm = Some st"
      "settled_as fd uid st (f_mvm f) (sc_MvmMachine (fst (snd ?out))) res"
      unfolding settled_iff by blast
    ultimately show ?thesis
      using service(2) g unfolding settled_as_def
      by (intro exI [of _ fd] exI [of _ vm] exI [of _ uid] exI [of _ st]
          exI [of _ "summarised E (sc_MvmMachine (fst (snd ?out)))"]) (simp add: machine_parts)
  qed
qed

text \<open>
  C5: what success means. When the reconciliation of a live machine whose cluster infrastructure and
  bootstrap data are ready returns without an error, flintlock reported a microvm in the course of the
  run, in the state created, pending or deleting, and the object patched at the end carries the
  finalizer, the provider id made of the machine's failure domain and that microvm's uid, the
  corresponding vm state and the ready flag exactly if the microvm is created (for a microvm that is
  being deleted, flag and state stay as they were); the request is requeued unless it is created.
\<close>

theorem machine_success_published:
  assumes "machine_admitted E req h f" "e_TimeIsZero E (om_DeletionTimestamp (mm_ObjectMeta (f_mvm f)))"
    and "provisionable (machine_scope_of f)"
    and "finalizer_laws E" "patch_frame E" "service_frame E"
    and "fst (MachineReconciler_Reconcile E req h) = Return (res, None)"
  shows "\<exists>fd vm uid st m'. GetFailureDomain (machine_scope_of f) = Return (Inr fd) \<and>
    reported E (snd (MachineReconciler_Reconcile E req h)) vm \<and>
    mv_Spec vm = Some (Some uid) \<and> mv_Status vm = Some st \<and> st \<in> {CREATED, PENDING, DELETING} \<and>
    last (snd (MachineReconciler_Reconcile E req h)) = PatchMachine m' machine_owned \<and>
    MachineFinalizer \<in> set (machine_finalizers m') \<and>
    machine_provider_id m' = Some (ProviderPrefix @ fd @ ''/'' @ uid) \<and>
    (machine_ready m' \<longleftrightarrow> st = CREATED \<or> st = DELETING \<and> machine_ready (f_mvm f)) \<and>
    machine_vmstate m' = (case st of CREATED \<Rightarrow> Some VMStateRunning | PENDING \<Rightarrow> Some VMStatePending
      | _ \<Rightarrow> machine_vmstate (f_mvm f)) \<and>
    res = (if st = CREATED then zero_Result else zero_Result\<lparr>RequeueAfter := requeuePeriod\<rparr>)"
  using machine_success_settles [OF assms] .

theorem machine_success_published_witness:
  "\<exists>m'. last (snd (MachineReconciler_Reconcile fx_env (fx_key ''machine1'') [])) = PatchMachine m' machine_owned \<and>
     MachineFinalizer \<in> set (machine_finalizers m')"
proof -
  have adm: "machine_admitted fx_env (fx_key ''machine1'') [] (fx_found fx_mvm_machine)"
    by (simp add: machine_admitted_def fx_found_def fx_defs)
  have live: "e_TimeIsZero fx_env (om_DeletionTimestamp (mm_ObjectMeta (f_mvm (fx_found fx_mvm_machine))))"
    and prov: "provisionable (machine_scope_of (fx_found fx_mvm_machine))"
    by (simp_all add: fx_found_def machine_scope_of_def fx_defs)
  have "fst (MachineReconciler_Reconcile fx_env (fx_key ''machine1'') []) = Return (requeue_later, None)"
    by (simp add: machine_defs fx_defs)
  from machine_success_published [OF adm live prov fx_finalizer_laws(1) fx_patch_frame(1) fx_service_frame(1) this]
  show ?thesis by blast
qed

lemma machine_body_ready:
  assumes "patch_frame E" "service_frame E" and ready: "machine_ready (sc_MvmMachine (fst (snd (machine_body E req h f))))"
  shows "machine_ready (f_mvm f) \<or> (\<exists>vm. reported E (snd (snd (machine_body E req h f))) vm \<and> mv_Status vm = Some CREATED)"
proof (cases "e_TimeIsZero E (om_DeletionTimestamp (mm_ObjectMeta (f_mvm f)))")
  let ?m = "machine_scope_of f" and ?h = "h @ machine_preamble req f"
  case True
  then have body: "machine_body E req h f = MachineReconciler_reconcileNormal E ?m ?h"
    by (simp add: machine_body_def)
  show ?thesis
  proof (cases rule: reconcileNormal_cases [of E ?m ?h])
    case stopped
    then show ?thesis using ready by (simp add: body machine_scope_of_parts)
  next
    case (service fd svc h1)
    note body' = trans [OF body service(4)]
    have "machine_ready (sc_MvmMachine (fst (snd (normal_with_service E fd svc ?m h1))))"
      using ready by (simp add: body' with_deferred_close_parts)
    with normal_with_service_ready [OF assms(1,2), of fd svc ?m h1] show ?thesis
      unfolding machine_scope_of_parts body' by (auto simp: with_deferred_close_parts reported_mono)
  qed
next
  let ?m = "machine_scope_of f" and ?h = "h @ machine_preamble req f"
  case False
  then have body: "machine_body E req h f = MachineReconciler_reconcileDelete E ?m ?h"
    by (simp add: machine_body_def)
  show ?thesis
  proof (cases rule: reconcileDelete_cases [of E ?m ?h])
    case stopped
    then show ?thesis using ready by (simp add: body machine_scope_of_parts)
  next
    case (service fd svc h1)
    with ready have "machine_ready (sc_MvmMachine (fst (snd (delete_with_service E svc ?m h1))))"
      by (simp add: body with_deferred_close_parts)
    from delete_with_service_keeps_ready [OF assms(1,2) this] show ?thesis
      by (simp add: machine_scope_of_parts)
  qed
qed

text \<open>
  C6: ready is earned. If the object patched at the end of a run is ready, then it was ready before
  the run or flintlock reported, in the course of the run, a microvm in the created state.
\<close>

theorem machine_ready_earned:
  assumes "machine_admitted E req h f" "patch_frame E" "service_frame E"
    and "last (snd (MachineReconciler_Reconcile E req h)) = PatchMachine m' ts" "machine_ready m'"
  shows "machine_ready (f_mvm f) \<or>
    (\<exists>vm. reported E (snd (MachineReconciler_Reconcile E req h)) vm \<and> mv_Status vm = Some CREATED)"
proof -
  note last = machine_Reconcile_last [OF assms(1)]
  have "machine_ready (sc_MvmMachine (fst (snd (machine_body E req h f))))"
    using assms(4,5) last(1) by (auto simp: machine_parts)
  from machine_body_ready [OF assms(2,3) this] show ?thesis
    by (auto simp: last(2) reported_mono)
qed

theorem machine_ready_earned_witness:
  "\<exists>vm. reported (fx_env_with (None, None) (Some (fx_microvm CREATED), None) None)
      (snd (MachineReconciler_Reconcile (fx_env_with (None, None) (Some (fx_microvm CREATED), None) None) (fx_key ''machine1'') [])) vm \<and>
     mv_Status vm = Some CREATED"
  (is "\<exists>vm. reported ?E (snd (MachineReconciler_Reconcile ?E ?k [])) vm \<and> _")
proof -
  have adm: "machine_admitted ?E ?k [] (fx_found fx_mvm_machine)"
    by (simp add: machine_admitted_def fx_found_def fx_defs)
  have "machine_ready (sc_MvmMachine (fst (snd (machine_body ?E ?k [] (fx_found fx_mvm_machine)))))"
    by (simp add: machine_body_def MachineReconciler_reconcileNormal_def getMicrovmService_def GetBasicAuthToken_def
        GetTLSConfig_def GetFailureDomain_def GetProviderID_def with_deferred_close_parts normal_with_service_eq
        ensure_microvm_eq record_microvm_eq patch_error_def parseMicroVMState_machine Let_def machine_scope_of_def
        fx_found_def fx_defs)
  then have "machine_ready (summarised ?E (sc_MvmMachine (fst (snd (machine_body ?E ?k [] (fx_found fx_mvm_machine))))))"
    by (simp add: machine_parts)
  note machine_Reconcile_last(1) [OF adm] this
  from machine_ready_earned [OF adm fx_patch_frame(2) fx_service_frame(2) this]
  have "machine_ready (f_mvm (fx_found fx_mvm_machine)) \<or>
    (\<exists>vm. reported ?E (snd (MachineReconciler_Reconcile ?E ?k [])) vm \<and> mv_Status vm = Some CREATED)" .
  then show ?thesis by (simp add: fx_found_def fx_mvm_machine_def)
qed

text \<open>
  A request that a guard of Reconcile turns away (the object is gone, has no owner or no cluster,
  is paused, or something could not be read) changes nothing: the run consists of reads, and unless it
  panics it returns with nothing to requeue. Every other run ends with a patch of the object.
\<close>

lemma machine_guards:
  "if \<exists>f. machine_admitted E req h f
   then \<exists>m'. last (snd (MachineReconciler_Reconcile E req h)) = PatchMachine m' machine_owned
   else (\<exists>es. snd (MachineReconciler_Reconcile E req h) = h @ es \<and> list_all reads_only es) \<and>
     (fst (MachineReconciler_Reconcile E req h) = Panic nil_dereference \<or>
      (\<exists>err. fst (MachineReconciler_Reconcile E req h) = Return (zero_Result, err)))"
  using machine_Reconcile_skipped [of E req h] machine_Reconcile_last(1) by auto

text \<open>
  C14: the reconciler does not panic, provided Cluster objects have an infrastructure reference and
  flintlock's answers are complete; in particular the failure domain index, the provider id parser and
  every other slice and map access of the run are safe for all inputs.
\<close>

theorem machine_Reconcile_returns:
  assumes "service_complete E"
    and "\<And>h' om cl. e_GetClusterFromMetadata E h' om = Inr cl \<Longrightarrow> cl_Spec_InfrastructureRef cl \<noteq> None"
  shows "\<exists>r. fst (MachineReconciler_Reconcile E req h) = Return r"
proof (cases "\<exists>f. machine_admitted E req h f")
  case True
  then obtain f where f: "machine_admitted E req h f" by blast
  then show ?thesis
    using machine_body_returns [OF assms(1), of req h f] machine_Reconcile_last(3) [OF f]
    by (simp add: returned_iff)
next
  case False
  from machine_Reconcile_skipped(2) [OF False] assms(2) show ?thesis by blast
qed

theorem machine_Reconcile_returns_witness:
  "\<exists>r. fst (MachineReconciler_Reconcile fx_env (fx_key ''machine1'') []) = Return r"
proof (rule machine_Reconcile_returns)
  show "service_complete fx_env" by (simp add: service_complete_def complete_vm_def fx_defs)
  show "cl_Spec_InfrastructureRef cl \<noteq> None" if "e_GetClusterFromMetadata fx_env h' om = Inr cl" for h' om cl
    using that by (auto simp: fx_defs)
qed

text \<open>
  A Cluster without an infrastructure reference (the field is optional) makes the reconciliation
  of each of its machines panic with a nil dereference.
\<close>

lemma machine_Reconcile_nil_infrastructure:
  assumes "e_GetMicrovmMachine E h req = Inr mvm"
    and "e_GetOwnerMachine E (h @ [GetMicrovmMachine req]) (mm_ObjectMeta mvm) = Inr (Some machine)"
    and "e_GetClusterFromMetadata E (h @ [GetMicrovmMachine req, GetOwnerMachine (mm_ObjectMeta mvm)])
           (m_ObjectMeta machine) = Inr cluster"
    and "\<not> e_IsPaused E cluster (mm_ObjectMeta mvm)" "cl_Spec_InfrastructureRef cluster = None"
  shows "fst (MachineReconciler_Reconcile E req h) = Panic nil_dereference"
  using assms by (simp add: MachineReconciler_Reconcile_def Let_def)

end
