(* ===== verification/Machine_Effects.thy ===== *)
theory Machine_Effects
  imports Machine_Outcomes
begin

text \<open>
  The effects of a machine reconciliation branch by branch: waiting for the cluster and the bootstrap
  data, creating only what is missing, deleting, and the failures that the controller does not report;
  and the requests the controller derives from a change of a MicrovmCluster.
\<close>

section \<open>Lemmas\<close>

lemma ensure_found_trace:
  "\<exists>es. snd (snd (ensure_microvm E fd svc (Some v) m h)) = h @ es \<and> \<not> list_ex calls_create es"
proof -
  let ?m2 = "patched_scope E (guard_scope E m) h" and ?h2 = "h @ [patch_event E (guard_scope E m)]"
  show ?thesis
    using record_microvm_trace [of E fd "Some v" ?m2 ?h2]
    by (auto simp: ensure_microvm_eq Let_def split: option.splits)
qed

lemma ensure_microvm_grows: "\<exists>es. snd (snd (ensure_microvm E fd svc vm m h)) = h @ es"
proof -
  let ?m2 = "patched_scope E (guard_scope E m) h" and ?h2 = "h @ [patch_event E (guard_scope E m)]"
  let ?h3 = "?h2 @ [ServiceCreate (service_at svc ?m2)]"
  show ?thesis
    using record_microvm_trace [of E fd "Some (the vm)" ?m2 ?h2]
      record_microvm_trace [of E fd "fst (created E svc ?m2 ?h2)" "created_scope E svc ?m2 ?h2" ?h3]
    by (auto simp: ensure_microvm_eq Let_def split: option.splits)
qed

text \<open>A lookup of this history found no microvm.\<close>

definition missed :: "env \<Rightarrow> history \<Rightarrow> bool" where
  "missed E hs \<longleftrightarrow> (\<exists>h' svc rest. hs = h' @ ServiceGet svc # rest \<and> vm_gone (fst (e_ServiceGet E h' svc)))"

lemma missed_mono: "missed E hs \<Longrightarrow> missed E (hs @ es)"
  unfolding missed_def by (metis append.assoc append_Cons)

lemma missed_got: "vm_gone (got E svc m h) \<Longrightarrow> missed E (h @ [ServiceGet (service_at svc m)] @ es)"
  unfolding missed_def by auto

lemma normal_with_service_creates:
  "\<exists>es. snd (snd (normal_with_service E fd svc m h)) = h @ es \<and>
     (list_ex calls_create es \<longrightarrow> GetProviderID m = '''' \<or> missed E (h @ es))"
proof (cases "GetProviderID m = ''''")
  case True
  then show ?thesis
    using ensure_microvm_grows [of E fd svc None m h] by (auto simp: normal_with_service_eq)
next
  case False
  let ?h = "h @ [ServiceGet (service_at svc m)]"
  obtain es es' where "snd (snd (ensure_microvm E fd svc (fst (got E svc m h)) (got_scope E svc m h) ?h)) = ?h @ es"
    "snd (snd (ensure_microvm E fd svc (Some (the (fst (got E svc m h)))) (got_scope E svc m h) ?h)) = ?h @ es' \<and>
     \<not> list_ex calls_create es'"
    using ensure_microvm_grows ensure_found_trace by metis
  then show ?thesis
    using False missed_got [of E h svc m]
    by (cases "fst (got E svc m h)") (auto simp: normal_with_service_eq)
qed

text \<open>No run creates while it deletes, and a creation means that the microvm was missing.\<close>

lemma reconcileDelete_no_create:
  "\<exists>es. snd (snd (MachineReconciler_reconcileDelete E m h)) = h @ es \<and> \<not> list_ex calls_create es"
proof (cases rule: reconcileDelete_cases [of E m h])
  case stopped
  then show ?thesis by blast
next
  case (service fd svc h1)
  obtain ss where "h1 = h @ ss" "\<not> list_ex calls_create ss"
    using getMicrovmService_grows [OF service(2)] by blast
  moreover obtain s es where "snd (snd (delete_with_service E svc m h1)) = h1 @ [ServiceGet s] @ es"
    "delete_rest E (h1 @ [ServiceGet s]) es" using delete_with_service_trace by blast
  ultimately show ?thesis
    using delete_rest_calm [of E "h1 @ [ServiceGet s]" es]
    by (auto simp: service(3) with_deferred_close_parts list_ex_iff list_all_iff)
qed

lemma reconcileNormal_creates:
  "\<exists>es. snd (snd (MachineReconciler_reconcileNormal E m h)) = h @ es \<and>
     (list_ex calls_create es \<longrightarrow> provisionable m \<and>
       (GetProviderID m = '''' \<or> missed E (h @ es)))"
proof (cases rule: reconcileNormal_cases [of E m h])
  case stopped
  then show ?thesis by blast
next
  case (service fd svc h1)
  obtain ss where "h1 = h @ ss" "\<not> list_ex calls_create ss"
    using getMicrovmService_grows [OF service(3)] by blast
  moreover obtain es where "snd (snd (normal_with_service E fd svc m h1)) = h1 @ es"
    "list_ex calls_create es \<longrightarrow> GetProviderID m = '''' \<or> missed E (h1 @ es)"
    using normal_with_service_creates by blast
  ultimately show ?thesis
    using service(1) missed_mono [of E "h1 @ es"] by (auto simp: service(4) with_deferred_close_parts)
qed

section \<open>Properties\<close>

text \<open>
  While the cluster infrastructure or the bootstrap data is missing, a live machine is only told
  so: the run reads the objects and ends with one patch, whose object has the ready condition marked
  false with the reason (infrastructure first) and is otherwise the machine as it was; flintlock is
  not contacted, there is no error and nothing is requeued.
\<close>

lemma machine_waits:
  assumes "machine_admitted E req h f" "e_TimeIsZero E (om_DeletionTimestamp (mm_ObjectMeta (f_mvm f)))"
    and "\<not> provisionable (machine_scope_of f)"
  shows "MachineReconciler_Reconcile E req h = (Return (zero_Result, None),
    h @ machine_preamble req f @ [PatchMachine (summarised E (MicrovmMachine_SetConditions
      (e_MarkFalse E MicrovmReadyCondition
         (if cl_Status_InfrastructureReady (f_cluster f) then WaitingForBootstrapDataReason else WaitingForClusterInfraReason)
         ConditionSeverityInfo '''' (MicrovmMachine_GetConditions (f_mvm f))) (f_mvm f))) machine_owned])"
  using assms(2,3)
  by (auto simp: machine_Reconcile_admitted [OF assms(1)] machine_body_def MachineReconciler_reconcileNormal_def
      call_eqs scope_simps machine_scope_of_parts MarkFalse_Machine_def)

text \<open>
  C9: a microvm is created only when it is needed: a run that calls Create is of a live machine whose
  cluster infrastructure and bootstrap data are ready and which has no provider id yet, or whose
  microvm a lookup of the same run did not find.
\<close>

theorem machine_creates_only_missing:
  assumes "snd (MachineReconciler_Reconcile E req h) = h @ es" "ServiceCreate s \<in> set es"
  shows "\<exists>f. machine_admitted E req h f \<and>
    e_TimeIsZero E (om_DeletionTimestamp (mm_ObjectMeta (f_mvm f))) \<and> provisionable (machine_scope_of f) \<and>
    (machine_provider_id (f_mvm f) \<in> {None, Some ''''} \<or>
     missed E (h @ es))"
proof -
  from assms(2) have ex: "list_ex calls_create es" by (auto simp: list_ex_iff intro!: bexI [of _ "ServiceCreate s"])
  have "\<exists>f. machine_admitted E req h f"
  proof (rule ccontr)
    assume "\<nexists>f. machine_admitted E req h f"
    from machine_Reconcile_skipped(1) [OF this] reads_are_calm(1) assms(1) ex show False
      by (auto simp: list_ex_iff list_all_iff)
  qed
  then obtain f where f: "machine_admitted E req h f" by blast
  let ?m = "machine_scope_of f" and ?h = "h @ machine_preamble req f"
  have run: "h @ es = snd (snd (machine_body E req h f)) @ [patch_event E (fst (snd (machine_body E req h f)))]"
    using machine_Reconcile_last(2) [OF f] assms(1) by simp
  have pid: "GetProviderID ?m = '''' \<longleftrightarrow> machine_provider_id (f_mvm f) \<in> {None, Some ''''}"
    by (simp add: GetProviderID_def machine_scope_of_parts split: option.split)
  show ?thesis
  proof (cases "e_TimeIsZero E (om_DeletionTimestamp (mm_ObjectMeta (f_mvm f)))")
    case False
    then have body: "machine_body E req h f = MachineReconciler_reconcileDelete E ?m ?h" by (simp add: machine_body_def)
    obtain es' where "snd (snd (machine_body E req h f)) = ?h @ es'" "\<not> list_ex calls_create es'"
      using reconcileDelete_no_create [of E ?m ?h] unfolding body by blast
    with run ex show ?thesis by simp
  next
    case True
    then have body: "machine_body E req h f = MachineReconciler_reconcileNormal E ?m ?h" by (simp add: machine_body_def)
    obtain es' where es': "snd (snd (machine_body E req h f)) = ?h @ es'"
      "list_ex calls_create es' \<longrightarrow> provisionable ?m \<and> (GetProviderID ?m = '''' \<or> missed E (?h @ es'))"
      using reconcileNormal_creates [of E ?m ?h] unfolding body by blast
    have "list_ex calls_create es'" using run es'(1) ex by auto
    moreover have "missed E (h @ es)" if "missed E (?h @ es')"
      unfolding run es'(1) by (rule missed_mono) (rule that)
    ultimately show ?thesis using es'(2) pid f True by blast
  qed
qed

theorem machine_creates_only_missing_witness:
  "\<exists>f. machine_admitted fx_env (fx_key ''machine1'') [] f \<and> provisionable (machine_scope_of f)"
proof -
  have "\<exists>s. ServiceCreate s \<in> set (snd (MachineReconciler_Reconcile fx_env (fx_key ''machine1'') []))"
    by (simp add: machine_defs fx_defs)
  then obtain s where "ServiceCreate s \<in> set (snd (MachineReconciler_Reconcile fx_env (fx_key ''machine1'') []))" ..
  from machine_creates_only_missing [OF append_Nil [symmetric] this] show ?thesis by blast
qed

lemma delete_with_service_present:
  fixes E h m svc
  defines "p \<equiv> summarised E (sc_MvmMachine (deleting_scope E (got_scope E svc m h)))"
    and "h1 \<equiv> h @ [ServiceGet (service_at svc m)]"
  assumes "got E svc m h = (Some vm, None)" "mv_Status vm = Some st"
  shows "\<exists>mid. snd (snd (delete_with_service E svc m h)) = h1 @ PatchMachine p machine_owned # mid \<and>
    (case fst (e_PatchMachine E h1 p machine_owned) of
       Some e \<Rightarrow> mid = [] \<and> fst (delete_with_service E svc m h) = Return (zero_Result, Some (Errorf ''unable to patch machine'' e))
     | None \<Rightarrow> if st = DELETING then mid = [] \<and> fst (delete_with_service E svc m h) = Return (requeue_later, None)
               else \<exists>s. mid = [ServiceDelete s] \<and> fst (delete_with_service E svc m h) =
                 (case fst (e_ServiceDelete E (h1 @ [PatchMachine p machine_owned]) s) of
                    Some e \<Rightarrow> Return (zero_Result, Some e) | None \<Rightarrow> Return (requeue_later, None)))"
proof -
  have perr: "patch_error E (deleting_scope E (got_scope E svc m h)) h1 =
      map_option (Errorf ''unable to patch machine'') (fst (e_PatchMachine E h1 p machine_owned))"
    by (simp add: patch_error_def p_def)
  let ?m3 = "patched_scope E (deleting_scope E (got_scope E svc m h)) h1" and ?h3 = "h1 @ [PatchMachine p machine_owned]"
  have out: "delete_with_service E svc m h =
      (case fst (e_PatchMachine E h1 p machine_owned) of
         Some e \<Rightarrow> (Return (zero_Result, Some (Errorf ''unable to patch machine'' e)), ?m3, ?h3)
       | None \<Rightarrow> if st = DELETING then (Return (requeue_later, None), ?m3, ?h3)
           else (case delete_error E svc ?m3 ?h3 of
               Some e \<Rightarrow> (Return (zero_Result, Some e), SetNotReady E MicrovmDeleteFailedReason ConditionSeverityError ''''
                 (deleted_scope E svc ?m3 ?h3), ?h3 @ [ServiceDelete (service_at svc ?m3)])
             | None \<Rightarrow> (Return (requeue_later, None), deleted_scope E svc ?m3 ?h3, ?h3 @ [ServiceDelete (service_at svc ?m3)])))"
    using assms(3,4) perr unfolding h1_def
    by (simp add: delete_with_service_eq p_def Let_def split: option.split)
  show ?thesis
    unfolding out by (cases "fst (e_PatchMachine E h1 p machine_owned)"; cases "st = DELETING";
        cases "delete_error E svc ?m3 ?h3") simp_all
qed

lemma delete_with_service_not_ready:
  assumes "got E svc m h = (Some vm, None)" "mv_Status vm = Some st" "patch_frame E" "service_frame E"
  shows "\<not> machine_ready (sc_MvmMachine (deleting_scope E (got_scope E svc m h)))"
    and "\<not> machine_ready (sc_MvmMachine (fst (snd (delete_with_service E svc m h))))"
  using assms(1,2)
  by (auto simp: delete_with_service_eq Let_def scope_simps machine_parts patched_scope_parts [OF assms(3)]
      service_scope_parts [OF assms(4)] split: option.split)

text \<open>
  C10: deleting a machine whose microvm still exists. The object is first patched as not ready; if that
  fails the run stops with the error. Then Delete is called once, unless the microvm is being deleted
  already, and nothing else happens but the closing of the client and the final patch. If Delete fails its
  error is returned as it is; otherwise the request comes back after thirty seconds. In all these cases
  the final patch keeps the finalizers and the object is not ready.
\<close>

theorem machine_deletes:
  assumes "machine_admitted E req h f" "\<not> e_TimeIsZero E (om_DeletionTimestamp (mm_ObjectMeta (f_mvm f)))"
    and "GetFailureDomain (machine_scope_of f) = Return (Inr fd)"
    and "getMicrovmService E fd (machine_scope_of f) (h @ machine_preamble req f) = (Inr svc, h1)"
    and "got E svc (machine_scope_of f) h1 = (Some vm, None)" "mv_Status vm = Some st"
    and "finalizer_laws E" "patch_frame E" "service_frame E"
  shows "\<exists>m1 m' mid. snd (MachineReconciler_Reconcile E req h) =
      h1 @ [ServiceGet (service_at svc (machine_scope_of f)), PatchMachine m1 machine_owned] @ mid @ [PatchMachine m' machine_owned] \<and>
    \<not> machine_ready m1 \<and> \<not> machine_ready m' \<and>
    set (machine_finalizers m') = set (machine_finalizers (f_mvm f)) \<and>
    (let h2 = h1 @ [ServiceGet (service_at svc (machine_scope_of f))]; result = fst (MachineReconciler_Reconcile E req h)
     in case fst (e_PatchMachine E h2 m1 machine_owned) of
          Some e \<Rightarrow> (\<exists>c. mid = [ServiceClose c]) \<and> result = Return (zero_Result, Some (Errorf ''unable to patch machine'' e))
        | None \<Rightarrow>
            if st = DELETING then (\<exists>c. mid = [ServiceClose c]) \<and> result = Return (requeue_later, None)
            else \<exists>s c. mid = [ServiceDelete s, ServiceClose c] \<and>
              result = (case fst (e_ServiceDelete E (h2 @ [PatchMachine m1 machine_owned]) s) of
                          Some e \<Rightarrow> Return (zero_Result, Some e) | None \<Rightarrow> Return (requeue_later, None)))"
proof -
  let ?m = "machine_scope_of f"
  let ?out = "delete_with_service E svc ?m h1" and ?h1 = "h1 @ [ServiceGet (service_at svc ?m)]"
  let ?p = "summarised E (sc_MvmMachine (deleting_scope E (got_scope E svc ?m h1)))"
  let ?m' = "summarised E (sc_MvmMachine (fst (snd ?out)))" and ?close = "ServiceClose (service_at svc (fst (snd ?out)))"
  have body: "machine_body E req h f = with_deferred_close svc ?out"
    using assms(2-4) by (simp add: machine_body_def MachineReconciler_reconcileDelete_def)
  note last = machine_Reconcile_last(2,3) [OF assms(1), unfolded body with_deferred_close_parts]
  have fin: "set (machine_finalizers ?m') = set (machine_finalizers (f_mvm f))"
    unfolding machine_parts delete_with_service_finalizers [OF assms(7-9)] machine_scope_of_parts
    by (simp add: assms(5))
  have nr: "\<not> machine_ready ?p" "\<not> machine_ready ?m'"
    using delete_with_service_not_ready [OF assms(5,6,8,9)] by (simp_all add: machine_parts)
  from delete_with_service_present [OF assms(5,6)] obtain mid where
    mid: "snd (snd ?out) = ?h1 @ PatchMachine ?p machine_owned # mid" and
    cases: "case fst (e_PatchMachine E ?h1 ?p machine_owned) of
       Some e \<Rightarrow> mid = [] \<and> fst ?out = Return (zero_Result, Some (Errorf ''unable to patch machine'' e))
     | None \<Rightarrow> if st = DELETING then mid = [] \<and> fst ?out = Return (requeue_later, None)
               else \<exists>s. mid = [ServiceDelete s] \<and> fst ?out =
                 (case fst (e_ServiceDelete E (?h1 @ [PatchMachine ?p machine_owned]) s) of
                    Some e \<Rightarrow> Return (zero_Result, Some e) | None \<Rightarrow> Return (requeue_later, None))" by blast
  have trace: "snd (MachineReconciler_Reconcile E req h) = h1 @ [ServiceGet (service_at svc ?m), PatchMachine ?p machine_owned] @
      (mid @ [?close]) @ [PatchMachine ?m' machine_owned]"
    using last(1) mid by simp
  show ?thesis
  proof (intro exI conjI)
    show "let h2 = ?h1; result = fst (MachineReconciler_Reconcile E req h)
       in case fst (e_PatchMachine E h2 ?p machine_owned) of
            Some e \<Rightarrow> (\<exists>c. mid @ [?close] = [ServiceClose c]) \<and> result = Return (zero_Result, Some (Errorf ''unable to patch machine'' e))
          | None \<Rightarrow>
              if st = DELETING then (\<exists>c. mid @ [?close] = [ServiceClose c]) \<and> result = Return (requeue_later, None)
              else \<exists>s c. mid @ [?close] = [ServiceDelete s, ServiceClose c] \<and>
                result = (case fst (e_ServiceDelete E (h2 @ [PatchMachine ?p machine_owned]) s) of
                            Some e \<Rightarrow> Return (zero_Result, Some e) | None \<Rightarrow> Return (requeue_later, None))"
      using cases last(2) by (cases "fst (e_PatchMachine E ?h1 ?p machine_owned)"; cases "st = DELETING") auto
  qed (fact trace nr fin)+
qed

text \<open>The fixtures' machine while it is deleted and flintlock still has its microvm.\<close>

definition fx_env_present :: env where
  "fx_env_present = fx_env_deleting\<lparr>e_ServiceGet := \<lambda>h svc. ((Some (fx_microvm CREATED), None), sc_MvmMachine (svc_scope svc))\<rparr>"

definition fx_client_opts :: "ClientOption list" where
  "fx_client_opts = [WithProxy None, WithBasicAuth '''', WithTLS None]"

definition fx_service :: "MachineScope \<Rightarrow> Service" where
  "fx_service m = \<lparr>svc_scope = m, svc_client = 0, svc_addr = ''127.0.0.1:9090''\<rparr>"

lemma fx_present_laws: "finalizer_laws fx_env_present" "patch_frame fx_env_present" "service_frame fx_env_present"
  using fx_deleting_laws
  by (simp_all add: fx_env_present_def finalizer_laws_def patch_frame_def service_frame_def)

lemma fx_present_service:
  "machine_admitted fx_env_present (fx_key ''machine1'') [] (fx_found fx_deleting_machine)"
  "\<not> e_TimeIsZero fx_env_present (om_DeletionTimestamp (mm_ObjectMeta (f_mvm (fx_found fx_deleting_machine))))"
  "GetFailureDomain (machine_scope_of (fx_found fx_deleting_machine)) = Return (Inr ''127.0.0.1:9090'')"
  "getMicrovmService fx_env_present ''127.0.0.1:9090'' (machine_scope_of (fx_found fx_deleting_machine)) h =
     (Inr (fx_service (machine_scope_of (fx_found fx_deleting_machine))), h @ [NewFlintlockClient ''127.0.0.1:9090'' fx_client_opts])"
  "got fx_env_present svc m h = (Some (fx_microvm CREATED), None)"
  by (simp_all add: machine_admitted_def getMicrovmService_def GetBasicAuthToken_def GetTLSConfig_def
      GetFailureDomain_def machine_scope_of_def fx_env_present_def fx_service_def fx_client_opts_def
      fx_deleting_defs fx_defs)

theorem machine_deletes_witness:
  "\<exists>s. ServiceDelete s \<in> set (snd (MachineReconciler_Reconcile fx_env_present (fx_key ''machine1'') []))"
proof -
  have "mv_Status (fx_microvm CREATED) = Some CREATED" by (simp add: fx_microvm_def)
  note * = machine_deletes [OF fx_present_service(1-4) fx_present_service(5) this fx_present_laws]
  have ok: "fst (e_PatchMachine fx_env_present h m ts) = None" for h m ts
    by (simp add: fx_env_present_def fx_env_deleting_def fx_env_def)
  have "CREATED \<noteq> DELETING" by simp
  with * show ?thesis unfolding Let_def ok by fastforce
qed

text \<open>
  C32: the same failure is reported while a machine is provisioned and dropped while it is deleted.
  When no service can be obtained for the machine's host (no factory, a secret that cannot be read,
  an incomplete TLS secret, a failing client), a live machine's run returns the error, but a deleted
  machine's run returns success with nothing to requeue, although the finalizer is still in place.
\<close>

theorem machine_service_failure:
  assumes "machine_admitted E req h f" "provisionable (machine_scope_of f)"
    and "GetFailureDomain (machine_scope_of f) = Return (Inr fd)"
    and "getMicrovmService E fd (machine_scope_of f) (h @ machine_preamble req f) = (Inl err, h1)"
  shows "fst (MachineReconciler_Reconcile E req h) = Return (zero_Result,
      if e_TimeIsZero E (om_DeletionTimestamp (mm_ObjectMeta (f_mvm f))) then Some err else None) \<and>
    (\<exists>m'. snd (MachineReconciler_Reconcile E req h) = h1 @ [PatchMachine m' machine_owned] \<and>
       machine_finalizers m' = machine_finalizers (f_mvm f))"
  using assms(2-4)
  by (auto simp: machine_Reconcile_last [OF assms(1)] machine_body_def MachineReconciler_reconcileDelete_def
      MachineReconciler_reconcileNormal_def machine_parts machine_scope_of_parts)

theorem machine_service_failure_witness:
  "fst (MachineReconciler_Reconcile (fx_env_deleting\<lparr>e_MvmClientFunc := None\<rparr>) (fx_key ''machine1'') []) =
     Return (zero_Result, None)"
  (is "fst (MachineReconciler_Reconcile ?E ?k []) = _")
proof -
  let ?f = "fx_found fx_deleting_machine"
  have adm: "machine_admitted ?E ?k [] ?f" and prov: "provisionable (machine_scope_of ?f)"
    by (simp_all add: machine_admitted_def machine_scope_of_def fx_deleting_defs fx_defs)
  have "getMicrovmService ?E ''127.0.0.1:9090'' (machine_scope_of ?f) ([] @ machine_preamble ?k ?f) =
      (Inl errClientFactoryFuncRequired, [] @ machine_preamble ?k ?f)"
    by (simp add: getMicrovmService_def)
  from machine_service_failure [OF adm prov fx_present_service(3) this]
  show ?thesis by (simp add: fx_deleting_defs fx_defs)
qed

text \<open>
  C33: the failure of the patch that should remove the finalizer is not reported: when the microvm is
  gone, the run of a deleted machine returns success with nothing to requeue whatever the patch
  answers, also when every patch fails.
\<close>

theorem machine_patch_failure_dropped:
  assumes "machine_admitted E req h f" "\<not> e_TimeIsZero E (om_DeletionTimestamp (mm_ObjectMeta (f_mvm f)))"
    and "GetFailureDomain (machine_scope_of f) = Return (Inr fd)"
    and "getMicrovmService E fd (machine_scope_of f) (h @ machine_preamble req f) = (Inr svc, h1)"
    and "vm_gone (got E svc (machine_scope_of f) h1)"
    and "\<And>h' m ts. fst (e_PatchMachine E h' m ts) \<noteq> None"
  shows "fst (MachineReconciler_Reconcile E req h) = Return (zero_Result, None) \<and>
    (\<exists>hs m'. snd (MachineReconciler_Reconcile E req h) = hs @ [PatchMachine m' machine_owned] \<and>
       fst (e_PatchMachine E hs m' machine_owned) \<noteq> None)"
  using assms
  by (auto simp: machine_Reconcile_last [OF assms(1)] machine_body_def MachineReconciler_reconcileDelete_def
      with_deferred_close_parts delete_with_service_eq Let_def)

theorem machine_patch_failure_dropped_witness:
  "fst (MachineReconciler_Reconcile (fx_env_deleting\<lparr>e_PatchMachine := \<lambda>h m ts. (Some fx_not_found, m)\<rparr>)
     (fx_key ''machine1'') []) = Return (zero_Result, None)"
  (is "fst (MachineReconciler_Reconcile ?E ?k []) = _")
proof -
  let ?f = "fx_found fx_deleting_machine"
  have adm: "machine_admitted ?E ?k [] ?f" and del: "\<not> e_TimeIsZero ?E (om_DeletionTimestamp (mm_ObjectMeta (f_mvm ?f)))"
    by (simp_all add: machine_admitted_def machine_scope_of_def fx_deleting_defs fx_defs)
  have svc: "getMicrovmService ?E ''127.0.0.1:9090'' (machine_scope_of ?f) ([] @ machine_preamble ?k ?f) =
      (Inr (fx_service (machine_scope_of ?f)), ([] @ machine_preamble ?k ?f) @ [NewFlintlockClient ''127.0.0.1:9090'' fx_client_opts])"
    by (simp add: getMicrovmService_def GetBasicAuthToken_def GetTLSConfig_def machine_scope_of_def fx_service_def
        fx_client_opts_def fx_deleting_defs fx_defs)
  have gone: "vm_gone (got ?E s m h)" for s m h
    by (simp add: fx_env_deleting_def fx_env_def fx_not_found_def isSpecNotFound_def Contains_def Index_def)
  show ?thesis
    using machine_patch_failure_dropped [OF adm del fx_present_service(3) svc gone] by simp
qed

text \<open>
  The requests derived from a change of a MicrovmCluster are those of the machines of its owner
  cluster that have an infrastructure reference, in the order the machines are listed and under the
  machine's namespace and the reference's name; a deleted or unowned cluster, another type of object
  and any failing read give none, and deriving the requests only reads.
\<close>

lemma MicroVMClusterToMicrovmMachine_result:
  "fst (MicroVMClusterToMicrovmMachine E o' h) =
     (case o' of None \<Rightarrow> [] | Some c \<Rightarrow>
      if \<not> e_TimeIsZero E (om_DeletionTimestamp (mc_ObjectMeta c)) then []
      else case e_GetOwnerCluster E h (mc_ObjectMeta c) of
        (Some cl, None) \<Rightarrow>
          (case e_GetFilteredMachines E (h @ [GetOwnerCluster (mc_ObjectMeta c)]) cl of
             Inl _ \<Rightarrow> []
           | Inr ms \<Rightarrow> [\<lparr>nn_Namespace = om_Namespace (m_ObjectMeta m), nn_Name = ref_Name (m_Spec_InfrastructureRef m)\<rparr>.
               m \<leftarrow> ms, ref_Name (m_Spec_InfrastructureRef m) \<noteq> ''''])
      | _ \<Rightarrow> []) \<and>
   (\<exists>es. snd (MicroVMClusterToMicrovmMachine E o' h) = h @ es \<and> list_all reads_only es)"
proof -
  have loop: "foldl (\<lambda>result m. if ref_Name (m_Spec_InfrastructureRef m) = '''' then result
      else result @ [\<lparr>nn_Namespace = om_Namespace (m_ObjectMeta m), nn_Name = ref_Name (m_Spec_InfrastructureRef m)\<rparr>]) acc ms =
    acc @ [\<lparr>nn_Namespace = om_Namespace (m_ObjectMeta m), nn_Name = ref_Name (m_Spec_InfrastructureRef m)\<rparr>.
      m \<leftarrow> ms, ref_Name (m_Spec_InfrastructureRef m) \<noteq> '''']" for acc ms
    by (induction ms arbitrary: acc) auto
  show ?thesis
    by (auto simp: MicroVMClusterToMicrovmMachine_def Let_def loop split: option.split prod.split sum.split)
qed

end
