(* ===== verification/Lifecycle.thy ===== *)
theory Lifecycle
  imports Machine_Effects
begin

text \<open>
  The machine controller in a changing world. The state of the world is the MicrovmMachine object the
  API server stores and the microvms that flintlock has for it, each with its host and its uid; there may
  be any number of them. A run of the controller is the event sequence of \<open>Reconcile\<close>; the world moves with
  each event in the way the answers of the environment allow, and on its own between events. The
  controller may stop at any event. The theory shows that a microvm whose provider id was stored once is
  held by a stored object that has the finalizer and this provider id, as long as the microvm exists;
  and that this is all: a microvm whose provider id was never stored can be lost.
\<close>

section \<open>The world and its steps\<close>

text \<open>
  A microvm is known by the address of its host and its uid. The last field is there for the statements
  only: the microvms whose provider id the stored object has ever had.
\<close>

type_synonym vm_id = "string \<times> string"

record system =
  sy_obj :: "MicrovmMachine option"
  sy_vms :: "vm_id set"
  sy_recorded :: "vm_id set"

definition id_text :: "vm_id \<Rightarrow> string" where
  "id_text v = ProviderPrefix @ fst v @ ''/'' @ snd v"

definition names :: "MicrovmMachine \<Rightarrow> vm_id set" where
  "names m = {v. machine_provider_id m = Some (id_text v)}"

text \<open>
  The world on its own: others edit the object but leave the controller's finalizer and the provider id
  as they are, the API server removes an object only when the finalizer is not there, an object may be
  created (without a provider id), and a microvm may vanish (its deletion is asynchronous).
\<close>

inductive env_step :: "system \<Rightarrow> system \<Rightarrow> bool" where
  es_edit: "sy_obj s = Some o1 \<Longrightarrow> guarded o2 = guarded o1 \<Longrightarrow> machine_provider_id o2 = machine_provider_id o1 \<Longrightarrow>
    env_step s (s\<lparr>sy_obj := Some o2\<rparr>)"
| es_remove: "sy_obj s = Some o1 \<Longrightarrow> \<not> guarded o1 \<Longrightarrow> env_step s (s\<lparr>sy_obj := None\<rparr>)"
| es_add: "sy_obj s = None \<Longrightarrow> machine_provider_id o1 = None \<Longrightarrow> env_step s (s\<lparr>sy_obj := Some o1\<rparr>)"
| es_vanish: "env_step s (s\<lparr>sy_vms := sy_vms s - {v}\<rparr>)"

text \<open>
  A lookup asks the flintlock at the address of the service for the microvm with the instance id of the
  machine. Its answer is true of this microvm and says nothing of any other: if the code takes the answer
  for \<open>gone\<close>, the microvm that was asked for is not there; if a microvm comes back, it has the uid that was
  asked for. (Any error with the text \<open>not found\<close> is taken for \<open>gone\<close>; that such an error comes from a
  flintlock without the microvm is supposed here.)
\<close>

definition asked :: "Service \<Rightarrow> vm_id" where
  "asked svc = (svc_addr svc, case GetInstanceID (svc_scope svc) of Return uid \<Rightarrow> uid | _ \<Rightarrow> '''')"

definition truthful :: "MicroVM option \<times> error option \<Rightarrow> vm_id \<Rightarrow> vm_id set \<Rightarrow> bool" where
  "truthful r v vms \<longleftrightarrow> (vm_gone r \<longrightarrow> v \<notin> vms) \<and> (\<forall>vm uid. fst r = Some vm \<longrightarrow> mv_Spec vm = Some (Some uid) \<longrightarrow> uid = snd v)"

text \<open>
  The world at an event of the controller. A read of the object returns what is stored. A patch that
  succeeds found the object and stores the new one (or, when that was the last finalizer of a deleted
  object, the object is removed, which \<open>es_remove\<close> covers); one that fails may have been carried out
  or not. A creation that succeeds leaves one more microvm at the host of the service, with the uid of the
  answer if that has one; a creation that fails may leave one too, with some uid. The uids are new, and
  neither they nor the addresses have a slash or a newline (\<open>storable_id\<close>). Every other event leaves the world as it is.
\<close>

inductive ev_step :: "env \<Rightarrow> history \<Rightarrow> event \<Rightarrow> system \<Rightarrow> system \<Rightarrow> bool" for E h where
  vs_read: "(\<And>m. e_GetMicrovmMachine E h k = Inr m \<Longrightarrow> sy_obj s = Some m) \<Longrightarrow> ev_step E h (GetMicrovmMachine k) s s"
| vs_patched: "sy_obj s = Some o1 \<Longrightarrow>
    ev_step E h (PatchMachine m ts) s (s\<lparr>sy_obj := Some m, sy_recorded := sy_recorded s \<union> names m\<rparr>)"
| vs_unpatched: "fst (e_PatchMachine E h m ts) \<noteq> None \<Longrightarrow> ev_step E h (PatchMachine m ts) s s"
| vs_created: "(\<And>vm uid. fst (e_ServiceCreate E h svc) = (Some vm, None) \<Longrightarrow> mv_Spec vm = Some (Some uid) \<Longrightarrow> u = uid) \<Longrightarrow>
    storable_id (svc_addr svc) u \<Longrightarrow> (svc_addr svc, u) \<notin> sy_vms s \<union> sy_recorded s \<Longrightarrow>
    ev_step E h (ServiceCreate svc) s (s\<lparr>sy_vms := insert (svc_addr svc, u) (sy_vms s)\<rparr>)"
| vs_uncreated: "snd (fst (e_ServiceCreate E h svc)) \<noteq> None \<Longrightarrow> ev_step E h (ServiceCreate svc) s s"
| vs_got: "truthful (fst (e_ServiceGet E h svc)) (asked svc) (sy_vms s) \<Longrightarrow> ev_step E h (ServiceGet svc) s s"
| vs_other: "(\<And>k. ev \<noteq> GetMicrovmMachine k) \<Longrightarrow> (\<And>m ts. ev \<noteq> PatchMachine m ts) \<Longrightarrow>
    (\<And>svc. ev \<noteq> ServiceCreate svc) \<Longrightarrow> (\<And>svc. ev \<noteq> ServiceGet svc) \<Longrightarrow> ev_step E h ev s s"

text \<open>The world along a sequence of events, moving on its own in between.\<close>

inductive evolve :: "env \<Rightarrow> history \<Rightarrow> event list \<Rightarrow> system \<Rightarrow> system \<Rightarrow> bool" for E where
  ev_done: "evolve E h [] s s"
| ev_env: "env_step s s' \<Longrightarrow> evolve E h es s' s'' \<Longrightarrow> evolve E h es s s''"
| ev_event: "ev_step E h ev s s' \<Longrightarrow> evolve E (h @ [ev]) es s' s'' \<Longrightarrow> evolve E h (ev # es) s s''"

text \<open>
  The reachable worlds: at first there is no microvm, and any object; then the controller is run on the
  object again and again, each time up to its end or up to a point at which the process stops.
\<close>

inductive reachable :: "env \<Rightarrow> NamespacedName \<Rightarrow> history \<Rightarrow> system \<Rightarrow> bool" for E req where
  r_init: "reachable E req [] \<lparr>sy_obj = x, sy_vms = {}, sy_recorded = (case x of None \<Rightarrow> {} | Some m \<Rightarrow> names m)\<rparr>"
| r_run: "reachable E req h s \<Longrightarrow> snd (MachineReconciler_Reconcile E req h) = h @ es @ unrun \<Longrightarrow>
    evolve E h es s s' \<Longrightarrow> reachable E req (h @ es) s'"

text \<open>
  The failure domain of the owner Machine, which decides over the host where the microvm is looked up, is
  the same at every read.
\<close>

definition same_domain :: "env \<Rightarrow> string option \<Rightarrow> bool" where
  "same_domain E d \<longleftrightarrow> (\<forall>h om ow. e_GetOwnerMachine E h om = Inr (Some ow) \<longrightarrow> m_Spec_FailureDomain ow = d)"

section \<open>The patches of a run\<close>

text \<open>The provider id a run has sent last, at first that of the machine it read.\<close>

definition sent_id :: "MicrovmMachine \<Rightarrow> event list \<Rightarrow> string option" where
  "sent_id b es = fold (\<lambda>ev p. case ev of PatchMachine m ts \<Rightarrow> machine_provider_id m | _ \<Rightarrow> p) es (machine_provider_id b)"

lemma sent_id_snoc:
  "sent_id b (es @ [ev]) = (case ev of PatchMachine m ts \<Rightarrow> machine_provider_id m | _ \<Rightarrow> sent_id b es)"
  by (cases ev) (simp_all add: sent_id_def)

lemma sent_id_quiet: "\<not> list_ex patches_machine es' \<Longrightarrow> sent_id b (es @ es') = sent_id b es"
proof (induction es' rule: rev_induct)
  case (snoc ev es')
  then show ?case by (cases ev) (simp_all add: sent_id_snoc flip: append_assoc)
qed simp

text \<open>
  A run with the objects \<open>f\<close> looked the microvm of the machine up, at the host of the machine, with the
  answer \<open>r\<close>.
\<close>

definition looks :: "env \<Rightarrow> history \<Rightarrow> found \<Rightarrow> event list \<Rightarrow> MicroVM option \<times> error option \<Rightarrow> bool" where
  "looks E h f es r \<longleftrightarrow> (\<exists>p svc q. es = p @ ServiceGet svc # q \<and> svc_scope svc = machine_scope_of f \<and>
     GetFailureDomain (machine_scope_of f) = Return (Inr (svc_addr svc)) \<and> fst (e_ServiceGet E (h @ p) svc) = r)"

lemma looks_snoc:
  "looks E h f (es @ [ev]) r \<longleftrightarrow> looks E h f es r \<or> (\<exists>svc. ev = ServiceGet svc \<and> svc_scope svc = machine_scope_of f \<and>
     GetFailureDomain (machine_scope_of f) = Return (Inr (svc_addr svc)) \<and> fst (e_ServiceGet E (h @ es) svc) = r)"
  (is "?l \<longleftrightarrow> ?a \<or> ?b")
proof
  assume ?l
  then obtain p svc q where "es @ [ev] = p @ ServiceGet svc # q" "svc_scope svc = machine_scope_of f"
    "GetFailureDomain (machine_scope_of f) = Return (Inr (svc_addr svc))" "fst (e_ServiceGet E (h @ p) svc) = r"
    unfolding looks_def by blast
  then show "?a \<or> ?b" by (cases q rule: rev_cases) (auto simp: looks_def)
next
  assume "?a \<or> ?b"
  then show ?l unfolding looks_def by (metis append.assoc append_Cons)
qed

text \<open>
  What entitles a run to let go of the microvm that its machine names: the machine was read without the
  finalizer, or the lookup found nothing. And what entitles it to name another: the machine named none, the
  lookup found nothing, or it found the one that is named now.
\<close>

definition may_let_go :: "env \<Rightarrow> history \<Rightarrow> found \<Rightarrow> event list \<Rightarrow> bool" where
  "may_let_go E h f es \<longleftrightarrow> \<not> guarded (f_mvm f) \<or> (\<exists>r. looks E h f es r \<and> vm_gone r)"

definition may_name :: "env \<Rightarrow> history \<Rightarrow> found \<Rightarrow> event list \<Rightarrow> MicrovmMachine \<Rightarrow> bool" where
  "may_name E h f es m \<longleftrightarrow> GetProviderID (machine_scope_of f) = '''' \<or> (\<exists>r. looks E h f es r \<and> vm_gone r) \<or>
     (\<exists>r vm a uid. looks E h f es r \<and> fst r = Some vm \<and> mv_Spec vm = Some (Some uid) \<and>
        GetFailureDomain (machine_scope_of f) = Return (Inr a) \<and> machine_provider_id m = Some (id_text (a, uid)))"

text \<open>
  An event that a run with the objects \<open>f\<close> may have after the events \<open>es\<close>: a patch keeps the provider id or
  may name another; it carries the finalizer, unless the run may let go, and then keeps the provider id. A
  microvm is created at the host of the machine. The machine is read once, at the start.
\<close>

fun proper :: "env \<Rightarrow> history \<Rightarrow> found \<Rightarrow> event list \<Rightarrow> event \<Rightarrow> bool" where
  "proper E h f es (PatchMachine m ts) \<longleftrightarrow>
     (machine_provider_id m = sent_id (f_mvm f) es \<or> sent_id (f_mvm f) es = machine_provider_id (f_mvm f) \<and> may_name E h f es m) \<and>
     (guarded m \<or> may_let_go E h f es \<and> machine_provider_id m = machine_provider_id (f_mvm f) \<and>
        sent_id (f_mvm f) es = machine_provider_id (f_mvm f))"
| "proper E h f es (ServiceCreate svc) \<longleftrightarrow> GetFailureDomain (machine_scope_of f) = Return (Inr (svc_addr svc))"
| "proper E h f es (GetMicrovmMachine k) \<longleftrightarrow> es = []"
| "proper E h f es _ \<longleftrightarrow> True"

definition orderly :: "env \<Rightarrow> history \<Rightarrow> found \<Rightarrow> event list \<Rightarrow> bool" where
  "orderly E h f es \<longleftrightarrow> (\<forall>p ev q. es = p @ ev # q \<longrightarrow> proper E h f p ev)"

lemma orderly_snoc: "orderly E h f (es @ [ev]) \<longleftrightarrow> orderly E h f es \<and> proper E h f es ev"
  (is "?l \<longleftrightarrow> ?r")
proof
  assume l: ?l
  show ?r unfolding orderly_def
  proof (intro conjI allI impI)
    show "proper E h f es ev" using l unfolding orderly_def by blast
    fix p ev' q assume "es = p @ ev' # q"
    then have "es @ [ev] = p @ ev' # (q @ [ev])" by simp
    then show "proper E h f p ev'" using l unfolding orderly_def by blast
  qed
next
  assume r: ?r
  show ?l unfolding orderly_def
  proof (intro allI impI)
    fix p ev' q assume "es @ [ev] = p @ ev' # q"
    then show "proper E h f p ev'" using r by (cases q rule: rev_cases) (auto simp: orderly_def)
  qed
qed

lemma orderly_Nil: "orderly E h f []"
  by (simp add: orderly_def)

subsection \<open>Every run is orderly\<close>

lemma looks_mono: "looks E h f es r \<Longrightarrow> looks E h f (es @ es') r"
  unfolding looks_def by (metis append.assoc append_Cons)

lemma may_mono:
  "may_let_go E h f es \<Longrightarrow> may_let_go E h f (es @ es')" "may_name E h f es m \<Longrightarrow> may_name E h f (es @ es') m"
  unfolding may_let_go_def may_name_def using looks_mono [of E h f es _ es'] by blast+

text \<open>An event that is neither a read of the machine, nor a patch, nor a creation.\<close>

fun idle :: "event \<Rightarrow> bool" where
  "idle (GetMicrovmMachine _) = False"
| "idle (PatchMachine _ _) = False"
| "idle (ServiceCreate _) = False"
| "idle _ = True"

lemma orderly_idle:
  assumes "list_all idle es'" "orderly E h f es"
  shows "orderly E h f (es @ es')" "sent_id b (es @ es') = sent_id b es"
  using assms
proof (induction es' rule: rev_induct)
  case (snoc ev es')
  {
    case 1
    then show ?case using snoc by (cases ev) (simp_all add: orderly_snoc flip: append_assoc)
  next
    case 2
    then show ?case using snoc by (cases ev) (simp_all add: sent_id_snoc flip: append_assoc)
  }
qed simp_all

lemma proper_idle:
  assumes "list_all idle es'" "proper E h f es (PatchMachine m ts)"
  shows "proper E h f (es @ es') (PatchMachine m ts)"
proof -
  have "\<not> list_ex patches_machine es'"
  proof -
    have "\<not> patches_machine ev" if "idle ev" for ev using that by (cases ev) simp_all
    then show ?thesis using assms(1) by (auto simp: list_all_iff list_ex_iff)
  qed
  then show ?thesis using assms(2) may_mono [of E h f es] by (auto simp: sent_id_quiet)
qed

text \<open>
  The two ways in which a patch is proper without a new provider id: it carries the finalizer, or the
  finalizers are those that were read.
\<close>

lemma proper_guarded: "machine_provider_id m = sent_id (f_mvm f) es \<Longrightarrow> guarded m \<Longrightarrow> proper E h f es (PatchMachine m ts)"
  by simp

lemma proper_kept:
  assumes "machine_provider_id m = machine_provider_id (f_mvm f)" "sent_id (f_mvm f) es = machine_provider_id (f_mvm f)"
    and "guarded m = guarded (f_mvm f)"
  shows "proper E h f es (PatchMachine m ts)"
  using assms by (auto simp: may_let_go_def)

text \<open>
  A step of a run that goes on after the events \<open>es\<close>: its events are orderly, and a patch of the machine it
  leaves would be proper.
\<close>

definition tidy :: "env \<Rightarrow> history \<Rightarrow> found \<Rightarrow> event list \<Rightarrow> 'r \<times> MachineScope \<times> history \<Rightarrow> bool" where
  "tidy E h f es out \<longleftrightarrow> (\<exists>es'. snd (snd out) = h @ es @ es' \<and> orderly E h f (es @ es') \<and>
     proper E h f (es @ es') (patch_event E (fst (snd out))))"

lemma tidy_stop: "orderly E h f es \<Longrightarrow> proper E h f es (patch_event E m) \<Longrightarrow> tidy E h f es (r, m, h @ es)"
  unfolding tidy_def by (intro exI [of _ "[]"]) simp

lemma tidy_grow: "tidy E h f (es @ es') out \<Longrightarrow> tidy E h f es out"
  unfolding tidy_def by (metis append.assoc)

text \<open>The provider id and the finalizers along the steps that only annotate the machine.\<close>

lemma id_and_guard_kept:
  assumes "patch_frame E" "service_frame E"
  shows "machine_provider_id (sc_MvmMachine (patched_scope E m h)) = machine_provider_id (sc_MvmMachine m)"
    "machine_provider_id (sc_MvmMachine (got_scope E svc m h)) = machine_provider_id (sc_MvmMachine m)"
    "machine_provider_id (sc_MvmMachine (created_scope E svc m h)) = machine_provider_id (sc_MvmMachine m)"
    "machine_provider_id (sc_MvmMachine (deleted_scope E svc m h)) = machine_provider_id (sc_MvmMachine m)"
    "machine_provider_id (sc_MvmMachine (SetNotReady E reason sev msg m)) = machine_provider_id (sc_MvmMachine m)"
    "machine_provider_id (sc_MvmMachine (snd (parseMicroVMState E st m))) = machine_provider_id (sc_MvmMachine m)"
    "machine_provider_id (summarised E mvm) = machine_provider_id mvm"
    "machine_provider_id (sc_MvmMachine (guard_scope E m)) = machine_provider_id (sc_MvmMachine m)"
    "machine_provider_id (sc_MvmMachine (release_scope E m)) = machine_provider_id (sc_MvmMachine m)"
    "machine_provider_id (sc_MvmMachine (SetProviderID fd uid m)) = Some (id_text (fd, uid))"
    "machine_finalizers (sc_MvmMachine (patched_scope E m h)) = machine_finalizers (sc_MvmMachine m)"
    "machine_finalizers (sc_MvmMachine (got_scope E svc m h)) = machine_finalizers (sc_MvmMachine m)"
    "machine_finalizers (sc_MvmMachine (created_scope E svc m h)) = machine_finalizers (sc_MvmMachine m)"
    "machine_finalizers (sc_MvmMachine (deleted_scope E svc m h)) = machine_finalizers (sc_MvmMachine m)"
    "machine_finalizers (sc_MvmMachine (SetNotReady E reason sev msg m)) = machine_finalizers (sc_MvmMachine m)"
    "machine_finalizers (sc_MvmMachine (snd (parseMicroVMState E st m))) = machine_finalizers (sc_MvmMachine m)"
    "machine_finalizers (summarised E mvm) = machine_finalizers mvm"
    "machine_finalizers (sc_MvmMachine (SetProviderID fd uid m)) = machine_finalizers (sc_MvmMachine m)"
proof -
  have s: "sc_MvmMachine (svc_scope (service_at svc m)) = sc_MvmMachine m" by (simp add: service_at_def)
  note D = service_frameD [OF assms(2), of "service_at svc m", unfolded s, THEN relabelledD(3)]
  show "machine_provider_id (sc_MvmMachine (got_scope E svc m h)) = machine_provider_id (sc_MvmMachine m)"
    "machine_provider_id (sc_MvmMachine (created_scope E svc m h)) = machine_provider_id (sc_MvmMachine m)"
    "machine_provider_id (sc_MvmMachine (deleted_scope E svc m h)) = machine_provider_id (sc_MvmMachine m)"
    using D by (simp_all add: got_scope_def created_scope_def deleted_scope_def)
qed (simp_all add: patched_scope_parts [OF assms(1)] service_scope_parts [OF assms(2)] parseMicroVMState_machine
    guard_scope_def release_scope_def scope_simps machine_parts id_text_def)

lemma record_microvm_tidy:
  assumes frames: "patch_frame E" "service_frame E" and "orderly E h f es" "proper E h f es (patch_event E m)"
    and "guarded (sc_MvmMachine m)" "sent_id (f_mvm f) es = machine_provider_id (f_mvm f)"
    and name: "\<And>v uid m'. vm = Some v \<Longrightarrow> mv_Spec v = Some (Some uid) \<Longrightarrow> machine_provider_id m' = Some (id_text (fd, uid)) \<Longrightarrow>
      may_name E h f es m'"
  shows "tidy E h f es (record_microvm E fd vm m (h @ es))"
proof (cases "Option.bind (Option.bind vm mv_Spec) id")
  case None
  then show ?thesis using assms(3,4) by (simp add: record_microvm_eq tidy_stop)
next
  case (Some uid)
  let ?e = "patch_event E (SetProviderID fd uid m)"
  note kept = id_and_guard_kept [OF frames]
  have sent: "sent_id (f_mvm f) (es @ [?e]) = Some (id_text (fd, uid))" by (simp add: sent_id_snoc kept)
  have "may_name E h f es (summarised E (sc_MvmMachine (SetProviderID fd uid m)))"
    using Some name by (auto simp: bind_eq_Some_conv kept)
  then have e: "orderly E h f (es @ [?e])" using assms(3,5,6) by (simp add: orderly_snoc kept)
  have "tidy E h f (es @ [?e]) (r, m', h @ es @ [?e])"
    if "machine_provider_id (sc_MvmMachine m') = Some (id_text (fd, uid))"
      "machine_finalizers (sc_MvmMachine m') = machine_finalizers (sc_MvmMachine m)" for r m'
    using that assms(5) sent by (intro tidy_stop [OF e] proper_guarded) (simp_all add: kept)
  note stop = tidy_grow [OF this]
  let ?m' = "patched_scope E (SetProviderID fd uid m) (h @ es)"
  have "tidy E h f es (r, ?m', h @ es @ [?e])" "tidy E h f es (r, snd (parseMicroVMState E st ?m'), h @ es @ [?e])" for r st
    by (rule stop; simp add: kept)+
  then show ?thesis using Some by (auto simp: record_microvm_eq split: option.splits)
qed

lemma ensure_microvm_tidy:
  assumes laws: "finalizer_laws E" "patch_frame E" "service_frame E" and es: "orderly E h f es"
    and id: "sent_id (f_mvm f) es = machine_provider_id (f_mvm f)" "machine_provider_id (sc_MvmMachine m) = machine_provider_id (f_mvm f)"
    and fd: "GetFailureDomain (machine_scope_of f) = Return (Inr fd)" "svc_addr svc = fd"
    and none: "vm = None \<Longrightarrow> GetProviderID (machine_scope_of f) = '''' \<or> (\<exists>r. looks E h f es r \<and> vm_gone r)"
    and some: "\<And>v. vm = Some v \<Longrightarrow> \<exists>r. looks E h f es r \<and> fst r = Some v"
  shows "tidy E h f es (ensure_microvm E fd svc vm m (h @ es))"
proof -
  let ?e1 = "patch_event E (guard_scope E m)" and ?m2 = "patched_scope E (guard_scope E m) (h @ es)"
  let ?e2 = "ServiceCreate (service_at svc ?m2)"
  let ?m3 = "created_scope E svc ?m2 (h @ es @ [?e1])"
  note kept = id_and_guard_kept [OF laws(2,3)]
  have g: "guarded (sc_MvmMachine (guard_scope E m))" using guarded_guard_scope [OF laws(1), of m] by (simp add: kept)
  have e1: "orderly E h f (es @ [?e1])" "sent_id (f_mvm f) (es @ [?e1]) = machine_provider_id (f_mvm f)"
    using es id g by (simp_all add: orderly_snoc sent_id_snoc kept)
  have e2: "orderly E h f (es @ [?e1, ?e2])" "sent_id (f_mvm f) (es @ [?e1, ?e2]) = machine_provider_id (f_mvm f)"
    using orderly_snoc [of E h f "es @ [?e1]" ?e2] sent_id_snoc [of "f_mvm f" "es @ [?e1]" ?e2] e1 fd
    by (simp_all add: service_at_def)
  have p: "proper E h f (es @ [?e1]) (patch_event E ?m2)" "proper E h f (es @ [?e1, ?e2]) (patch_event E ?m3)"
    using e1(2) e2(2) g id(2) by (intro proper_guarded; simp add: kept)+
  have found: "tidy E h f es (record_microvm E fd (Some v) ?m2 (h @ es @ [?e1]))" if "vm = Some v" for v
  proof (rule tidy_grow, rule record_microvm_tidy [OF laws(2,3) e1(1) p(1) _ e1(2)])
    fix v' uid m' assume "Some v = Some v'" "mv_Spec v' = Some (Some uid)" "machine_provider_id m' = Some (id_text (fd, uid))"
    then show "may_name E h f (es @ [?e1]) m'"
      using some [OF that] fd looks_mono [of E h f es _ "[?e1]"] unfolding may_name_def by blast
  qed (use g in \<open>simp add: kept\<close>)
  have new: "tidy E h f es (record_microvm E fd r ?m3 (h @ es @ [?e1, ?e2]))" if "vm = None" for r
  proof (rule tidy_grow, rule record_microvm_tidy [OF laws(2,3) e2(1) p(2) _ e2(2)])
    fix m' show "may_name E h f (es @ [?e1, ?e2]) m'"
      using none [OF that] looks_mono [of E h f es _ "[?e1, ?e2]"] unfolding may_name_def by blast
  qed (use g in \<open>simp add: kept\<close>)
  have "tidy E h f es (r, ?m2, h @ es @ [?e1])" "tidy E h f es (r, ?m3, h @ es @ [?e1, ?e2])" for r
    by (rule tidy_grow [OF tidy_stop [OF e1(1) p(1)]] tidy_grow [OF tidy_stop [OF e2(1) p(2)]])+
  then show ?thesis using found new by (auto simp: ensure_microvm_eq Let_def split: option.splits)
qed

lemma normal_with_service_tidy:
  assumes laws: "finalizer_laws E" "patch_frame E" "service_frame E" and es: "orderly E h f es"
    and id: "sent_id (f_mvm f) es = machine_provider_id (f_mvm f)"
    and fd: "GetFailureDomain (machine_scope_of f) = Return (Inr fd)" "svc_addr svc = fd"
  shows "tidy E h f es (normal_with_service E fd svc (machine_scope_of f) (h @ es))"
proof -
  let ?m = "machine_scope_of f" let ?e = "ServiceGet (service_at svc ?m)" and ?m1 = "got_scope E svc ?m (h @ es)"
  let ?r = "got E svc ?m (h @ es)"
  note kept = id_and_guard_kept [OF laws(2,3)] machine_scope_of_parts
  have e: "orderly E h f (es @ [?e])" "sent_id (f_mvm f) (es @ [?e]) = machine_provider_id (f_mvm f)"
    using es id by (simp_all add: orderly_snoc sent_id_snoc)
  have l: "looks E h f (es @ [?e]) ?r" using fd by (simp add: looks_snoc service_at_def)
  have "tidy E h f es (ensure_microvm E fd svc None ?m (h @ es))" if "GetProviderID ?m = ''''"
    by (rule ensure_microvm_tidy [OF laws es id _ fd]) (simp_all add: kept that)
  moreover have "tidy E h f es (ensure_microvm E fd svc (fst ?r) ?m1 (h @ es @ [?e]))" if "\<not> lookup_failed ?r"
  proof (rule tidy_grow, rule ensure_microvm_tidy [OF laws e _ fd])
    show "fst ?r = None \<Longrightarrow> GetProviderID ?m = '''' \<or> (\<exists>r. looks E h f (es @ [?e]) r \<and> vm_gone r)"
      by (rule disjI2, rule exI [of _ ?r]) (use l that in auto)
    show "fst ?r = Some v \<Longrightarrow> \<exists>r. looks E h f (es @ [?e]) r \<and> fst r = Some v" for v using l by blast
  qed (simp add: kept)
  moreover have "tidy E h f es (r, ?m1, h @ es @ [?e])" for r :: "(Result \<times> error option) outcome"
    by (rule tidy_grow, rule tidy_stop [OF e(1)], rule proper_kept) (simp_all add: kept e(2))
  ultimately show ?thesis by (simp add: normal_with_service_eq)
qed

lemma delete_with_service_tidy:
  assumes laws: "finalizer_laws E" "patch_frame E" "service_frame E" and es: "orderly E h f es"
    and id: "sent_id (f_mvm f) es = machine_provider_id (f_mvm f)"
    and fd: "GetFailureDomain (machine_scope_of f) = Return (Inr fd)" "svc_addr svc = fd"
  shows "tidy E h f es (delete_with_service E svc (machine_scope_of f) (h @ es))"
proof -
  let ?m = "machine_scope_of f" let ?e = "ServiceGet (service_at svc ?m)" and ?m1 = "got_scope E svc ?m (h @ es)"
  let ?r = "got E svc ?m (h @ es)" and ?m2 = "deleting_scope E (got_scope E svc ?m (h @ es))"
  let ?m3 = "patched_scope E ?m2 (h @ es @ [?e])" and ?e2 = "patch_event E ?m2"
  let ?e3 = "ServiceDelete (service_at svc ?m3)" let ?m4 = "deleted_scope E svc ?m3 (h @ es @ [?e, ?e2])"
  note kept = id_and_guard_kept [OF laws(2,3)] machine_scope_of_parts
  have e: "orderly E h f (es @ [?e])" "sent_id (f_mvm f) (es @ [?e]) = machine_provider_id (f_mvm f)"
    using es id by (simp_all add: orderly_snoc sent_id_snoc)
  have "proper E h f (es @ [?e]) ?e2" by (rule proper_kept) (simp_all add: kept e(2))
  then have e2: "orderly E h f (es @ [?e, ?e2])" "sent_id (f_mvm f) (es @ [?e, ?e2]) = machine_provider_id (f_mvm f)"
    using e orderly_snoc [of E h f "es @ [?e]" ?e2] sent_id_snoc [of "f_mvm f" "es @ [?e]" ?e2] by (simp_all add: kept)
  have e3: "orderly E h f (es @ [?e, ?e2, ?e3])" "sent_id (f_mvm f) (es @ [?e, ?e2, ?e3]) = machine_provider_id (f_mvm f)"
    using e2 orderly_idle [of "[?e3]" E h f "es @ [?e, ?e2]"] by simp_all
  have s1: "tidy E h f es (r, ?m1, h @ es @ [?e])" for r :: "(Result \<times> error option) outcome"
    by (rule tidy_grow, rule tidy_stop [OF e(1)], rule proper_kept) (simp_all add: kept e(2))
  have s3: "tidy E h f es (r, ?m3, h @ es @ [?e, ?e2])" for r :: "(Result \<times> error option) outcome"
    by (rule tidy_grow, rule tidy_stop [OF e2(1)], rule proper_kept) (simp_all add: kept e2(2))
  have s4: "tidy E h f es (r, ?m4, h @ es @ [?e, ?e2, ?e3])"
    "tidy E h f es (r, SetNotReady E reason sev msg ?m4, h @ es @ [?e, ?e2, ?e3])" for r :: "(Result \<times> error option) outcome" and reason sev msg
    by (rule tidy_grow, rule tidy_stop [OF e3(1)], rule proper_kept; simp add: kept e3(2))+
  have "tidy E h f es (r, release_scope E ?m1, h @ es @ [?e])" if "vm_gone ?r" for r :: "(Result \<times> error option) outcome"
  proof (rule tidy_grow, rule tidy_stop [OF e(1)])
    have "looks E h f (es @ [?e]) ?r" using fd by (simp add: looks_snoc service_at_def)
    then have "may_let_go E h f (es @ [?e])" using that unfolding may_let_go_def by blast
    then show "proper E h f (es @ [?e]) (patch_event E (release_scope E ?m1))" using e(2) by (simp add: kept)
  qed
  then show ?thesis using s1 s3 s4 by (auto simp: delete_with_service_eq Let_def split: option.splits)
qed

text \<open>The part of a run around the service: reading the secrets, making the client, closing it.\<close>

lemma tidy_close: "tidy E h f es out \<Longrightarrow> tidy E h f es (with_deferred_close svc out)"
proof -
  assume "tidy E h f es out"
  then obtain es' where es': "snd (snd out) = h @ es @ es'" "orderly E h f (es @ es')"
    "proper E h f (es @ es') (patch_event E (fst (snd out)))" unfolding tidy_def by blast
  let ?e = "ServiceClose (service_at svc (fst (snd out)))"
  have "orderly E h f ((es @ es') @ [?e])" by (rule orderly_idle [OF _ es'(2)]) simp
  moreover have "proper E h f ((es @ es') @ [?e]) (patch_event E (fst (snd out)))" by (rule proper_idle [OF _ es'(3)]) simp
  ultimately show ?thesis using es'(1) unfolding tidy_def with_deferred_close_parts by (intro exI [of _ "es' @ [?e]"]) simp
qed

lemma service_region_tidy:
  assumes es: "orderly E h f es" "proper E h f es (patch_event E m)" "sent_id (f_mvm f) es = machine_provider_id (f_mvm f)"
    and svc: "getMicrovmService E fd m (h @ es) = (r, h1)"
    and body: "\<And>svc es'. svc_addr svc = fd \<Longrightarrow> h1 = h @ es' \<Longrightarrow> orderly E h f es' \<Longrightarrow>
      sent_id (f_mvm f) es' = machine_provider_id (f_mvm f) \<Longrightarrow> tidy E h f es' (body svc)"
  shows "tidy E h f es (case r of Inl err \<Rightarrow> (failed err, m, h1) | Inr svc \<Rightarrow> with_deferred_close svc (body svc))"
proof -
  obtain ss where ss: "list_all reads_secret ss" and ev: "service_events E fd m (h @ es) ss" using getMicrovmService_events by blast
  have "idle e" if "reads_secret e" for e using that by (cases e) simp_all
  then have "list_all idle ss" using ss by (auto simp: list_all_iff)
  then obtain es' where es': "h1 = (h @ es) @ es'" "list_all idle es'"
    using ev svc by (auto simp: service_events_def split: sum.splits)
  note idle = orderly_idle [OF es'(2) es(1)]
  show ?thesis
  proof (cases r)
    case (Inl err)
    have "tidy E h f (es @ es') (failed err, m, h @ es @ es')"
      by (rule tidy_stop [OF idle(1) proper_idle [OF es'(2) es(2)]])
    from tidy_grow [OF this] show ?thesis using es'(1) Inl by simp
  next
    case (Inr svc)
    then have "svc_addr svc = fd" using ev svc by (auto simp: service_events_def)
    then have "tidy E h f (es @ es') (body svc)" using es'(1) idle es(3) by (intro body) simp_all
    from tidy_close [OF tidy_grow [OF this]] show ?thesis using Inr by simp
  qed
qed

lemma machine_body_tidy:
  assumes laws: "finalizer_laws E" "patch_frame E" "service_frame E"
  shows "tidy E h f (machine_preamble req f) (machine_body E req h f)"
proof -
  let ?m = "machine_scope_of f" and ?P = "machine_preamble req f"
  note kept = id_and_guard_kept [OF laws(2,3)] machine_scope_of_parts
  have P: "orderly E h f ?P" "sent_id (f_mvm f) ?P = machine_provider_id (f_mvm f)"
    using orderly_idle [of "tl ?P" E h f "[GetMicrovmMachine req]"] orderly_snoc [of E h f "[]" "GetMicrovmMachine req"]
    by (simp_all add: orderly_Nil sent_id_def)
  have stop: "tidy E h f ?P (r, ?m, h @ ?P)"
    "tidy E h f ?P (r, update_MvmMachine (MarkFalse_Machine E c reason sev msg) ?m, h @ ?P)" for r :: "(Result \<times> error option) outcome" and c reason sev msg
    by (rule tidy_stop [OF P(1)], rule proper_kept [OF _ P(2)]; simp add: kept scope_simps machine_parts)+
  have p: "proper E h f ?P (patch_event E ?m)" by (rule proper_kept [OF _ P(2)]) (simp_all add: kept)
  obtain r where r: "GetFailureDomain ?m = Return r" using GetFailureDomain_total by blast
  show ?thesis
  proof (cases r)
    case (Inl err)
    then show ?thesis
      using r stop by (auto simp: machine_body_def MachineReconciler_reconcileDelete_def MachineReconciler_reconcileNormal_def)
  next
    case (Inr fd)
    obtain s h1 where s: "getMicrovmService E fd ?m (h @ ?P) = (s, h1)" by fastforce
    have fd: "GetFailureDomain ?m = Return (Inr fd)" using r Inr by simp
    have normal: "tidy E h f ?P (case s of Inl err \<Rightarrow> (Return (zero_Result, Some err), ?m, h1)
        | Inr svc \<Rightarrow> with_deferred_close svc (normal_with_service E fd svc ?m h1))"
      by (rule service_region_tidy [OF P(1) p P(2) s]) (simp add: normal_with_service_tidy [OF laws _ _ fd])
    have delete: "tidy E h f ?P (case s of Inl err \<Rightarrow> (Return (zero_Result, None), ?m, h1)
        | Inr svc \<Rightarrow> with_deferred_close svc (delete_with_service E svc ?m h1))"
      by (rule service_region_tidy [OF P(1) p P(2) s]) (simp add: delete_with_service_tidy [OF laws _ _ fd])
    show ?thesis
      using r Inr s stop normal delete
      by (auto simp: machine_body_def MachineReconciler_reconcileDelete_def MachineReconciler_reconcileNormal_def)
  qed
qed

text \<open>So every event of a run is proper where it stands, and the run starts with the read of the machine.\<close>

lemma machine_run_orderly:
  assumes laws: "finalizer_laws E" "patch_frame E" "service_frame E" and f: "machine_admitted E req h f"
    and run: "snd (MachineReconciler_Reconcile E req h) = h @ dn @ ev # todo"
  shows "proper E h f dn ev" "dn = [] \<longleftrightarrow> ev = GetMicrovmMachine req"
proof -
  obtain es where es: "snd (snd (machine_body E req h f)) = h @ machine_preamble req f @ es"
    "orderly E h f (machine_preamble req f @ es)"
    "proper E h f (machine_preamble req f @ es) (patch_event E (fst (snd (machine_body E req h f))))"
    using machine_body_tidy [OF laws, of h f req] unfolding tidy_def by blast
  let ?t = "(machine_preamble req f @ es) @ [patch_event E (fst (snd (machine_body E req h f)))]"
  have "orderly E h f ?t" using es(2,3) unfolding orderly_snoc by blast
  moreover have t: "?t = dn @ ev # todo" using machine_Reconcile_last(2) [OF f] es(1) run by simp
  ultimately show p: "proper E h f dn ev" unfolding orderly_def by blast
  show "dn = [] \<longleftrightarrow> ev = GetMicrovmMachine req" using t p by (cases dn) auto
qed

section \<open>The invariant\<close>

abbreviation held :: "system \<Rightarrow> vm_id \<Rightarrow> bool" where
  "held s v \<equiv> \<exists>o1. sy_obj s = Some o1 \<and> guarded o1 \<and> v \<in> names o1"

text \<open>
  What holds of every world: the microvms that exist and were recorded are held; what the stored object
  names was recorded; and the microvms are at the host of the owner Machine, if that has one.
\<close>

definition sound :: "string option \<Rightarrow> system \<Rightarrow> bool" where
  "sound d s \<longleftrightarrow> (\<forall>v \<in> sy_vms s \<inter> sy_recorded s. held s v) \<and>
     (\<forall>o1. sy_obj s = Some o1 \<longrightarrow> names o1 \<subseteq> sy_recorded s) \<and>
     (\<forall>v \<in> sy_vms s. storable_id (fst v) (snd v) \<and> (\<forall>x. d = Some x \<longrightarrow> x \<noteq> '''' \<longrightarrow> fst v = x))"

text \<open>
  What holds in the middle of a run with the objects \<open>f\<close> whose events so far are \<open>dn\<close>: the provider id it
  sent last names the microvms that exist and were recorded, and there is none if the run may let go and
  has not named another; what the machine it read names was recorded; and a microvm that a lookup found
  has the uid of the machine's provider id.
\<close>

definition midrun :: "env \<Rightarrow> history \<Rightarrow> found \<Rightarrow> event list \<Rightarrow> system \<Rightarrow> bool" where
  "midrun E h f dn s \<longleftrightarrow> (\<forall>v \<in> sy_vms s \<inter> sy_recorded s. sent_id (f_mvm f) dn = Some (id_text v)) \<and>
     names (f_mvm f) \<subseteq> sy_recorded s \<and>
     (may_let_go E h f dn \<and> sent_id (f_mvm f) dn = machine_provider_id (f_mvm f) \<longrightarrow> sy_vms s \<inter> sy_recorded s = {}) \<and>
     (\<forall>r vm uid. looks E h f dn r \<and> fst r = Some vm \<and> mv_Spec vm = Some (Some uid) \<longrightarrow>
        GetInstanceID (machine_scope_of f) = Return uid)"

lemma midrunD:
  assumes "midrun E h f dn s"
  shows "v \<in> sy_vms s \<Longrightarrow> v \<in> sy_recorded s \<Longrightarrow> sent_id (f_mvm f) dn = Some (id_text v)"
    "names (f_mvm f) \<subseteq> sy_recorded s"
    "may_let_go E h f dn \<Longrightarrow> sent_id (f_mvm f) dn = machine_provider_id (f_mvm f) \<Longrightarrow> v \<in> sy_vms s \<Longrightarrow> v \<notin> sy_recorded s"
    "looks E h f dn r \<Longrightarrow> fst r = Some vm \<Longrightarrow> mv_Spec vm = Some (Some uid) \<Longrightarrow> GetInstanceID (machine_scope_of f) = Return uid"
  using assms unfolding midrun_def by blast+

text \<open>A machine that names a microvm looks it up where it is, if its owner has not moved.\<close>

lemma named_host:
  assumes "machine_provider_id (f_mvm f) = Some (id_text v)" "storable_id (fst v) (snd v)"
    and "\<And>x. m_Spec_FailureDomain (f_machine f) = Some x \<Longrightarrow> x \<noteq> '''' \<Longrightarrow> fst v = x"
  shows "GetFailureDomain (machine_scope_of f) = Return (Inr (fst v))" "GetInstanceID (machine_scope_of f) = Return (snd v)"
proof -
  let ?m = "machine_scope_of f" and ?m' = "SetProviderID (fst v) (snd v) (machine_scope_of f)"
  have pid: "GetProviderID ?m = GetProviderID ?m'"
    using assms(1) by (simp add: GetProviderID_def machine_scope_of_parts scope_simps machine_parts id_text_def)
  have ne: "GetProviderID ?m \<noteq> ''''"
    using assms(1) by (simp add: GetProviderID_def machine_scope_of_parts id_text_def ProviderPrefix_def)
  then have "\<not> unplaced ?m" by (simp add: unplaced_def)
  from GetFailureDomain_placed [OF this] show "GetFailureDomain ?m = Return (Inr (fst v))"
    using assms(3) provider_id.host_store [OF assms(2), of ?m] by (auto simp: pid machine_scope_of_parts split: option.splits)
  show "GetInstanceID ?m = Return (snd v)"
    using provider_id.uid_store [OF assms(2), of ?m] pid by (simp add: GetInstanceID_def)
qed

text \<open>A proper patch carries the finalizer for every recorded microvm that exists, and names it.\<close>

lemma patch_holds:
  assumes mid: "midrun E h f dn s" and "sound d s" "m_Spec_FailureDomain (f_machine f) = d"
    and p: "proper E h f dn (PatchMachine m ts)" and v: "v \<in> sy_vms s" "v \<in> sy_recorded s \<union> names m"
  shows "v \<in> names m \<and> guarded m"
proof
  have rec: "machine_provider_id (f_mvm f) = Some (id_text v) \<Longrightarrow> v \<in> sy_recorded s" using midrunD(2) [OF mid] by (auto simp: names_def)
  show "v \<in> names m"
  proof (cases "v \<in> sy_recorded s \<and> machine_provider_id m \<noteq> sent_id (f_mvm f) dn")
    case True
    then have sent: "sent_id (f_mvm f) dn = machine_provider_id (f_mvm f)" and name: "may_name E h f dn m"
      and b: "machine_provider_id (f_mvm f) = Some (id_text v)" using p midrunD(1) [OF mid v(1)] by auto
    have host: "GetFailureDomain (machine_scope_of f) = Return (Inr (fst v))" "GetInstanceID (machine_scope_of f) = Return (snd v)"
      using named_host [OF b] assms(2,3) v(1) unfolding sound_def by blast+
    have "\<not> (\<exists>r. looks E h f dn r \<and> vm_gone r)"
      using midrunD(3) [OF mid _ sent v(1)] True unfolding may_let_go_def by blast
    moreover have "GetProviderID (machine_scope_of f) \<noteq> ''''"
      using b by (simp add: GetProviderID_def machine_scope_of_parts id_text_def ProviderPrefix_def)
    ultimately obtain r vm a uid where "looks E h f dn r" "fst r = Some vm" "mv_Spec vm = Some (Some uid)"
      "GetFailureDomain (machine_scope_of f) = Return (Inr a)" "machine_provider_id m = Some (id_text (a, uid))"
      using name unfolding may_name_def by blast
    then show ?thesis using host midrunD(4) [OF mid, of r vm uid] by (auto simp: names_def id_text_def)
  next
    case False
    then show ?thesis using v midrunD(1) [OF mid v(1)] by (auto simp: names_def)
  qed
  then show "guarded m"
    using p midrunD(3) [OF mid _ _ v(1)] rec by (auto simp: names_def)
qed

lemma midrun_patch:
  assumes mid: "midrun E h f dn s" and "sound d s" "m_Spec_FailureDomain (f_machine f) = d"
    and p: "proper E h f dn (PatchMachine m ts)" and R: "sy_recorded s \<subseteq> R" "R \<subseteq> sy_recorded s \<union> names m"
  shows "midrun E h f (dn @ [PatchMachine m ts]) (s\<lparr>sy_obj := x, sy_recorded := R\<rparr>)"
  unfolding midrun_def
proof (intro conjI)
  show "\<forall>v \<in> sy_vms (s\<lparr>sy_obj := x, sy_recorded := R\<rparr>) \<inter> sy_recorded (s\<lparr>sy_obj := x, sy_recorded := R\<rparr>).
      sent_id (f_mvm f) (dn @ [PatchMachine m ts]) = Some (id_text v)"
    using patch_holds [OF assms(1-4)] R(2) by (auto simp: sent_id_snoc names_def)
  show "names (f_mvm f) \<subseteq> sy_recorded (s\<lparr>sy_obj := x, sy_recorded := R\<rparr>)" using midrunD(2) [OF mid] R(1) by auto
  have same: "sent_id (f_mvm f) dn = machine_provider_id (f_mvm f)" "names m \<subseteq> sy_recorded s"
    if "machine_provider_id m = machine_provider_id (f_mvm f)"
    using that p midrunD(2) [OF mid] by (auto simp: names_def)
  show "may_let_go E h f (dn @ [PatchMachine m ts]) \<and>
      sent_id (f_mvm f) (dn @ [PatchMachine m ts]) = machine_provider_id (f_mvm f) \<longrightarrow>
      sy_vms (s\<lparr>sy_obj := x, sy_recorded := R\<rparr>) \<inter> sy_recorded (s\<lparr>sy_obj := x, sy_recorded := R\<rparr>) = {}"
    using same midrunD(3) [OF mid] R(2) by (auto simp: sent_id_snoc may_let_go_def looks_snoc)
  show "\<forall>r vm uid. looks E h f (dn @ [PatchMachine m ts]) r \<and> fst r = Some vm \<and> mv_Spec vm = Some (Some uid) \<longrightarrow>
      GetInstanceID (machine_scope_of f) = Return uid"
    using midrunD(4) [OF mid] by (auto simp: looks_snoc)
qed

text \<open>An event that is no patch and no lookup, in a world with the same recorded microvms.\<close>

lemma midrun_quiet:
  assumes "midrun E h f dn s" "\<And>m ts. ev \<noteq> PatchMachine m ts" "\<And>svc. ev \<noteq> ServiceGet svc"
    and "sy_vms s' \<inter> sy_recorded s' \<subseteq> sy_vms s \<inter> sy_recorded s" "sy_recorded s \<subseteq> sy_recorded s'"
  shows "midrun E h f (dn @ [ev]) s'" "midrun E h f dn s'"
proof -
  have "sent_id (f_mvm f) (dn @ [ev]) = sent_id (f_mvm f) dn" using assms(2) by (auto simp: sent_id_snoc split: event.split)
  moreover have "looks E h f (dn @ [ev]) r = looks E h f dn r" for r using assms(3) by (simp add: looks_snoc)
  ultimately have "midrun E h f (dn @ [ev]) s' = midrun E h f dn s'" by (simp only: midrun_def may_let_go_def)
  moreover show "midrun E h f dn s'"
    unfolding midrun_def
  proof (intro conjI impI)
    show "\<forall>v \<in> sy_vms s' \<inter> sy_recorded s'. sent_id (f_mvm f) dn = Some (id_text v)"
      using midrunD(1) [OF assms(1)] assms(4) by blast
    show "names (f_mvm f) \<subseteq> sy_recorded s'" using midrunD(2) [OF assms(1)] assms(5) by blast
    show "sy_vms s' \<inter> sy_recorded s' = {}" if "may_let_go E h f dn \<and> sent_id (f_mvm f) dn = machine_provider_id (f_mvm f)"
      using midrunD(3) [OF assms(1)] that assms(4) by blast
    show "\<forall>r vm uid. looks E h f dn r \<and> fst r = Some vm \<and> mv_Spec vm = Some (Some uid) \<longrightarrow>
        GetInstanceID (machine_scope_of f) = Return uid" using midrunD(4) [OF assms(1)] by blast
  qed
  ultimately show "midrun E h f (dn @ [ev]) s'" by simp
qed

lemma midrun_lookup:
  assumes mid: "midrun E h f dn s" and "sound d s" "m_Spec_FailureDomain (f_machine f) = d"
    and t: "truthful (fst (e_ServiceGet E (h @ dn) svc)) (asked svc) (sy_vms s)"
  shows "midrun E h f (dn @ [ServiceGet svc]) s"
proof -
  let ?r = "fst (e_ServiceGet E (h @ dn) svc)"
  have sent: "sent_id (f_mvm f) (dn @ [ServiceGet svc]) = sent_id (f_mvm f) dn" by (simp add: sent_id_snoc)
  have gone: "v \<notin> sy_recorded s"
    if "vm_gone ?r" "sent_id (f_mvm f) dn = machine_provider_id (f_mvm f)" "v \<in> sy_vms s" "svc_scope svc = machine_scope_of f"
      "GetFailureDomain (machine_scope_of f) = Return (Inr (svc_addr svc))" for v
  proof
    assume "v \<in> sy_recorded s"
    then have "machine_provider_id (f_mvm f) = Some (id_text v)" using midrunD(1) [OF mid that(3)] that(2) by simp
    from named_host [OF this] assms(2,3) that(3,4,5) have "asked svc = v" by (auto simp: sound_def asked_def)
    then show False using t that(1,3) by (simp add: truthful_def)
  qed
  have found: "GetInstanceID (machine_scope_of f) = Return uid"
    if "fst ?r = Some vm" "mv_Spec vm = Some (Some uid)" "svc_scope svc = machine_scope_of f" for vm uid
  proof -
    obtain i where "GetInstanceID (machine_scope_of f) = Return i" using GetInstanceID_returns by blast
    then show ?thesis using t that by (simp add: truthful_def asked_def)
  qed
  show ?thesis
    unfolding midrun_def
  proof (intro conjI allI impI)
    show "\<forall>v \<in> sy_vms s \<inter> sy_recorded s. sent_id (f_mvm f) (dn @ [ServiceGet svc]) = Some (id_text v)"
      using midrunD(1) [OF mid] sent by auto
    show "names (f_mvm f) \<subseteq> sy_recorded s" by (rule midrunD(2) [OF mid])
    show "sy_vms s \<inter> sy_recorded s = {}"
      if "may_let_go E h f (dn @ [ServiceGet svc]) \<and> sent_id (f_mvm f) (dn @ [ServiceGet svc]) = machine_provider_id (f_mvm f)"
      using that midrunD(3) [OF mid] gone unfolding sent may_let_go_def looks_snoc by blast
    show "GetInstanceID (machine_scope_of f) = Return uid"
      if "looks E h f (dn @ [ServiceGet svc]) r \<and> fst r = Some vm \<and> mv_Spec vm = Some (Some uid)" for r vm uid
      using that midrunD(4) [OF mid] found unfolding looks_snoc by blast
  qed
qed

subsection \<open>The steps of the world\<close>

definition midway :: "env \<Rightarrow> NamespacedName \<Rightarrow> string option \<Rightarrow> history \<Rightarrow> event list \<Rightarrow> system \<Rightarrow> bool" where
  "midway E req d h dn s \<longleftrightarrow> sound d s \<and> (\<forall>f. machine_admitted E req h f \<and> dn \<noteq> [] \<longrightarrow> midrun E h f dn s)"

lemma sound_env: "env_step s s' \<Longrightarrow> sound d s \<Longrightarrow> sound d s'"
proof (induction rule: env_step.induct)
  case (es_edit s o1 o2)
  then have "names o2 = names o1" by (simp add: names_def)
  then show ?case using es_edit unfolding sound_def by simp
qed (auto simp: sound_def names_def)

lemma env_step_vms: "env_step s s' \<Longrightarrow> sy_vms s' \<subseteq> sy_vms s \<and> sy_recorded s' = sy_recorded s"
  by (induction rule: env_step.induct) auto

lemma midway_env:
  assumes "env_step s s'" "midway E req d h dn s"
  shows "midway E req d h dn s'"
proof -
  have "midrun E h f dn s'" if "midrun E h f dn s" for f
    using midrun_quiet(2) [OF that, of "ServiceClose undefined" s'] env_step_vms [OF assms(1)] by auto
  then show ?thesis using assms(2) sound_env [OF assms(1)] unfolding midway_def by blast
qed

text \<open>The read at the start of a run.\<close>

lemma midrun_start:
  assumes "sound d s" "sy_obj s = Some (f_mvm f)"
  shows "midrun E h f [GetMicrovmMachine k] s"
proof -
  have "\<not> looks E h f [GetMicrovmMachine k] r" for r
    using looks_snoc [of E h f "[]" "GetMicrovmMachine k" r] by (simp add: looks_def)
  moreover have "sent_id (f_mvm f) [GetMicrovmMachine k] = machine_provider_id (f_mvm f)" by (simp add: sent_id_def)
  ultimately show ?thesis using assms unfolding midrun_def may_let_go_def sound_def names_def by auto
qed

lemma sound_patched:
  assumes "sound d s" "\<And>v. v \<in> sy_vms s \<Longrightarrow> v \<in> sy_recorded s \<union> names m \<Longrightarrow> v \<in> names m \<and> guarded m"
  shows "sound d (s\<lparr>sy_obj := Some m, sy_recorded := sy_recorded s \<union> names m\<rparr>)"
  using assms unfolding sound_def by auto

lemma sound_created:
  assumes "sound d s" "storable_id a u" "(a, u) \<notin> sy_recorded s" "\<And>x. d = Some x \<Longrightarrow> x \<noteq> '''' \<Longrightarrow> a = x"
  shows "sound d (s\<lparr>sy_vms := insert (a, u) (sy_vms s)\<rparr>)"
  using assms unfolding sound_def by auto

lemma placed_domain:
  assumes "GetFailureDomain m = Return (Inr a)" "m_Spec_FailureDomain (sc_Machine m) = Some x" "x \<noteq> ''''"
  shows "a = x"
  using assms by (simp add: GetFailureDomain_def)

text \<open>One event of an admitted run: first for the world, then for the run itself.\<close>

lemma sound_event:
  assumes "ev_step E (h @ dn) ev s s'" "sound d s" "m_Spec_FailureDomain (f_machine f) = d" "proper E h f dn ev"
    and "(\<And>k. ev \<noteq> GetMicrovmMachine k) \<Longrightarrow> midrun E h f dn s"
  shows "sound d s'"
  using assms(1)
proof cases
  case (vs_patched o1 m ts)
  have "midrun E h f dn s" "proper E h f dn (PatchMachine m ts)" using assms(4,5) vs_patched(1) by simp_all
  then show ?thesis unfolding vs_patched(2) by (intro sound_patched [OF assms(2)]) (rule patch_holds [OF _ assms(2,3)])
next
  case (vs_created svc u)
  have "GetFailureDomain (machine_scope_of f) = Return (Inr (svc_addr svc))" using assms(4) vs_created(1) by simp
  from placed_domain [OF this] assms(3) show ?thesis
    unfolding vs_created(2) using vs_created(4,5) by (intro sound_created [OF assms(2)]) (auto simp: machine_scope_of_parts)
qed (use assms(2) in simp_all)

lemma midrun_event:
  assumes "ev_step E (h @ dn) ev s s'" "sound d s" "m_Spec_FailureDomain (f_machine f) = d" "proper E h f dn ev"
    and "(\<And>k. ev \<noteq> GetMicrovmMachine k) \<Longrightarrow> midrun E h f dn s"
    and "\<And>k. ev = GetMicrovmMachine k \<Longrightarrow> e_GetMicrovmMachine E h k = Inr (f_mvm f)"
  shows "midrun E h f (dn @ [ev]) s'"
  using assms(1)
proof cases
  case (vs_read k)
  have dn: "dn = []" using assms(4) vs_read(1) by simp
  have "sy_obj s = Some (f_mvm f)" using vs_read(3) [of "f_mvm f"] assms(6) [OF vs_read(1)] dn by simp
  from midrun_start [OF assms(2) this, of E h k] show ?thesis using dn vs_read(1,2) by simp
next
  case (vs_patched o1 m ts)
  have "midrun E h f dn s" "proper E h f dn (PatchMachine m ts)" using assms(4,5) vs_patched(1) by simp_all
  then show ?thesis unfolding vs_patched(1,2) by (intro midrun_patch [OF _ assms(2,3)]) auto
next
  case (vs_unpatched m ts)
  have "midrun E h f (dn @ [PatchMachine m ts]) (s\<lparr>sy_obj := sy_obj s, sy_recorded := sy_recorded s\<rparr>)"
    using assms(4,5) vs_unpatched(1) by (intro midrun_patch [OF _ assms(2,3)]) auto
  then show ?thesis using vs_unpatched(1,2) by simp
next
  case (vs_got svc)
  then show ?thesis using assms(5) unfolding vs_got(1,2) by (intro midrun_lookup [OF _ assms(2,3)]) auto
next
  case vs_other
  then show ?thesis using assms(5) by (intro midrun_quiet(1)) auto
qed (use assms(5) in \<open>auto intro!: midrun_quiet(1)\<close>)

lemma midway_event:
  assumes laws: "finalizer_laws E" "patch_frame E" "service_frame E" "same_domain E d"
    and run: "snd (MachineReconciler_Reconcile E req h) = h @ dn @ ev # todo"
    and step: "ev_step E (h @ dn) ev s s'" and mid: "midway E req d h dn s"
  shows "midway E req d h (dn @ [ev]) s'"
proof (cases "\<exists>f. machine_admitted E req h f")
  case False
  then have "reads_only ev" using machine_Reconcile_skipped(1) [OF False] run by auto
  with step have "s' = s" by (auto elim: ev_step.cases)
  then show ?thesis using mid False unfolding midway_def by blast
next
  case True
  have sound: "sound d s" using mid by (simp add: midway_def)
  have "sound d s' \<and> midrun E h f (dn @ [ev]) s'" if f: "machine_admitted E req h f" for f
  proof -
    note ord = machine_run_orderly [OF laws(1-3) f run]
    have d: "m_Spec_FailureDomain (f_machine f) = d"
      using laws(4) f unfolding same_domain_def machine_admitted_def by blast
    have mr: "midrun E h f dn s" if "\<And>k. ev \<noteq> GetMicrovmMachine k"
      using mid ord(2) f that unfolding midway_def by blast
    have read: "e_GetMicrovmMachine E h k = Inr (f_mvm f)" if "ev = GetMicrovmMachine k" for k
      using ord that f by (simp add: machine_admitted_def)
    show ?thesis using sound_event [OF step sound d ord(1) mr] midrun_event [OF step sound d ord(1) mr read] by blast
  qed
  then show ?thesis using True unfolding midway_def by blast
qed

lemma midway_evolve:
  assumes laws: "finalizer_laws E" "patch_frame E" "service_frame E" "same_domain E d" and "evolve E h' es s s'"
  shows "h' = h @ dn \<Longrightarrow> snd (MachineReconciler_Reconcile E req h) = h @ dn @ es @ todo \<Longrightarrow>
    midway E req d h dn s \<Longrightarrow> midway E req d h (dn @ es) s'"
  using assms(5)
proof (induction arbitrary: dn rule: evolve.induct)
  case (ev_event h' ev s s' es s'')
  have "midway E req d h (dn @ [ev]) s'"
    using midway_event [OF laws, of req h dn ev "es @ todo" s s'] ev_event by simp
  then show ?case using ev_event.IH [of "dn @ [ev]"] ev_event.prems by simp
next
  case (ev_env s s' h' es s'')
  then show ?case using midway_env [of s s'] by blast
qed simp

lemma reachable_sound:
  assumes laws: "finalizer_laws E" "patch_frame E" "service_frame E" "same_domain E d" and "reachable E req h s"
  shows "sound d s"
  using assms(5)
proof (induction rule: reachable.induct)
  case (r_init x)
  show ?case by (simp add: sound_def)
next
  case (r_run h s es unrun s')
  then have "midway E req d h es s'"
    using midway_evolve [OF laws, of h es s s' h "[]" req unrun] by (simp add: midway_def)
  then show ?case by (simp add: midway_def)
qed

section \<open>Properties\<close>

text \<open>
  C1: no recorded microvm is orphaned. In every reachable world, however often the controller ran, wherever
  it was stopped, whatever failed, however many microvms were created and however the world moved in
  between: a microvm that flintlock has, and whose provider id the stored object has had at some time,
  belongs to an object that is stored, still has this provider id and carries the finalizer; so the object
  cannot go away before the microvm does, and no other microvm takes its place. It is supposed that reads are
  up to date, that an answer of a lookup is true of the microvm it was asked for (at its host, with its
  uid), that uids are new, that nobody else writes the finalizer or the provider id, and that the failure
  domain of the owner Machine stays the same. A microvm whose provider id was never stored is not covered:
  it can be lost, as the next section shows.
\<close>

theorem no_recorded_microvm_orphaned:
  assumes "finalizer_laws E" "patch_frame E" "service_frame E" "same_domain E d" "reachable E req h s"
    and "(host, uid) \<in> sy_vms s" "(host, uid) \<in> sy_recorded s"
  shows "\<exists>obj. sy_obj s = Some obj \<and> MachineFinalizer \<in> set (machine_finalizers obj) \<and>
    machine_provider_id obj = Some (ProviderPrefix @ host @ ''/'' @ uid)"
proof -
  have "held s (host, uid)" using reachable_sound [OF assms(1-5)] assms(6,7) unfolding sound_def by blast
  then show ?thesis by (auto simp: names_def id_text_def)
qed

section \<open>A lost microvm\<close>

text \<open>
  Three runs in one world. In the first the process stops right after the creation of the microvm \<open>A\<close>; the
  second reads a machine without a provider id, creates \<open>B\<close> and records it; then \<open>B\<close> goes away, the machine is
  deleted, and the third run, whose lookup of \<open>B\<close> finds nothing, takes the finalizer away. The answers
  of the environment depend on the number of runs before.
\<close>

fun reads_machine :: "event \<Rightarrow> bool" where
  "reads_machine (GetMicrovmMachine _) = True"
| "reads_machine _ = False"

definition runs_before :: "history \<Rightarrow> nat" where
  "runs_before h = length (filter reads_machine h)"

lemma runs_before_simps [simp]:
  "runs_before [] = 0" "runs_before (h @ h') = runs_before h + runs_before h'"
  "runs_before (ev # h) = (if reads_machine ev then 1 else 0) + runs_before h"
  by (simp_all add: runs_before_def)

definition fx_guarded :: MicrovmMachine where
  "fx_guarded = set_finalizers [MachineFinalizer] fx_mvm_machine"

definition fx_named :: MicrovmMachine where
  "fx_named = set_provider_id ''microvm://127.0.0.1:9090/B''
     (fx_guarded\<lparr>mm_ObjectMeta := (mm_ObjectMeta fx_guarded)\<lparr>om_DeletionTimestamp := om_DeletionTimestamp (mm_ObjectMeta fx_deleting_machine)\<rparr>\<rparr>)"

definition fx_losing :: env where
  "fx_losing = fx_env\<lparr>e_GetMicrovmMachine := \<lambda>h k. Inr (if runs_before h = 0 then fx_mvm_machine else if runs_before h = 1 then fx_guarded else fx_named),
     e_ServiceCreate := \<lambda>h svc. ((Some ((fx_microvm PENDING)\<lparr>mv_Spec := Some (Some (if runs_before h = 1 then ''A'' else ''B''))\<rparr>), None),
       sc_MvmMachine (svc_scope svc))\<rparr>"

lemmas fx_losing_defs = fx_losing_def fx_guarded_def fx_named_def fx_deleting_defs scope_simps machine_parts
  ProviderPrefix_def service_at_def

lemma fx_losing_laws:
  "finalizer_laws fx_losing" "patch_frame fx_losing" "service_frame fx_losing" "same_domain fx_losing (Some ''127.0.0.1:9090'')"
  by (auto simp: finalizer_laws_def patch_frame_def service_frame_def same_domain_def fx_losing_def fx_env_def fx_machine_def)

abbreviation fx_host :: string where
  "fx_host \<equiv> ''127.0.0.1:9090''"

lemma fx_losing_first:
  "\<exists>x y z w a opts p ts sv rest. snd (MachineReconciler_Reconcile fx_losing (fx_key ''machine1'') []) =
     [GetMicrovmMachine (fx_key ''machine1''), GetOwnerMachine x, GetClusterFromMetadata y, GetMicrovmCluster z, NewMachineHelper w,
      NewFlintlockClient a opts, PatchMachine p ts, ServiceCreate sv] @ rest \<and>
   guarded p \<and> machine_provider_id p = None \<and> svc_addr sv = fx_host"
  by (simp add: machine_defs fx_defs fx_losing_defs)

lemma fx_losing_second:
  assumes "runs_before h = 1"
  shows "\<exists>x y z w a opts p ts sv p' ts' sv' p'' ts''. snd (MachineReconciler_Reconcile fx_losing (fx_key ''machine1'') h) =
     h @ [GetMicrovmMachine (fx_key ''machine1''), GetOwnerMachine x, GetClusterFromMetadata y, GetMicrovmCluster z, NewMachineHelper w,
      NewFlintlockClient a opts, PatchMachine p ts, ServiceCreate sv, PatchMachine p' ts', ServiceClose sv', PatchMachine p'' ts''] \<and>
   guarded p \<and> guarded p' \<and> guarded p'' \<and> machine_provider_id p = None \<and>
   machine_provider_id p' = machine_provider_id fx_named \<and> machine_provider_id p'' = machine_provider_id fx_named \<and> svc_addr sv = fx_host"
  using assms by (simp add: machine_defs fx_defs fx_losing_defs)

lemma fx_losing_third:
  assumes "runs_before h = 2"
  shows "\<exists>x y z w a opts sv sv' p ts. snd (MachineReconciler_Reconcile fx_losing (fx_key ''machine1'') h) =
     h @ [GetMicrovmMachine (fx_key ''machine1''), GetOwnerMachine x, GetClusterFromMetadata y, GetMicrovmCluster z, NewMachineHelper w,
      NewFlintlockClient a opts, ServiceGet sv, ServiceClose sv', PatchMachine p ts] \<and>
   \<not> guarded p \<and> machine_provider_id p = machine_provider_id fx_named \<and> asked sv = (fx_host, ''B'')"
proof -
  have "bind_outcome (NewProviderID ''microvm://127.0.0.1:9090/B'') (case_sum (\<lambda>err. Return []) (\<lambda>p. Return (ID p))) = Return ''B''"
    using GetInstanceID_of_SetProviderID [of "''B''" fx_host fx_scope] by (simp add: GetInstanceID_def scope_simps ProviderPrefix_def)
  then show ?thesis
    using assms by (simp add: machine_defs fx_defs fx_losing_defs asked_def GetInstanceID_def isSpecNotFound_def Contains_def Index_def)
qed

text \<open>The worlds after the first, the second and the third run.\<close>

lemma evolve_other:
  assumes "reads_only ev \<or> connects ev \<or> calls_close ev" "\<And>k. ev \<noteq> GetMicrovmMachine k" "evolve E (h @ [ev]) es s s'"
  shows "evolve E h (ev # es) s s'"
  using assms by (intro ev_event [OF vs_other]) auto

lemma fx_losing_creates:
  assumes "u = (if runs_before h = 1 then ''A'' else ''B'')" "svc_addr sv = fx_host" "(fx_host, u) \<notin> sy_vms s \<union> sy_recorded s"
  shows "ev_step fx_losing h (ServiceCreate sv) s (s\<lparr>sy_vms := insert (fx_host, u) (sy_vms s)\<rparr>)"
proof -
  have "ev_step fx_losing h (ServiceCreate sv) s (s\<lparr>sy_vms := insert (svc_addr sv, u) (sy_vms s)\<rparr>)"
    by (rule vs_created) (use assms in \<open>auto simp: fx_losing_def storable_id_def split: if_splits\<close>)
  then show ?thesis by (simp add: assms(2))
qed

lemma fx_first_world:
  "\<exists>h. reachable fx_losing (fx_key ''machine1'') h \<lparr>sy_obj = Some fx_guarded, sy_vms = {(fx_host, ''A'')}, sy_recorded = {}\<rparr> \<and>
     runs_before h = 1"
proof -
  let ?k = "fx_key ''machine1''"
  let ?s = "\<lparr>sy_obj = Some fx_mvm_machine, sy_vms = {}, sy_recorded = {}\<rparr>"
  obtain x y z w a opts p ts sv rest where run: "snd (MachineReconciler_Reconcile fx_losing ?k []) =
      [] @ [GetMicrovmMachine ?k, GetOwnerMachine x, GetClusterFromMetadata y, GetMicrovmCluster z, NewMachineHelper w,
       NewFlintlockClient a opts, PatchMachine p ts, ServiceCreate sv] @ rest" (is "_ = [] @ ?es @ _")
    and p: "guarded p" "machine_provider_id p = None" "svc_addr sv = fx_host" using fx_losing_first by auto
  have m: "names fx_mvm_machine = {}" "machine_provider_id fx_guarded = None" "guarded fx_guarded"
    by (simp_all add: names_def fx_guarded_def fx_mvm_machine_def machine_parts)
  have read: "ev_step fx_losing [] (GetMicrovmMachine ?k) ?s ?s" by (rule vs_read) (simp add: fx_losing_def)
  have patch: "ev_step fx_losing h (PatchMachine p ts) ?s (?s\<lparr>sy_obj := Some p\<rparr>)" for h
    using vs_patched [of ?s fx_mvm_machine fx_losing h p ts] p(2) by (simp add: names_def)
  have create: "ev_step fx_losing h (ServiceCreate sv) (?s\<lparr>sy_obj := Some p\<rparr>) (?s\<lparr>sy_obj := Some p, sy_vms := {(fx_host, ''A'')}\<rparr>)"
    if "runs_before h = 1" for h
    using fx_losing_creates [of "''A''" h sv "?s\<lparr>sy_obj := Some p\<rparr>"] that p(3) by simp
  have edit: "env_step (?s\<lparr>sy_obj := Some p, sy_vms := {(fx_host, ''A'')}\<rparr>)
      \<lparr>sy_obj = Some fx_guarded, sy_vms = {(fx_host, ''A'')}, sy_recorded = {}\<rparr>"
    using es_edit [of "?s\<lparr>sy_obj := Some p, sy_vms := {(fx_host, ''A'')}\<rparr>" p fx_guarded] p m by simp
  have "evolve fx_losing [] ?es ?s \<lparr>sy_obj = Some fx_guarded, sy_vms = {(fx_host, ''A'')}, sy_recorded = {}\<rparr>"
    by (intro ev_event [OF read] evolve_other ev_event [OF patch] ev_event [OF create] ev_env [OF edit] ev_done) simp_all
  moreover have "reachable fx_losing ?k [] ?s" using r_init [of fx_losing ?k "Some fx_mvm_machine"] m(1) by simp
  ultimately have "reachable fx_losing ?k ([] @ ?es) \<lparr>sy_obj = Some fx_guarded, sy_vms = {(fx_host, ''A'')}, sy_recorded = {}\<rparr>"
    by (intro r_run [OF _ run])
  then show ?thesis by (intro exI [of _ ?es]) simp
qed

lemma fx_second_world:
  "\<exists>h p. reachable fx_losing (fx_key ''machine1'') h
       \<lparr>sy_obj = Some p, sy_vms = {(fx_host, ''B''), (fx_host, ''A'')}, sy_recorded = names fx_named\<rparr> \<and>
     runs_before h = 2 \<and> guarded p \<and> machine_provider_id p = machine_provider_id fx_named"
proof -
  let ?k = "fx_key ''machine1''"
  let ?s = "\<lparr>sy_obj = Some fx_guarded, sy_vms = {(fx_host, ''A'')}, sy_recorded = {}\<rparr>"
  let ?t = "\<lambda>m. \<lparr>sy_obj = Some m, sy_vms = {(fx_host, ''B''), (fx_host, ''A'')}, sy_recorded = names fx_named\<rparr>"
  obtain h where h: "reachable fx_losing ?k h ?s" "runs_before h = 1" using fx_first_world by blast
  obtain x y z w a opts p ts sv p' ts' sv' p'' ts'' where run: "snd (MachineReconciler_Reconcile fx_losing ?k h) =
      h @ [GetMicrovmMachine ?k, GetOwnerMachine x, GetClusterFromMetadata y, GetMicrovmCluster z, NewMachineHelper w,
       NewFlintlockClient a opts, PatchMachine p ts, ServiceCreate sv, PatchMachine p' ts', ServiceClose sv', PatchMachine p'' ts''] @ []"
    (is "_ = h @ ?es @ []")
    and p: "guarded p''" "machine_provider_id p = None"
      "machine_provider_id p' = machine_provider_id fx_named" "machine_provider_id p'' = machine_provider_id fx_named" "svc_addr sv = fx_host"
    using fx_losing_second [OF h(2)] by auto
  have names: "names p = {}" "names p' = names fx_named" "names p'' = names fx_named" using p by (simp_all add: names_def)
  have read: "ev_step fx_losing h (GetMicrovmMachine ?k) ?s ?s" by (rule vs_read) (simp add: fx_losing_def h(2))
  have patch: "ev_step fx_losing h' (PatchMachine p ts) ?s (?s\<lparr>sy_obj := Some p\<rparr>)" for h'
    using vs_patched [of ?s fx_guarded fx_losing h' p ts] names by simp
  have create: "ev_step fx_losing h' (ServiceCreate sv) (?s\<lparr>sy_obj := Some p\<rparr>)
      (?s\<lparr>sy_obj := Some p, sy_vms := {(fx_host, ''B''), (fx_host, ''A'')}\<rparr>)" if "runs_before h' = 2" for h'
    using fx_losing_creates [of "''B''" h' sv "?s\<lparr>sy_obj := Some p\<rparr>"] that p(5) by simp
  have name: "ev_step fx_losing h' (PatchMachine p' ts') (?s\<lparr>sy_obj := Some p, sy_vms := {(fx_host, ''B''), (fx_host, ''A'')}\<rparr>) (?t p')" for h'
    using vs_patched [of "?s\<lparr>sy_obj := Some p, sy_vms := {(fx_host, ''B''), (fx_host, ''A'')}\<rparr>" p fx_losing h' p' ts'] names by simp
  have last: "ev_step fx_losing h' (PatchMachine p'' ts'') (?t p') (?t p'')" for h'
    using vs_patched [of "?t p'" p' fx_losing h' p'' ts''] names by simp
  have "evolve fx_losing h ?es ?s (?t p'')"
    by (intro ev_event [OF read] evolve_other ev_event [OF patch] ev_event [OF create] ev_event [OF name] ev_event [OF last] ev_done)
       (simp_all add: h(2))
  from r_run [OF h(1) run this] show ?thesis using p(1,4) h(2) by (intro exI [of _ "h @ ?es"] exI [of _ p'']) simp
qed

theorem no_recorded_microvm_orphaned_witness:
  "\<exists>h s. reachable fx_losing (fx_key ''machine1'') h s \<and> (fx_host, ''B'') \<in> sy_vms s \<and>
     (\<exists>obj. sy_obj s = Some obj \<and> MachineFinalizer \<in> set (machine_finalizers obj) \<and>
        machine_provider_id obj = Some (ProviderPrefix @ fx_host @ ''/'' @ ''B''))"
proof -
  obtain h p where h: "reachable fx_losing (fx_key ''machine1'') h
      \<lparr>sy_obj = Some p, sy_vms = {(fx_host, ''B''), (fx_host, ''A'')}, sy_recorded = names fx_named\<rparr>" (is "reachable _ _ _ ?s")
    using fx_second_world by blast
  have v: "(fx_host, ''B'') \<in> sy_vms ?s" "(fx_host, ''B'') \<in> sy_recorded ?s"
    by (simp_all add: names_def fx_named_def machine_parts id_text_def ProviderPrefix_def)
  from no_recorded_microvm_orphaned [OF fx_losing_laws h this] h v(1) show ?thesis by blast
qed

text \<open>
  C30: a microvm can be lost for good. With an environment that keeps all the suppositions of the property
  above, a world is reachable in which flintlock has a microvm that the controller created and no object is
  stored any more. The provider id of a microvm is stored only after the creation, by a second patch; when the
  process stops in between (or the patch fails) the next run does not look for the microvm but creates
  another, and when that one is gone the finalizer is taken away.
\<close>

theorem lost_microvm:
  "finalizer_laws fx_losing \<and> patch_frame fx_losing \<and> service_frame fx_losing \<and> same_domain fx_losing (Some fx_host) \<and>
   (\<exists>h s. reachable fx_losing (fx_key ''machine1'') h s \<and> (fx_host, ''A'') \<in> sy_vms s \<and> sy_obj s = None)"
proof -
  let ?k = "fx_key ''machine1''"
  let ?t = "\<lambda>m V. \<lparr>sy_obj = m, sy_vms = V, sy_recorded = names fx_named\<rparr>" and ?A = "{(fx_host, ''A'')}" and ?AB = "{(fx_host, ''B''), (fx_host, ''A'')}"
  obtain h p where h: "reachable fx_losing ?k h (?t (Some p) ?AB)" "runs_before h = 2"
    and p: "guarded p" "machine_provider_id p = machine_provider_id fx_named" using fx_second_world by blast
  obtain x y z w a opts sv sv' q ts where run: "snd (MachineReconciler_Reconcile fx_losing ?k h) =
      h @ [GetMicrovmMachine ?k, GetOwnerMachine x, GetClusterFromMetadata y, GetMicrovmCluster z, NewMachineHelper w,
       NewFlintlockClient a opts, ServiceGet sv, ServiceClose sv', PatchMachine q ts] @ []" (is "_ = h @ ?es @ []")
    and q: "\<not> guarded q" "machine_provider_id q = machine_provider_id fx_named" "asked sv = (fx_host, ''B'')"
    using fx_losing_third [OF h(2)] by auto
  have g: "guarded fx_named" by (simp add: fx_named_def fx_guarded_def machine_parts)
  have edit: "env_step (?t (Some p) ?AB) (?t (Some fx_named) ?AB)" using es_edit [of "?t (Some p) ?AB" p fx_named] p g by simp
  have gone: "env_step (?t (Some fx_named) ?AB) (?t (Some fx_named) ?A)"
    using es_vanish [of "?t (Some fx_named) ?AB" "(fx_host, ''B'')"] by (simp add: insert_Diff_if)
  have read: "ev_step fx_losing h (GetMicrovmMachine ?k) (?t (Some fx_named) ?A) (?t (Some fx_named) ?A)"
    by (rule vs_read) (simp add: fx_losing_def h(2))
  have get: "ev_step fx_losing h' (ServiceGet sv) (?t (Some fx_named) ?A) (?t (Some fx_named) ?A)" for h'
    by (rule vs_got) (simp add: truthful_def q(3) fx_losing_def fx_env_def)
  have "names q = names fx_named" using q(2) by (simp add: names_def)
  then have patch: "ev_step fx_losing h' (PatchMachine q ts) (?t (Some fx_named) ?A) (?t (Some q) ?A)" for h'
    using vs_patched [of "?t (Some fx_named) ?A" fx_named fx_losing h' q ts] by simp
  have remove: "env_step (?t (Some q) ?A) (?t None ?A)" using es_remove [of "?t (Some q) ?A" q] q(1) by simp
  have "evolve fx_losing h ?es (?t (Some p) ?AB) (?t None ?A)"
    by (rule ev_env [OF edit], rule ev_env [OF gone])
       (intro ev_event [OF read] evolve_other ev_event [OF get] ev_event [OF patch] ev_env [OF remove] ev_done; simp)
  from r_run [OF h(1) run this] have "\<exists>h s. reachable fx_losing ?k h s \<and> (fx_host, ''A'') \<in> sy_vms s \<and> sy_obj s = None"
    by (intro exI conjI) auto
  then show ?thesis using fx_losing_laws by blast
qed

end
