(* ===== verification/Stale_Reads.thy ===== *)
theory Stale_Reads
  imports Lifecycle
begin

text \<open>
  The machine controller behind a cache. The client of the manager answers a read from the cache of an
  informer, which may lag behind the API server, and the patch helper sends no more than the difference
  between the object it was made with and the object it is given. This theory takes the two together.
  Its world keeps all the versions of the MicrovmMachine a read may still return; a read returns any of
  them, but never one older than a read before it, and a patch merges its difference into the version
  that is stored by then. The runs of one object follow one another, as the work queue of the
  controller has it, and each may stop at any event. The theory follows the finalizer and says nothing of
  the microvms: whenever a microvm is created, the object that is stored by then carries the finalizer,
  and no patch takes the finalizer away from a live object that carries it.
\<close>

section \<open>The world and its steps\<close>

text \<open>
  The versions a read may still return, the oldest first; \<open>None\<close> where there was no object. The last
  one is what the API server stores.
\<close>

type_synonym versions = "MicrovmMachine option list"

abbreviation alive :: "env \<Rightarrow> MicrovmMachine \<Rightarrow> bool" where
  "alive E m \<equiv> e_TimeIsZero E (om_DeletionTimestamp (mm_ObjectMeta m))"

text \<open>
  The world on its own: others edit the object but leave the controller's finalizer as it is and do not
  take a deletion timestamp back, the API server removes an object only when the finalizer is not there,
  and an object is created without the finalizer of the controller.
\<close>

inductive lag_step :: "env \<Rightarrow> versions \<Rightarrow> versions \<Rightarrow> bool" for E where
  ls_edit: "last vs = Some o1 \<Longrightarrow> guarded o2 = guarded o1 \<Longrightarrow> (alive E o2 \<longrightarrow> alive E o1) \<Longrightarrow> lag_step E vs (vs @ [Some o2])"
| ls_remove: "last vs = Some o1 \<Longrightarrow> \<not> guarded o1 \<Longrightarrow> lag_step E vs (vs @ [None])"
| ls_add: "last vs = None \<Longrightarrow> \<not> guarded o1 \<Longrightarrow> lag_step E vs (vs @ [Some o1])"

text \<open>The object the patch helper in use was made with.\<close>

fun helper_object :: "event \<Rightarrow> MicrovmMachine option" where
  "helper_object (NewMachineHelper m) = Some m"
| "helper_object _ = None"

definition helper_base :: "history \<Rightarrow> MicrovmMachine option" where
  "helper_base h = fold (\<lambda>ev b. case helper_object ev of None \<Rightarrow> b | Some m \<Rightarrow> Some m) h None"

text \<open>
  The world at an event of the controller. A read drops the versions older than the one it returns. A
  patch stores a version whose finalizers are those of the given object if these differ from the ones
  the helper was made with, and those of the stored version otherwise; the rest of that version is as
  the server has it, but no patch of the controller touches the deletion timestamp. A patch that fails
  may have been carried out or not, and so may one that has no difference to send. Every other event,
  the calls to flintlock among them, leaves the versions as they are.
\<close>

inductive lag_event :: "env \<Rightarrow> history \<Rightarrow> event \<Rightarrow> versions \<Rightarrow> versions \<Rightarrow> bool" for E h where
  le_read: "e_GetMicrovmMachine E h k = Inr m \<Longrightarrow> vs = older @ Some m # newer \<Longrightarrow>
    lag_event E h (GetMicrovmMachine k) vs (Some m # newer)"
| le_unread: "e_GetMicrovmMachine E h k = Inl err \<Longrightarrow> lag_event E h (GetMicrovmMachine k) vs vs"
| le_patched: "helper_base h = Some b \<Longrightarrow> last vs = Some o1 \<Longrightarrow>
    machine_finalizers o2 = (if machine_finalizers m = machine_finalizers b then machine_finalizers o1 else machine_finalizers m) \<Longrightarrow>
    alive E o2 = alive E o1 \<Longrightarrow> lag_event E h (PatchMachine m ts) vs (vs @ [Some o2])"
| le_unpatched: "fst (e_PatchMachine E h m ts) \<noteq> None \<or>
    (\<exists>b. helper_base h = Some b \<and> machine_finalizers m = machine_finalizers b) \<Longrightarrow> lag_event E h (PatchMachine m ts) vs vs"
| le_other: "(\<And>k. ev \<noteq> GetMicrovmMachine k) \<Longrightarrow> (\<And>m ts. ev \<noteq> PatchMachine m ts) \<Longrightarrow> lag_event E h ev vs vs"

inductive lag_run :: "env \<Rightarrow> history \<Rightarrow> event list \<Rightarrow> versions \<Rightarrow> versions \<Rightarrow> bool" for E where
  lr_done: "lag_run E h [] vs vs"
| lr_env: "lag_step E vs vs' \<Longrightarrow> lag_run E h es vs' vs'' \<Longrightarrow> lag_run E h es vs vs''"
| lr_event: "lag_event E h ev vs vs' \<Longrightarrow> lag_run E (h @ [ev]) es vs' vs'' \<Longrightarrow> lag_run E h (ev # es) vs vs''"

text \<open>The worlds that can be reached from one with any object, or none.\<close>

inductive lag_reachable :: "env \<Rightarrow> NamespacedName \<Rightarrow> history \<Rightarrow> versions \<Rightarrow> bool" for E req where
  lg_init: "lag_reachable E req [] [x]"
| lg_run: "lag_reachable E req h vs \<Longrightarrow> snd (MachineReconciler_Reconcile E req h) = h @ es @ unrun \<Longrightarrow>
    lag_run E h es vs vs' \<Longrightarrow> lag_reachable E req (h @ es) vs'"

section \<open>What is supposed of the environment\<close>

text \<open>
  \<open>controllerutil.RemoveFinalizer\<close> leaves the list as it is if the finalizer is not there; otherwise
  the patch helper would see a difference.
\<close>

definition finalizer_idle :: "env \<Rightarrow> bool" where
  "finalizer_idle E \<longleftrightarrow> (\<forall>fs f. f \<notin> set fs \<longrightarrow> e_RemoveFinalizer E fs f = fs)"

lemma finalizer_idleD: "finalizer_idle E \<Longrightarrow> f \<notin> set fs \<Longrightarrow> e_RemoveFinalizer E fs f = fs"
  by (simp add: finalizer_idle_def)

section \<open>Versions in order\<close>

text \<open>Elements with the given properties occur in the list, one after the other.\<close>

fun chain :: "('a \<Rightarrow> bool) list \<Rightarrow> 'a list \<Rightarrow> bool" where
  "chain [] xs = True"
| "chain (P # Ps) [] = False"
| "chain (P # Ps) (x # xs) = (P x \<and> chain Ps xs \<or> chain (P # Ps) xs)"

lemma chain_Nil: "chain Ps [] \<longleftrightarrow> Ps = []"
  by (cases Ps) simp_all

lemma chain_snoc: "chain (Ps @ [Q]) (xs @ [x]) \<longleftrightarrow> chain (Ps @ [Q]) xs \<or> chain Ps xs \<and> Q x"
proof (induction xs arbitrary: Ps)
  case Nil
  show ?case by (cases Ps) (simp_all add: chain_Nil)
next
  case (Cons y ys)
  then show ?case by (cases Ps) (auto simp: Cons.IH [of "[]", simplified] Cons.IH [of "_ # _", simplified])
qed

lemma chain_suffix: "chain Ps ys \<Longrightarrow> chain Ps (xs @ ys)"
proof (induction xs)
  case (Cons x xs)
  then show ?case by (cases Ps) simp_all
qed simp

lemmas chain_snocs = chain_snoc [of "[]", simplified] chain_snoc [of "[_]", simplified] chain_snoc [of "[_, _]", simplified]

section \<open>The finalizers a run sends\<close>

text \<open>
  An event that reads no machine, makes no patch helper and, if it is a patch, sends finalizers from
  \<open>F\<close>; and a step of a run that is made of such events and leaves such finalizers.
\<close>

fun mends :: "string list set \<Rightarrow> event \<Rightarrow> bool" where
  "mends F (PatchMachine m _) = (machine_finalizers m \<in> F)"
| "mends F (GetMicrovmMachine _) = False"
| "mends F (NewMachineHelper _) = False"
| "mends F _ = True"

definition mended :: "string list set \<Rightarrow> history \<Rightarrow> 'r \<times> MachineScope \<times> history \<Rightarrow> bool" where
  "mended F h out \<longleftrightarrow> machine_finalizers (sc_MvmMachine (fst (snd out))) \<in> F \<and>
     (\<exists>es. snd (snd out) = h @ es \<and> list_all (mends F) es)"

lemma mended_grow: "mended F (h @ es) out \<Longrightarrow> list_all (mends F) es \<Longrightarrow> mended F h out"
  unfolding mended_def by (metis append.assoc list_all_append)

text \<open>The finalizers along the steps that only annotate the machine.\<close>

lemma finalizers_kept:
  assumes "patch_frame E" "service_frame E"
  shows "machine_finalizers (sc_MvmMachine (patched_scope E m h)) = machine_finalizers (sc_MvmMachine m)"
    "machine_finalizers (sc_MvmMachine (got_scope E svc m h)) = machine_finalizers (sc_MvmMachine m)"
    "machine_finalizers (sc_MvmMachine (created_scope E svc m h)) = machine_finalizers (sc_MvmMachine m)"
    "machine_finalizers (sc_MvmMachine (deleted_scope E svc m h)) = machine_finalizers (sc_MvmMachine m)"
    "machine_finalizers (sc_MvmMachine (SetProviderID fd uid m)) = machine_finalizers (sc_MvmMachine m)"
    "machine_finalizers (sc_MvmMachine (SetNotReady E reason sev msg m)) = machine_finalizers (sc_MvmMachine m)"
    "machine_finalizers (sc_MvmMachine (snd (parseMicroVMState E st m))) = machine_finalizers (sc_MvmMachine m)"
    "machine_finalizers (summarised E mvm) = machine_finalizers mvm"
  by (simp_all add: patched_scope_parts [OF assms(1)] service_scope_parts [OF assms(2)] parseMicroVMState_machine
      scope_simps machine_parts)

lemma record_microvm_mended:
  assumes "patch_frame E" "service_frame E" "machine_finalizers (sc_MvmMachine m) \<in> F"
  shows "mended F h (record_microvm E fd vm m h)"
  using assms(3) by (auto simp: record_microvm_eq mended_def finalizers_kept [OF assms(1,2)] split: option.splits)

lemma ensure_microvm_mended:
  assumes "patch_frame E" "service_frame E"
    and "e_AddFinalizer E (machine_finalizers (sc_MvmMachine m)) MachineFinalizer \<in> F"
  shows "mended F h (ensure_microvm E fd svc vm m h)"
proof -
  let ?m2 = "patched_scope E (guard_scope E m) h" and ?e1 = "patch_event E (guard_scope E m)"
  let ?m3 = "created_scope E svc ?m2 (h @ [?e1])" and ?es = "[?e1, ServiceCreate (service_at svc ?m2)]"
  note kept = finalizers_kept [OF assms(1,2)] finalizer_scopes
  have F: "machine_finalizers (sc_MvmMachine ?m2) \<in> F" "machine_finalizers (sc_MvmMachine ?m3) \<in> F" "list_all (mends F) ?es"
    using assms(3) by (simp_all add: kept)
  have "mended F h (record_microvm E fd v ?m2 (h @ [?e1]))" for v
    by (rule mended_grow [OF record_microvm_mended [OF assms(1,2) F(1)]]) (use F(3) in simp)
  moreover have "mended F h (record_microvm E fd v ?m3 (h @ ?es))" for v
    by (rule mended_grow [OF record_microvm_mended [OF assms(1,2) F(2)] F(3)])
  ultimately show ?thesis
    using F by (auto simp: ensure_microvm_eq Let_def mended_def [of F h "(_, _)"] split: option.splits)
qed

lemma normal_with_service_mended:
  assumes "patch_frame E" "service_frame E" "machine_finalizers (sc_MvmMachine m) \<in> F"
    and "e_AddFinalizer E (machine_finalizers (sc_MvmMachine m)) MachineFinalizer \<in> F"
  shows "mended F h (normal_with_service E fd svc m h)"
proof -
  let ?e = "ServiceGet (service_at svc m)" and ?m = "got_scope E svc m h"
  have m: "machine_finalizers (sc_MvmMachine ?m) = machine_finalizers (sc_MvmMachine m)"
    by (rule finalizers_kept [OF assms(1,2)])
  have "mended F h (ensure_microvm E fd svc (fst (got E svc m h)) ?m (h @ [?e]))"
    by (rule mended_grow [OF ensure_microvm_mended [OF assms(1,2)]]) (simp_all add: m assms(4))
  moreover have "mended F h (ensure_microvm E fd svc None m h)" by (rule ensure_microvm_mended [OF assms(1,2,4)])
  ultimately show ?thesis
    using assms(3) m by (auto simp: normal_with_service_eq mended_def [of F h "(_, _)"])
qed

lemma delete_with_service_mended:
  assumes "patch_frame E" "service_frame E" "machine_finalizers (sc_MvmMachine m) \<in> F"
    and "e_RemoveFinalizer E (machine_finalizers (sc_MvmMachine m)) MachineFinalizer \<in> F"
  shows "mended F h (delete_with_service E svc m h)"
  using assms(3,4)
  by (auto simp: delete_with_service_eq mended_def Let_def finalizers_kept [OF assms(1,2)] finalizer_scopes split: option.split)

lemma service_region_mended:
  assumes "machine_finalizers (sc_MvmMachine m) \<in> F" "getMicrovmService E fd m h = (r, h1)"
    and "\<And>svc. mended F h1 (body svc)"
  shows "mended F h (case r of Inl err \<Rightarrow> (failed err, m, h1) | Inr svc \<Rightarrow> with_deferred_close svc (body svc))"
proof -
  obtain ss where ss: "list_all reads_secret ss" and ev: "service_events E fd m h ss" using getMicrovmService_events by blast
  have "mends F e" if "reads_secret e" for e using that by (cases e) simp_all
  then have "list_all (mends F) ss" using ss by (auto simp: list_all_iff)
  then obtain es where es: "h1 = h @ es" "list_all (mends F) es"
    using ev assms(2) by (auto simp: service_events_def split: sum.splits)
  show ?thesis
  proof (cases r)
    case (Inl err)
    then show ?thesis using es assms(1) by (auto simp: mended_def)
  next
    case (Inr svc)
    have "mended F h (body svc)" by (rule mended_grow [OF assms(3) [unfolded es(1)] es(2)])
    then show ?thesis using Inr by (cases "body svc") (auto simp: mended_def with_deferred_close_def)
  qed
qed

text \<open>
  The finalizers a whole run sends: those of the machine it read, with the controller's added if the
  machine is live and removed if it is being deleted.
\<close>

definition run_finalizers :: "env \<Rightarrow> MicrovmMachine \<Rightarrow> string list set" where
  "run_finalizers E b = {machine_finalizers b,
     if alive E b then e_AddFinalizer E (machine_finalizers b) MachineFinalizer
     else e_RemoveFinalizer E (machine_finalizers b) MachineFinalizer}"

lemma machine_body_mended:
  assumes "patch_frame E" "service_frame E"
  shows "mended (run_finalizers E (f_mvm f)) (h @ machine_preamble req f) (machine_body E req h f)"
proof -
  let ?m = "machine_scope_of f" and ?h = "h @ machine_preamble req f" and ?F = "run_finalizers E (f_mvm f)"
  have fs: "machine_finalizers (sc_MvmMachine ?m) \<in> ?F" by (simp add: run_finalizers_def machine_scope_of_parts)
  have wait: "machine_finalizers (sc_MvmMachine (update_MvmMachine (MarkFalse_Machine E c reason sev msg) ?m)) \<in> ?F" for c reason sev msg
    using fs by (simp add: scope_simps machine_parts)
  obtain r where r: "GetFailureDomain ?m = Return r" using GetFailureDomain_total by blast
  show ?thesis
  proof (cases r)
    case (Inl err)
    then show ?thesis
      using r fs wait
      by (auto simp: machine_body_def MachineReconciler_reconcileDelete_def MachineReconciler_reconcileNormal_def mended_def)
  next
    case (Inr fd)
    obtain s h1 where s: "getMicrovmService E fd ?m ?h = (s, h1)" by fastforce
    have normal: "mended ?F ?h (case s of Inl err \<Rightarrow> (Return (zero_Result, Some err), ?m, h1)
        | Inr svc \<Rightarrow> with_deferred_close svc (normal_with_service E fd svc ?m h1))" if "alive E (f_mvm f)"
      by (rule service_region_mended [OF fs s normal_with_service_mended [OF assms fs]])
         (use that in \<open>simp add: run_finalizers_def machine_scope_of_parts\<close>)
    have delete: "mended ?F ?h (case s of Inl err \<Rightarrow> (Return (zero_Result, None), ?m, h1)
        | Inr svc \<Rightarrow> with_deferred_close svc (delete_with_service E svc ?m h1))" if "\<not> alive E (f_mvm f)"
      by (rule service_region_mended [OF fs s delete_with_service_mended [OF assms fs]])
         (use that in \<open>simp add: run_finalizers_def machine_scope_of_parts\<close>)
    show ?thesis
      using r Inr s wait normal delete
      by (auto simp: machine_body_def MachineReconciler_reconcileDelete_def MachineReconciler_reconcileNormal_def mended_def)
  qed
qed

lemma machine_run_mends:
  assumes "patch_frame E" "service_frame E" "machine_admitted E req h f"
  shows "\<exists>es. snd (MachineReconciler_Reconcile E req h) = h @ machine_preamble req f @ es \<and>
    list_all (mends (run_finalizers E (f_mvm f))) es"
proof -
  obtain es where "snd (snd (machine_body E req h f)) = (h @ machine_preamble req f) @ es"
    "list_all (mends (run_finalizers E (f_mvm f))) es"
    "machine_finalizers (sc_MvmMachine (fst (snd (machine_body E req h f)))) \<in> run_finalizers E (f_mvm f)"
    using machine_body_mended [OF assms(1,2), of f h req] by (auto simp: mended_def)
  then show ?thesis by (simp add: machine_Reconcile_last(2) [OF assms(3)] finalizers_kept [OF assms(1,2)])
qed

text \<open>The machine is read once, at the start of the run.\<close>

lemma machine_read_first:
  assumes "patch_frame E" "service_frame E" "machine_admitted E req h f"
    and "snd (MachineReconciler_Reconcile E req h) = h @ pre @ ev # post"
  shows "pre = [] \<longleftrightarrow> ev = GetMicrovmMachine req" "ev = GetMicrovmMachine k \<Longrightarrow> k = req"
proof -
  obtain es where es: "machine_preamble req f @ es = pre @ ev # post" "list_all (mends (run_finalizers E (f_mvm f))) es"
    using machine_run_mends [OF assms(1-3)] assms(4) by auto
  let ?rest = "tl (machine_preamble req f @ es)"
  have run: "GetMicrovmMachine req # ?rest = pre @ ev # post" unfolding es(1) [symmetric] by simp
  have "GetMicrovmMachine k \<notin> set ?rest" for k using es(2) by (auto simp: list_all_iff)
  show "pre = [] \<longleftrightarrow> ev = GetMicrovmMachine req" "ev = GetMicrovmMachine k \<Longrightarrow> k = req"
    using run \<open>\<And>k. GetMicrovmMachine k \<notin> set ?rest\<close> by (cases pre; force)+
qed

text \<open>The patch helper of a run is made with the machine it read.\<close>

lemma helper_base_run:
  assumes "list_all (mends F) es"
  shows "helper_base (h @ machine_preamble req f @ es) = Some (f_mvm f)"
  using assms
proof (induction es rule: rev_induct)
  case (snoc ev es)
  then have "helper_object ev = None" by (cases ev) simp_all
  then show ?case using snoc by (simp add: helper_base_def)
qed (simp add: helper_base_def)

lemma machine_patch_base:
  assumes "patch_frame E" "service_frame E"
    and run: "snd (MachineReconciler_Reconcile E req h) = h @ pre @ PatchMachine m ts # post"
  obtains f where "machine_admitted E req h f" "helper_base (h @ pre) = Some (f_mvm f)"
    "machine_finalizers m \<in> run_finalizers E (f_mvm f)"
proof -
  obtain f where f: "machine_admitted E req h f"
    using machine_Reconcile_skipped(1) [of E req h] run by auto
  obtain es where es: "machine_preamble req f @ es = pre @ PatchMachine m ts # post" "list_all (mends (run_finalizers E (f_mvm f))) es"
    using machine_run_mends [OF assms(1,2) f] run by auto
  have "PatchMachine m ts \<notin> set (machine_preamble req f)" by simp
  with es(1) obtain es' where es': "pre = machine_preamble req f @ es'" "es = es' @ PatchMachine m ts # post"
    by (auto simp: append_eq_append_conv2 append_eq_Cons_conv Cons_eq_append_conv)
  have "helper_base (h @ machine_preamble req f @ es') = Some (f_mvm f)"
    by (rule helper_base_run) (use es(2) es'(2) in auto)
  then show ?thesis using that f es(2) es' by simp
qed

text \<open>Only a run that read a live machine creates, right after a patch that carries the finalizer.\<close>

lemma machine_create_context:
  assumes "finalizer_laws E" "snd (MachineReconciler_Reconcile E req h) = h @ pre @ ServiceCreate svc # post"
  obtains f d m where "machine_admitted E req h f" "alive E (f_mvm f)" "pre = d @ [PatchMachine m machine_owned]"
    "guarded m" "fst (e_PatchMachine E (h @ d) m machine_owned) = None"
proof -
  obtain f where f: "machine_admitted E req h f"
    using machine_Reconcile_skipped(1) [of E req h] assms(2) by auto
  have "alive E (f_mvm f)"
  proof (rule ccontr)
    assume "\<not> alive E (f_mvm f)"
    then have "\<exists>es. snd (snd (machine_body E req h f)) = (h @ machine_preamble req f) @ es \<and> \<not> list_ex calls_create es"
      using reconcileDelete_no_create [of E "machine_scope_of f" "h @ machine_preamble req f"] by (simp add: machine_body_def)
    then obtain es where "pre @ ServiceCreate svc # post = machine_preamble req f @ es @ [patch_event E (fst (snd (machine_body E req h f)))]"
      "\<not> list_ex calls_create es" using machine_Reconcile_last(2) [OF f] assms(2) by auto
    moreover have "list_ex calls_create (pre @ ServiceCreate svc # post)" by simp
    ultimately show False by simp
  qed
  moreover have "legal_run E h (pre @ ServiceCreate svc # post)"
    using machine_run_legal [OF assms(1), of req h] assms(2) by auto
  from legal_run_create [OF this refl] obtain d m where "pre = d @ [PatchMachine m machine_owned]" "guarded m"
    "fst (e_PatchMachine E (h @ d) m machine_owned) = None" by auto
  ultimately show ?thesis using that f by blast
qed

section \<open>The invariant\<close>

fun on :: "(MicrovmMachine \<Rightarrow> bool) \<Rightarrow> MicrovmMachine option \<Rightarrow> bool" where
  "on P None = False"
| "on P (Some m) = P m"

abbreviation live_guarded :: "env \<Rightarrow> MicrovmMachine \<Rightarrow> bool" where
  "live_guarded E m \<equiv> alive E m \<and> guarded m"

abbreviation deleted_guarded :: "env \<Rightarrow> MicrovmMachine \<Rightarrow> bool" where
  "deleted_guarded E m \<equiv> \<not> alive E m \<and> guarded m"

lemma on_guarded: "on (live_guarded E) x \<Longrightarrow> on guarded x" "on (deleted_guarded E) x \<Longrightarrow> on guarded x"
  by (cases x, simp_all)+

text \<open>
  What holds of the versions a read may still return. If one of them is live and has the finalizer, so
  that a run may create without a patch, the stored one has the finalizer. If a live one is followed by a
  deleted one with the finalizer, so that a run may add the finalizer to a later object and another take
  it away, the stored one is still that deleted object. And no deleted one with the finalizer is followed
  by a live one and then the finalizer again, so that a run that takes the finalizer away takes it from no
  later object.
\<close>

definition settled :: "env \<Rightarrow> versions \<Rightarrow> bool" where
  "settled E vs \<longleftrightarrow> vs \<noteq> [] \<and>
     (chain [on (live_guarded E)] vs \<longrightarrow> on guarded (last vs)) \<and>
     (chain [on (alive E), on (deleted_guarded E)] vs \<longrightarrow> on (deleted_guarded E) (last vs)) \<and>
     \<not> chain [on (deleted_guarded E), on (alive E), on guarded] vs \<and>
     \<not> chain [on (deleted_guarded E), on (live_guarded E)] vs"

text \<open>A new version: what has to be shown of it.\<close>

lemma settled_store:
  assumes "settled E vs"
  shows "settled E (vs @ [x]) \<longleftrightarrow>
    (chain [on (live_guarded E)] vs \<longrightarrow> on guarded x) \<and>
    (chain [on (alive E), on (deleted_guarded E)] vs \<longrightarrow> on (deleted_guarded E) x) \<and>
    \<not> (chain [on (deleted_guarded E), on (alive E)] vs \<and> on guarded x) \<and>
    \<not> (chain [on (deleted_guarded E)] vs \<and> on (live_guarded E) x)"
proof -
  have "on (live_guarded E) x \<Longrightarrow> on guarded x" by (rule on_guarded(1))
  then show ?thesis using assms by (simp add: settled_def chain_snocs)
qed

text \<open>The stored version continues a chain or is its end.\<close>

lemma chain_last:
  assumes "xs \<noteq> []" "chain (Ps @ [P]) xs" "Q (last xs)"
  shows "chain (Ps @ [P, Q]) xs \<or> chain (Ps @ [\<lambda>x. P x \<and> Q x]) xs"
proof -
  obtain ys where xs: "xs = ys @ [last xs]" using assms(1) append_butlast_last_id by metis
  have "chain (Ps @ [P]) ys \<or> chain Ps ys \<and> P (last xs)"
    using assms(2) xs chain_snoc [of Ps P ys "last xs"] by simp
  then have "chain ((Ps @ [P]) @ [Q]) (ys @ [last xs]) \<or> chain (Ps @ [\<lambda>x. P x \<and> Q x]) (ys @ [last xs])"
    using assms(3) unfolding chain_snoc by blast
  then show ?thesis using xs by simp
qed

lemma chain_mono:
  assumes "list_all2 (\<lambda>P Q. \<forall>x. P x \<longrightarrow> Q x) Ps Qs" "chain Ps xs"
  shows "chain Qs xs"
  using assms
proof (induction Ps xs arbitrary: Qs rule: chain.induct)
  case (3 P Ps x xs)
  then obtain Q Qs' where Q: "Qs = Q # Qs'" "P x \<Longrightarrow> Q x" "list_all2 (\<lambda>P Q. \<forall>x. P x \<longrightarrow> Q x) Ps Qs'"
    by (auto simp: list_all2_Cons1)
  show ?case
  proof (cases "chain (P # Ps) xs")
    case True
    then show ?thesis using "3.IH"(2) [OF "3.prems"(1)] Q(1) by simp
  next
    case False
    then show ?thesis using "3.IH"(1) [OF Q(3)] "3.prems"(2) Q(1,2) by simp
  qed
qed auto

text \<open>After a deleted version with the finalizer and a live one, the stored one does not have the finalizer.\<close>

lemma settled_turned:
  assumes "settled E vs" "chain [on (deleted_guarded E), on (alive E)] (vs)"
  shows "\<not> on guarded (last vs)"
proof
  assume "on guarded (last vs)"
  with assms have "chain ([on (deleted_guarded E)] @ [on (alive E), on guarded]) (vs) \<or>
      chain ([on (deleted_guarded E)] @ [\<lambda>x. on (alive E) x \<and> on guarded x]) (vs)"
    by (intro chain_last) (simp_all add: settled_def)
  moreover have "chain ([on (deleted_guarded E)] @ [\<lambda>x. on (alive E) x \<and> on guarded x]) (vs) \<Longrightarrow>
      chain [on (deleted_guarded E), on (live_guarded E)] (vs)"
    by (erule chain_mono [rotated]) (auto elim: on.elims)
  ultimately show False using assms(1) by (auto simp: settled_def)
qed

lemma settled_ended:
  assumes "settled E vs" "chain [on (deleted_guarded E)] (vs)"
  shows "\<not> on (live_guarded E) (last vs)"
proof
  assume "on (live_guarded E) (last vs)"
  with assms have "chain ([] @ [on (deleted_guarded E), on (live_guarded E)]) (vs) \<or>
      chain ([] @ [\<lambda>x. on (deleted_guarded E) x \<and> on (live_guarded E) x]) (vs)"
    by (intro chain_last) (simp_all add: settled_def)
  moreover have "\<not> chain [\<lambda>x. on (deleted_guarded E) x \<and> on (live_guarded E) x] xs" for xs
    by (induction xs) (auto elim: on.elims)
  ultimately show False using assms(1) by (auto simp: settled_def)
qed

subsection \<open>The steps of the world\<close>

lemma settled_copy:
  assumes "settled E vs" "last vs = Some o1" "guarded o2 = guarded o1" "alive E o2 \<longrightarrow> alive E o1"
  shows "settled E (vs @ [Some o2])"
  using assms settled_turned [OF assms(1)] settled_ended [OF assms(1)]
  unfolding settled_store [OF assms(1)] by (auto simp: settled_def)

lemma settled_free:
  assumes "settled E vs" "\<not> on guarded (last vs)" "\<not> on guarded x"
  shows "settled E (vs @ [x])"
proof -
  have "on (live_guarded E) x \<Longrightarrow> on guarded x"
    "on (deleted_guarded E) (last vs) \<Longrightarrow> on guarded (last vs)"
    by (rule on_guarded, assumption)+
  then show ?thesis using assms unfolding settled_store [OF assms(1)] by (auto simp: settled_def)
qed

lemma settled_lag_step: "lag_step E vs vs' \<Longrightarrow> settled E vs \<Longrightarrow> settled E vs'"
proof (induction rule: lag_step.induct)
  case (ls_edit vs o1 o2)
  then show ?case by (blast intro: settled_copy)
next
  case (ls_remove vs o1)
  then show ?case by (intro settled_free) simp_all
next
  case (ls_add vs o1)
  then show ?case by (intro settled_free) simp_all
qed

lemma settled_read:
  assumes "settled E vs" "vs = older @ Some m # newer"
  shows "settled E (Some m # newer)"
  using assms chain_suffix [of _ "Some m # newer" older] unfolding settled_def by fastforce

text \<open>
  A run that read a live version may add the finalizer, and one that read a deleted version with the
  finalizer may take it away, whatever is stored by then.
\<close>

lemma settled_guard:
  assumes "settled E vs" "hd vs = Some b" "alive E b"
    and "last vs = Some o1" "guarded o2" "alive E o2 = alive E o1"
  shows "settled E (vs @ [Some o2])"
proof -
  obtain w where w: "vs = Some b # w" using assms(1,2) by (cases "vs") (auto simp: settled_def)
  have dg: "on (deleted_guarded E) (last vs)" if "chain [on (deleted_guarded E)] (vs)"
  proof -
    have "chain [on (alive E), on (deleted_guarded E)] (vs)" using that assms(3) by (simp add: w)
    then show ?thesis using assms(1) unfolding settled_def by blast
  qed
  have "chain [on (deleted_guarded E)] w" if "chain [on (deleted_guarded E), on (alive E)] w"
    using that by (induction w) auto
  then have "chain [on (deleted_guarded E)] (vs)" if "chain [on (deleted_guarded E), on (alive E)] (vs)"
    using that assms(3) by (auto simp: w)
  then show ?thesis
    using settled_turned [OF assms(1)] dg assms(1,4-6) unfolding settled_store [OF assms(1)] by (auto simp: settled_def)
qed

lemma settled_release:
  assumes "settled E vs" "hd vs = Some b" "deleted_guarded E b" "\<not> guarded o2"
  shows "settled E (vs @ [Some o2])"
proof -
  obtain w where w: "vs = Some b # w" using assms(1,2) by (cases "vs") (auto simp: settled_def)
  have "chain [on (alive E), on guarded] w" if "chain [on (alive E), on (deleted_guarded E)] w"
    using that by (rule chain_mono [rotated]) (auto elim: on.elims)
  moreover have "\<not> chain [on (live_guarded E)] w" "\<not> chain [on (alive E), on guarded] w"
    using assms(1,3) by (auto simp: settled_def w)
  ultimately show ?thesis
    using assms(3,4) unfolding settled_store [OF assms(1)] by (auto simp: w)
qed

subsection \<open>The runs of the controller\<close>

text \<open>
  What holds in the middle of a run whose events so far are \<open>dn\<close>: the oldest version a read may return
  is the one the run read; and right after a patch that sent a live object with the finalizer the stored
  one has it.
\<close>

definition lag_midway :: "env \<Rightarrow> NamespacedName \<Rightarrow> history \<Rightarrow> event list \<Rightarrow> versions \<Rightarrow> bool" where
  "lag_midway E req h dn vs \<longleftrightarrow> settled E vs \<and>
     (\<forall>f. machine_admitted E req h f \<and> dn \<noteq> [] \<longrightarrow> hd vs = Some (f_mvm f)) \<and>
     (\<forall>f d m ts. machine_admitted E req h f \<and> alive E (f_mvm f) \<and> dn = d @ [PatchMachine m ts] \<and> guarded m \<and>
        fst (e_PatchMachine E (h @ d) m ts) = None \<longrightarrow> on guarded (last vs))"

lemma lag_midwayD:
  assumes "lag_midway E req h dn vs"
  shows "settled E vs" "machine_admitted E req h f \<Longrightarrow> dn \<noteq> [] \<Longrightarrow> hd vs = Some (f_mvm f)"
    "machine_admitted E req h f \<Longrightarrow> alive E (f_mvm f) \<Longrightarrow> dn = d @ [PatchMachine m ts] \<Longrightarrow> guarded m \<Longrightarrow>
      fst (e_PatchMachine E (h @ d) m ts) = None \<Longrightarrow> on guarded (last vs)"
  using assms unfolding lag_midway_def by blast+

lemma lag_midway_start: "lag_midway E req h [] vs \<longleftrightarrow> settled E vs"
  by (simp add: lag_midway_def)

lemma lag_step_effect:
  assumes "lag_step E vs vs'" "vs \<noteq> []"
  shows "hd vs' = hd vs \<and> (on guarded (last vs) \<longrightarrow> on guarded (last vs'))"
  using assms by (induction rule: lag_step.induct) auto

lemma lag_midway_env:
  assumes "lag_step E vs vs'" "lag_midway E req h dn vs"
  shows "lag_midway E req h dn vs'"
proof -
  have "settled E vs" using assms(2) by (rule lag_midwayD)
  then have "vs \<noteq> []" by (simp add: settled_def)
  note lag_step_effect [OF assms(1) this] settled_lag_step [OF assms(1) \<open>settled E vs\<close>]
  then show ?thesis using assms(2) unfolding lag_midway_def by (simp (no_asm_simp)) blast
qed

lemma lag_midway_event_intro:
  assumes "settled E vs'" "\<And>f. machine_admitted E req h f \<Longrightarrow> hd vs' = Some (f_mvm f)" "\<And>m ts. ev \<noteq> PatchMachine m ts"
  shows "lag_midway E req h (dn @ [ev]) vs'"
  using assms unfolding lag_midway_def by blast

lemma live_base_held:
  assumes "settled E vs" "hd vs = Some b" "live_guarded E b"
  shows "on guarded (last vs)"
proof -
  have "chain [on (live_guarded E)] vs" using assms by (cases vs) (auto simp: settled_def)
  then show ?thesis using assms(1) unfolding settled_def by blast
qed

text \<open>The patches of a run.\<close>

lemma settled_patch:
  assumes laws: "finalizer_laws E" "finalizer_idle E" and "settled E vs"
    and f: "machine_finalizers m \<in> run_finalizers E (f_mvm f)"
    and hd: "hd vs = Some (f_mvm f)" and o1: "last vs = Some o1" "alive E o2 = alive E o1"
    and o2: "machine_finalizers o2 =
      (if machine_finalizers m = machine_finalizers (f_mvm f) then machine_finalizers o1 else machine_finalizers m)"
  shows "settled E (vs @ [Some o2])"
proof (cases "machine_finalizers m = machine_finalizers (f_mvm f)")
  case True
  then show ?thesis by (intro settled_copy [OF assms(3) o1(1)]) (simp_all add: o2 o1(2))
next
  case sent: False
  show ?thesis
  proof (cases "alive E (f_mvm f)")
    case True
    then have "guarded o2" using sent f o2 by (simp add: run_finalizers_def finalizer_lawsD [OF laws(1)])
    then show ?thesis by (intro settled_guard [OF assms(3) hd True o1(1)]) (simp_all add: o1(2))
  next
    case False
    then have m: "machine_finalizers m = e_RemoveFinalizer E (machine_finalizers (f_mvm f)) MachineFinalizer"
      using sent f by (simp add: run_finalizers_def)
    then have "guarded (f_mvm f)" "\<not> guarded m"
      using sent finalizer_idleD [OF laws(2)] by (force, simp add: finalizer_lawsD [OF laws(1)])
    then show ?thesis using False sent o2 by (intro settled_release [OF assms(3) hd]) simp_all
  qed
qed

lemma lag_midway_patch:
  assumes laws: "finalizer_laws E" "finalizer_idle E" "patch_frame E" "service_frame E"
    and run: "snd (MachineReconciler_Reconcile E req h) = h @ dn @ PatchMachine m ts # todo"
    and step: "lag_event E (h @ dn) (PatchMachine m ts) vs vs'" and mid: "lag_midway E req h dn vs"
  shows "lag_midway E req h (dn @ [PatchMachine m ts]) vs'"
proof -
  note settled = lag_midwayD(1) [OF mid]
  obtain f where f: "machine_admitted E req h f" "helper_base (h @ dn) = Some (f_mvm f)"
    "machine_finalizers m \<in> run_finalizers E (f_mvm f)" by (rule machine_patch_base [OF laws(3,4) run])
  have same: "f_mvm f' = f_mvm f" if "machine_admitted E req h f'" for f' using that f(1) by (simp add: machine_admitted_def)
  have "dn \<noteq> []" using machine_read_first(1) [OF laws(3,4) f(1) run] by simp
  note hd = lag_midwayD(2) [OF mid f(1) this]
  have "settled E vs' \<and> hd vs' = hd vs \<and>
      (alive E (f_mvm f) \<and> guarded m \<and> fst (e_PatchMachine E (h @ dn) m ts) = None \<longrightarrow> on guarded (last vs'))"
    using step
  proof cases
    case (le_patched b o1 o2)
    have b: "b = f_mvm f" using le_patched(2) f(2) by simp
    have "settled E vs'" unfolding le_patched(1)
      by (rule settled_patch [OF laws(1,2) settled f(3) hd le_patched(3,5) le_patched(4) [unfolded b]])
    then show ?thesis using live_base_held [OF settled hd] settled le_patched b by (auto simp: settled_def)
  next
    case le_unpatched
    then show ?thesis using live_base_held [OF settled hd] settled f(2) by auto
  qed auto
  then show ?thesis using hd same unfolding lag_midway_def by auto
qed

lemma lag_midway_event:
  assumes laws: "finalizer_laws E" "finalizer_idle E" "patch_frame E" "service_frame E"
    and run: "snd (MachineReconciler_Reconcile E req h) = h @ dn @ ev # todo"
    and step: "lag_event E (h @ dn) ev vs vs'" and mid: "lag_midway E req h dn vs"
  shows "lag_midway E req h (dn @ [ev]) vs'"
proof (cases "\<exists>m ts. ev = PatchMachine m ts")
  case True
  then show ?thesis using lag_midway_patch [OF laws _ _ mid] run step by blast
next
  case False
  note settled = lag_midwayD(1) [OF mid] and first = machine_read_first [OF laws(3,4) _ run]
  have hd: "hd vs = Some (f_mvm f)" if "machine_admitted E req h f" "ev \<noteq> GetMicrovmMachine req" for f
    using first(1) [OF that(1)] lag_midwayD(2) [OF mid that(1)] that(2) by blast
  show ?thesis
    using step
  proof cases
    case (le_read k m older newer)
    have "m = f_mvm f" if "machine_admitted E req h f" for f
      using first [OF that] le_read that by (auto simp: machine_admitted_def)
    then show ?thesis
      using settled_read [OF settled le_read(4)] by (intro lag_midway_event_intro) (auto simp: le_read)
  next
    case (le_unread k err)
    have False if "machine_admitted E req h f" for f
      using first [OF that] le_unread that by (auto simp: machine_admitted_def)
    then show ?thesis using settled by (intro lag_midway_event_intro) (auto simp: le_unread)
  next
    case le_other
    then show ?thesis using settled hd by (intro lag_midway_event_intro) auto
  qed (use False in auto)
qed

lemma lag_midway_run:
  assumes laws: "finalizer_laws E" "finalizer_idle E" "patch_frame E" "service_frame E" and "lag_run E h' es vs vs'"
  shows "h' = h @ dn \<Longrightarrow> snd (MachineReconciler_Reconcile E req h) = h @ dn @ es @ todo \<Longrightarrow>
    lag_midway E req h dn vs \<Longrightarrow> lag_midway E req h (dn @ es) vs'"
  using assms(5)
proof (induction arbitrary: dn rule: lag_run.induct)
  case (lr_event h' ev vs vs' es vs'')
  have "lag_midway E req h (dn @ [ev]) vs'"
    using lag_midway_event [OF laws, of req h dn ev "es @ todo" vs vs'] lr_event by simp
  then show ?case using lr_event.IH [of "dn @ [ev]"] lr_event.prems by simp
next
  case (lr_env vs vs' h' es vs'')
  then show ?case using lag_midway_env [of E vs vs'] by blast
qed simp

lemma lag_reachable_settled:
  assumes laws: "finalizer_laws E" "finalizer_idle E" "patch_frame E" "service_frame E" and "lag_reachable E req h vs"
  shows "settled E vs"
  using assms(5)
proof (induction rule: lag_reachable.induct)
  case (lg_init x)
  show ?case by (cases x) (auto simp: settled_def)
next
  case (lg_run h vs es unrun vs')
  then have "lag_midway E req h es vs'"
    using lag_midway_run [OF laws, of h es vs vs' h "[]" req unrun] by (simp add: lag_midway_start)
  then show ?case by (simp add: lag_midway_def)
qed

text \<open>A run that takes the finalizer away has read the machine as a deleted one that has it.\<close>

lemma release_spares_live:
  assumes "finalizer_laws E" "settled E vs" "hd vs = Some b" "machine_finalizers m \<in> run_finalizers E b" "guarded b" "\<not> guarded m"
  shows "\<not> on (live_guarded E) (last vs)"
proof (rule settled_ended [OF assms(2)])
  have "\<not> alive E b" using assms(4-6) by (auto simp: run_finalizers_def finalizer_lawsD [OF assms(1)])
  then show "chain [on (deleted_guarded E)] vs" using assms(2,3,5) by (cases vs) (auto simp: settled_def)
qed

section \<open>Properties\<close>

text \<open>
  C11: the finalizer with stale reads. Let reads come from a cache that lags behind the API server but never
  goes back, and let each patch carry no more than the difference to the version that was read. In
  every reachable world, however often the controller ran, on however old a version, wherever it was
  stopped, whatever failed, and however the object was edited, deleted and created anew in between: when the
  controller creates a microvm, the object that the API server stores at that moment carries the
  finalizer; and when it sends a patch that takes the finalizer away, the stored object is not a live
  one that carries it (as it could be if the machine had been deleted and created anew).
\<close>

theorem finalizer_with_stale_reads:
  assumes "finalizer_laws E" "finalizer_idle E" "patch_frame E" "service_frame E" "lag_reachable E req h vs"
    and "snd (MachineReconciler_Reconcile E req h) = h @ dn @ ev # rest" "lag_run E h dn vs vs'"
  shows "(\<forall>svc. ev = ServiceCreate svc \<longrightarrow>
      (\<exists>obj. last vs' = Some obj \<and> MachineFinalizer \<in> set (machine_finalizers obj))) \<and>
    (\<forall>m ts b. ev = PatchMachine m ts \<and> helper_base (h @ dn) = Some b \<and>
        MachineFinalizer \<in> set (machine_finalizers b) \<and> MachineFinalizer \<notin> set (machine_finalizers m) \<longrightarrow>
      \<not> (\<exists>obj. last vs' = Some obj \<and> e_TimeIsZero E (om_DeletionTimestamp (mm_ObjectMeta obj)) \<and>
           MachineFinalizer \<in> set (machine_finalizers obj)))"
proof (intro conjI allI impI)
  have mid: "lag_midway E req h dn vs'"
    using lag_midway_run [OF assms(1-4,7), of h "[]" req "ev # rest"] assms(6) lag_reachable_settled [OF assms(1-5)]
    by (simp add: lag_midway_start)
  show "\<exists>obj. last vs' = Some obj \<and> guarded obj" if "ev = ServiceCreate svc" for svc
  proof -
    have "snd (MachineReconciler_Reconcile E req h) = h @ dn @ ServiceCreate svc # rest" using that assms(6) by simp
    then obtain f d m where "machine_admitted E req h f" "alive E (f_mvm f)" "dn = d @ [PatchMachine m machine_owned]"
      "guarded m" "fst (e_PatchMachine E (h @ d) m machine_owned) = None"
      by (rule machine_create_context [OF assms(1)])
    from lag_midwayD(3) [OF mid this] show ?thesis by (auto elim: on.elims)
  qed
  show "\<not> (\<exists>obj. last vs' = Some obj \<and> alive E obj \<and> guarded obj)"
    if "ev = PatchMachine m ts \<and> helper_base (h @ dn) = Some b \<and> guarded b \<and> \<not> guarded m" for m ts b
  proof -
    have "snd (MachineReconciler_Reconcile E req h) = h @ dn @ PatchMachine m ts # rest" using that assms(6) by simp
    then obtain f where f: "machine_admitted E req h f" "helper_base (h @ dn) = Some (f_mvm f)"
      "machine_finalizers m \<in> run_finalizers E (f_mvm f)"
      by (rule machine_patch_base [OF assms(3,4)])
    have b: "guarded (f_mvm f)" "\<not> guarded m" using that f(2) by simp_all
    have "dn \<noteq> []" using machine_read_first(1) [OF assms(3,4) f(1) assms(6)] that by simp
    from release_spares_live [OF assms(1) lag_midwayD(1) [OF mid] lag_midwayD(2) [OF mid f(1) this] f(3) b]
    show ?thesis by auto
  qed
qed

lemma lag_run_other:
  assumes "reads_only ev \<or> connects ev" "\<And>k. ev \<noteq> GetMicrovmMachine k" "lag_run E (h @ [ev]) es vs vs'"
  shows "lag_run E h (ev # es) vs vs'"
  using assms by (intro lr_event [OF le_other]) auto

text \<open>A run that reads the machine as it was before an edit, adds the finalizer and creates the microvm.\<close>

theorem finalizer_with_stale_reads_witness:
  "\<exists>dn svc rest vs. snd (MachineReconciler_Reconcile fx_env (fx_key ''machine1'') []) = [] @ dn @ ServiceCreate svc # rest \<and>
     lag_run fx_env [] dn [Some fx_mvm_machine] vs \<and> 2 < length vs \<and>
     (\<exists>obj. last vs = Some obj \<and> MachineFinalizer \<in> set (machine_finalizers obj))"
proof -
  let ?k = "fx_key ''machine1''" and ?m = "fx_mvm_machine" and ?o1 = "set_vm_labels (Some Map.empty) fx_mvm_machine"
  let ?s = "[Some ?m]" and ?s1 = "[Some ?m, Some ?o1]"
  have "\<exists>x y z a opts p ts sv rest. snd (MachineReconciler_Reconcile fx_env ?k []) =
      [GetMicrovmMachine ?k, GetOwnerMachine x, GetClusterFromMetadata y, GetMicrovmCluster z, NewMachineHelper ?m,
       NewFlintlockClient a opts, PatchMachine p ts] @ ServiceCreate sv # rest \<and> guarded p \<and> alive fx_env p"
    by (simp add: machine_defs fx_defs)
  then obtain x y z a opts p ts sv rest where run: "snd (MachineReconciler_Reconcile fx_env ?k []) =
      [] @ [GetMicrovmMachine ?k, GetOwnerMachine x, GetClusterFromMetadata y, GetMicrovmCluster z, NewMachineHelper ?m,
       NewFlintlockClient a opts, PatchMachine p ts] @ ServiceCreate sv # rest" (is "_ = [] @ ?es @ _")
    and p: "guarded p" "alive fx_env p" by auto
  have m: "\<not> guarded ?m" "alive fx_env ?m" "mm_ObjectMeta ?o1 = mm_ObjectMeta ?m" by (simp_all add: fx_defs set_vm_labels_def)
  have edit: "lag_step fx_env ?s ?s1" using ls_edit [of ?s ?m ?o1 fx_env] m by simp
  have read: "lag_event fx_env [] (GetMicrovmMachine ?k) ?s1 ?s1"
    using le_read [of fx_env "[]" ?k ?m ?s1 "[]" "[Some ?o1]"] by (simp add: fx_env_def)
  have patch: "lag_event fx_env h (PatchMachine p ts) ?s1 (?s1 @ [Some p])" if "helper_base h = Some ?m" for h
    by (rule le_patched [OF that, of ?s1 ?o1]) (use m p in auto)
  have r: "lag_run fx_env [] ?es ?s (?s1 @ [Some p])"
    by (intro lr_env [OF edit] lr_event [OF read] lag_run_other lr_event [OF patch] lr_done)
       (simp_all add: helper_base_def)
  have idle: "finalizer_idle fx_env" by (auto simp: finalizer_idle_def fx_env_def filter_id_conv)
  have "\<exists>obj. last (?s1 @ [Some p]) = Some obj \<and> guarded obj"
    using finalizer_with_stale_reads [OF fx_finalizer_laws(1) idle fx_patch_frame(1) fx_service_frame(1) lg_init run r] by blast
  then show ?thesis using run r by (intro exI [of _ ?es] exI [of _ sv] exI [of _ rest] exI [of _ "?s1 @ [Some p]"]) simp
qed

section \<open>What stale reads do not rule out\<close>

text \<open>
  The finalizer holds the object, but nothing holds a second creation back: a run decides on the provider
  id of the version it read. In the history below the first run goes to its end and the provider id of its
  microvm is stored; the second reads the machine as it was before and creates a microvm once more.

  The events of a run after its helper is made, where every patch adds the finalizer to a live machine,
  and the versions after them.
\<close>

fun sends :: "env \<Rightarrow> event \<Rightarrow> bool" where
  "sends E (PatchMachine m _) = live_guarded E m"
| "sends E (ServiceCreate _) = True"
| "sends E (ServiceClose _) = True"
| "sends E (NewFlintlockClient _ _) = True"
| "sends E _ = False"

fun sent :: "event \<Rightarrow> versions \<Rightarrow> versions" where
  "sent (PatchMachine m _) vs = vs @ [Some m]"
| "sent _ vs = vs"

lemma lag_run_sends:
  assumes "helper_base h = Some b" "\<not> guarded b" "list_all (sends E) es" "on (alive E) (last vs)"
  shows "lag_run E h es vs (fold sent es vs)"
  using assms
proof (induction es arbitrary: h vs)
  case Nil
  show ?case by (simp add: lr_done)
next
  case (Cons ev es)
  obtain o1 where o1: "last vs = Some o1" "alive E o1" using Cons.prems(4) by (auto elim: on.elims)
  have step: "lag_event E h ev vs (sent ev vs)"
  proof (cases ev)
    case (PatchMachine m ts)
    then show ?thesis using Cons.prems o1 by (auto intro!: le_patched)
  qed (use Cons.prems(3) in \<open>auto intro!: le_other\<close>)
  have "helper_object ev = None" using Cons.prems(3) by (cases ev) simp_all
  then have "helper_base (h @ [ev]) = Some b" using Cons.prems(1) by (simp add: helper_base_def)
  moreover have "on (alive E) (last (sent ev vs))" using Cons.prems(3,4) by (cases ev) simp_all
  ultimately have "lag_run E (h @ [ev]) es (sent ev vs) (fold sent es (sent ev vs))" using Cons by simp
  then show ?case using lr_event [OF step] by simp
qed

lemma fx_run:
  "\<exists>es p ts. snd (MachineReconciler_Reconcile fx_env (fx_key ''machine1'') h) =
       h @ machine_preamble (fx_key ''machine1'') (fx_found fx_mvm_machine) @ es @ [PatchMachine p ts] \<and>
     list_all (sends fx_env) (es @ [PatchMachine p ts]) \<and> list_ex calls_create es \<and>
     machine_provider_id p = Some ''microvm://127.0.0.1:9090/ABCDEF''"
  by (simp add: machine_defs fx_defs fx_found_def scope_simps machine_parts ProviderPrefix_def service_at_def)

lemma sent_versions: "\<exists>w. fold sent es vs = vs @ w"
proof (induction es arbitrary: vs)
  case (Cons ev es)
  obtain w where "fold sent es (sent ev vs) = sent ev vs @ w" using Cons.IH by blast
  then show ?case by (cases ev) auto
qed simp

text \<open>A run of the controller that reads the machine of the fixture, whatever is stored by then.\<close>

lemma fx_stale_run:
  assumes "snd (MachineReconciler_Reconcile fx_env (fx_key ''machine1'') h) =
      h @ machine_preamble (fx_key ''machine1'') (fx_found fx_mvm_machine) @ es" "list_all (sends fx_env) es"
    and "vs = Some fx_mvm_machine # w" "on (alive fx_env) (last vs)"
  shows "lag_run fx_env h (machine_preamble (fx_key ''machine1'') (fx_found fx_mvm_machine) @ es) vs (fold sent es vs)"
proof -
  let ?k = "fx_key ''machine1''" and ?f = "fx_found fx_mvm_machine"
  have "e_GetMicrovmMachine fx_env h ?k = Inr fx_mvm_machine" by (simp add: fx_env_def)
  from le_read [OF this, of vs "[]" w] have read: "lag_event fx_env h (GetMicrovmMachine ?k) vs vs" using assms(3) by simp
  have base: "helper_base (h @ machine_preamble ?k ?f) = Some fx_mvm_machine"
    using helper_base_run [of "{}" "[]" h ?k ?f] by (simp add: fx_found_def)
  have "\<not> guarded fx_mvm_machine" by (simp add: fx_defs)
  from lag_run_sends [OF base this assms(2,4)] show ?thesis
    unfolding append.simps by (intro lr_event [OF read] lag_run_other) (simp_all add: fx_found_def)
qed

lemma stale_read_creates_again:
  "\<exists>h vs es vs'. lag_reachable fx_env (fx_key ''machine1'') h vs \<and> list_ex calls_create h \<and>
     on (\<lambda>m. machine_provider_id m = Some ''microvm://127.0.0.1:9090/ABCDEF'') (last vs) \<and>
     snd (MachineReconciler_Reconcile fx_env (fx_key ''machine1'') h) = h @ es \<and>
     lag_run fx_env h es vs vs' \<and> list_ex calls_create es"
proof -
  let ?k = "fx_key ''machine1''" and ?s = "[Some fx_mvm_machine]"
  let ?pre = "machine_preamble ?k (fx_found fx_mvm_machine)"
  obtain es p ts where run: "snd (MachineReconciler_Reconcile fx_env ?k []) = [] @ ?pre @ es @ [PatchMachine p ts]"
    and es: "list_all (sends fx_env) (es @ [PatchMachine p ts])" "list_ex calls_create es"
    and p: "machine_provider_id p = Some ''microvm://127.0.0.1:9090/ABCDEF''" using fx_run [of "[]"] by blast
  let ?t = "es @ [PatchMachine p ts]" let ?h = "[] @ ?pre @ ?t" and ?s1 = "fold sent ?t ?s"
  have live: "on (alive fx_env) (last ?s)" by (simp add: fx_defs)
  have "lag_run fx_env [] (?pre @ ?t) ?s ?s1" by (rule fx_stale_run [OF run es(1) _ live]) simp
  then have r1: "lag_reachable fx_env ?k ?h ?s1" by (intro lg_run [OF lg_init, of _ _ "?pre @ ?t" "[]"]) (use run in simp_all)
  obtain w where w: "?s1 = Some fx_mvm_machine # w" using sent_versions [of ?t ?s] by auto
  have last: "last ?s1 = Some p" by simp
  obtain es2 p2 ts2 where again: "snd (MachineReconciler_Reconcile fx_env ?k ?h) = ?h @ ?pre @ es2 @ [PatchMachine p2 ts2]"
    and es2: "list_all (sends fx_env) (es2 @ [PatchMachine p2 ts2])" "list_ex calls_create es2" using fx_run [of ?h] by blast
  have "on (alive fx_env) (last ?s1)" using es(1) last by simp
  note fx_stale_run [OF again es2(1) w this]
  moreover have "list_ex calls_create (?pre @ es2 @ [PatchMachine p2 ts2])" "list_ex calls_create ?h" using es2(2) es(2) by simp_all
  moreover have "on (\<lambda>m. machine_provider_id m = Some ''microvm://127.0.0.1:9090/ABCDEF'') (last ?s1)"
    unfolding last by (simp add: p)
  ultimately show ?thesis using r1 again by blast
qed

end
