(* ===== verification/Fleet.thy ===== *)
theory Fleet
  imports Machine_Effects
begin

text \<open>
  Both controllers at work. Any number of reconciliations of machines and of clusters run at the same
  time, each with its own environment; their events interleave in any order, every run may stop at any
  event, and between the events users and Cluster API store new versions of the objects. A read may
  return any version that was ever stored. The theory follows the addresses of the flintlock hosts: from
  the static pool of a MicrovmCluster through its failure domains, the Cluster, the Machine and the
  provider id to the client that the machine controller makes. A client is never made for an address
  that no pool has listed, so the credentials of the cluster go to no other host.
\<close>

section \<open>Where an address may stand\<close>

definition pool_endpoints :: "MicrovmCluster \<Rightarrow> string set" where
  "pool_endpoints c = (case pl_StaticPool (cs_Placement (mc_Spec c)) of
     None \<Rightarrow> {} | Some pool \<Rightarrow> host_Endpoint ` set (elems (sp_Hosts pool)))"

definition published :: "MicrovmCluster \<Rightarrow> string set" where
  "published c = fst ` set (elems (cst_FailureDomains (mc_Status c)))"

definition offered :: "Cluster \<Rightarrow> string set" where
  "offered cl = fst ` set (elems (cl_Status_FailureDomains cl))"

definition assigned :: "Machine \<Rightarrow> string set" where
  "assigned ow = (case m_Spec_FailureDomain ow of None \<Rightarrow> {} | Some fd \<Rightarrow> {fd} - {''''})"

definition placed_at :: "MicrovmMachine \<Rightarrow> string set" where
  "placed_at m = (case machine_provider_id m of None \<Rightarrow> {} | Some pid \<Rightarrow>
     if pid = '''' then {} else {getFailureDomainFromProviderID pid})"

text \<open>The addresses an event carries, to flintlock or into the store.\<close>

fun mentions :: "event \<Rightarrow> string set" where
  "mentions (PatchMachine m ts) = placed_at m"
| "mentions (PatchCluster c ts) = published c \<union> pool_endpoints c"
| "mentions (NewFlintlockClient a opts) = {a}"
| "mentions (ServiceGet s) = {svc_addr s}"
| "mentions (ServiceCreate s) = {svc_addr s}"
| "mentions (ServiceDelete s) = {svc_addr s}"
| "mentions (ServiceClose s) = {svc_addr s}"
| "mentions _ = {}"

text \<open>The addresses the answer to a read carries.\<close>

fun answer_mentions :: "env \<Rightarrow> history \<Rightarrow> event \<Rightarrow> string set" where
  "answer_mentions E h (GetMicrovmMachine k) = (case e_GetMicrovmMachine E h k of Inr m \<Rightarrow> placed_at m | _ \<Rightarrow> {})"
| "answer_mentions E h (GetMicrovmCluster k) =
     (case e_GetMicrovmCluster E h k of Inr c \<Rightarrow> published c \<union> pool_endpoints c | _ \<Rightarrow> {})"
| "answer_mentions E h (GetOwnerMachine om) = (case e_GetOwnerMachine E h om of Inr (Some ow) \<Rightarrow> assigned ow | _ \<Rightarrow> {})"
| "answer_mentions E h (GetClusterFromMetadata om) =
     (case e_GetClusterFromMetadata E h om of Inr cl \<Rightarrow> offered cl | _ \<Rightarrow> {})"
| "answer_mentions E h _ = {}"

text \<open>All that the answers to a sequence of events carry.\<close>

definition learnt :: "env \<Rightarrow> event list \<Rightarrow> string set" where
  "learnt E es = (\<Union>i < length es. answer_mentions E (take i es) (es ! i))"

lemma learnt_snoc: "learnt E (es @ [ev]) = learnt E es \<union> answer_mentions E es ev"
  by (simp add: learnt_def lessThan_Suc nth_append Un_commute)

lemma learnt_append: "learnt E es \<subseteq> learnt E (es @ es')"
  by (induction es' rule: rev_induct) (auto simp: learnt_snoc simp flip: append_assoc)

section \<open>What is supposed of the environments\<close>

text \<open>
  The provider id is read back as the text up to the first slash. So it matters that the uids flintlock
  makes do not begin with a slash and that an address has none.
\<close>

definition plain_uids :: "env \<Rightarrow> bool" where
  "plain_uids E \<longleftrightarrow> (\<forall>h svc vm uid.
     fst (fst (e_ServiceGet E h svc)) = Some vm \<or> fst (fst (e_ServiceCreate E h svc)) = Some vm \<longrightarrow>
     mv_Spec vm = Some (Some uid) \<longrightarrow> uid = '''' \<or> hd uid \<noteq> CHR ''/'')"

definition lawful :: "env \<Rightarrow> bool" where
  "lawful E \<longleftrightarrow> finalizer_laws E \<and> patch_frame E \<and> service_frame E \<and> plain_uids E"

definition slash_free :: "string set \<Rightarrow> bool" where
  "slash_free A \<longleftrightarrow> (\<forall>a \<in> A. CHR ''/'' \<notin> set a)"

section \<open>The system\<close>

text \<open>All versions of the objects that were ever stored.\<close>

record fleet =
  fl_pools :: "MicrovmCluster set"
  fl_clusters :: "Cluster set"
  fl_owners :: "Machine set"
  fl_machines :: "MicrovmMachine set"

text \<open>The addresses that a version of a pool lists.\<close>

definition listed :: "fleet \<Rightarrow> string set" where
  "listed w = \<Union> (pool_endpoints ` fl_pools w)"

text \<open>
  What others store. A user lists any addresses in a pool; Cluster API gives a Cluster failure domains
  that a MicrovmCluster has published, and a Machine one that its Cluster offers; nobody else makes up
  the failure domains of a MicrovmCluster or the provider id of a MicrovmMachine.
\<close>

inductive world_step :: "fleet \<Rightarrow> fleet \<Rightarrow> bool" where
  ws_pool: "slash_free (pool_endpoints c) \<Longrightarrow> published c \<subseteq> \<Union> (published ` fl_pools w) \<Longrightarrow>
    world_step w (w\<lparr>fl_pools := insert c (fl_pools w)\<rparr>)"
| ws_cluster: "offered cl \<subseteq> \<Union> (published ` fl_pools w) \<Longrightarrow> world_step w (w\<lparr>fl_clusters := insert cl (fl_clusters w)\<rparr>)"
| ws_owner: "assigned ow \<subseteq> \<Union> (offered ` fl_clusters w) \<Longrightarrow> world_step w (w\<lparr>fl_owners := insert ow (fl_owners w)\<rparr>)"
| ws_machine: "placed_at m \<subseteq> \<Union> (placed_at ` fl_machines w) \<Longrightarrow> world_step w (w\<lparr>fl_machines := insert m (fl_machines w)\<rparr>)"

text \<open>
  The world at an event of a run: a read returns a version that was stored, a patch stores the object
  or fails. (That the server merges a patch with what it has is a further step of the world.)
\<close>

inductive world_event :: "env \<Rightarrow> history \<Rightarrow> event \<Rightarrow> fleet \<Rightarrow> fleet \<Rightarrow> bool" for E h where
  we_machine: "(\<And>m. e_GetMicrovmMachine E h k = Inr m \<Longrightarrow> m \<in> fl_machines w) \<Longrightarrow> world_event E h (GetMicrovmMachine k) w w"
| we_pool: "(\<And>c. e_GetMicrovmCluster E h k = Inr c \<Longrightarrow> c \<in> fl_pools w) \<Longrightarrow> world_event E h (GetMicrovmCluster k) w w"
| we_owner: "(\<And>ow. e_GetOwnerMachine E h om = Inr (Some ow) \<Longrightarrow> ow \<in> fl_owners w) \<Longrightarrow> world_event E h (GetOwnerMachine om) w w"
| we_cluster: "(\<And>cl. e_GetClusterFromMetadata E h om = Inr cl \<Longrightarrow> cl \<in> fl_clusters w) \<Longrightarrow>
    world_event E h (GetClusterFromMetadata om) w w"
| we_patch_machine: "world_event E h (PatchMachine m ts) w (w\<lparr>fl_machines := insert m (fl_machines w)\<rparr>)"
| we_patch_cluster: "world_event E h (PatchCluster c ts) w (w\<lparr>fl_pools := insert c (fl_pools w)\<rparr>)"
| we_other: "(\<And>k. ev \<noteq> GetMicrovmMachine k) \<Longrightarrow> (\<And>k. ev \<noteq> GetMicrovmCluster k) \<Longrightarrow> (\<And>om. ev \<noteq> GetOwnerMachine om) \<Longrightarrow>
    (\<And>om. ev \<noteq> GetClusterFromMetadata om) \<Longrightarrow> world_event E h ev w w"

text \<open>A run: its environment, the events it has gone through and those it still has to go through.\<close>

record run =
  run_env :: env
  run_past :: history
  run_rest :: "event list"

record provider =
  pr_world :: fleet
  pr_runs :: "run list"
  pr_log :: "event list"

inductive provider_step :: "provider \<Rightarrow> provider \<Rightarrow> bool" where
  ps_world: "world_step (pr_world p) w \<Longrightarrow> provider_step p (p\<lparr>pr_world := w\<rparr>)"
| ps_machine: "lawful E \<Longrightarrow> provider_step p (p\<lparr>pr_runs := pr_runs p @
    [\<lparr>run_env = E, run_past = [], run_rest = snd (MachineReconciler_Reconcile E req [])\<rparr>]\<rparr>)"
| ps_cluster: "lawful E \<Longrightarrow> provider_step p (p\<lparr>pr_runs := pr_runs p @
    [\<lparr>run_env = E, run_past = [], run_rest = snd (ClusterReconciler_Reconcile E req [])\<rparr>]\<rparr>)"
| ps_event: "pr_runs p = rs @ \<lparr>run_env = E, run_past = h, run_rest = ev # es\<rparr> # rs' \<Longrightarrow>
    world_event E h ev (pr_world p) w \<Longrightarrow>
    provider_step p \<lparr>pr_world = w, pr_runs = rs @ \<lparr>run_env = E, run_past = h @ [ev], run_rest = es\<rparr> # rs',
      pr_log = pr_log p @ [ev]\<rparr>"
| ps_stop: "pr_runs p = rs @ r # rs' \<Longrightarrow> provider_step p (p\<lparr>pr_runs := rs @ rs'\<rparr>)"

inductive_cases provider_stepE: "provider_step p p'"

definition start :: provider where
  "start = \<lparr>pr_world = \<lparr>fl_pools = {}, fl_clusters = {}, fl_owners = {}, fl_machines = {}\<rparr>, pr_runs = [], pr_log = []\<rparr>"

section \<open>One run keeps to the addresses it has learnt\<close>

lemma placed_at_cong: "machine_provider_id m = machine_provider_id m' \<Longrightarrow> placed_at m = placed_at m'"
  by (simp add: placed_at_def)

lemma placed_at_scopes:
  assumes "lawful E"
  shows "placed_at (sc_MvmMachine (got_scope E svc m h)) = placed_at (sc_MvmMachine m)"
    "placed_at (sc_MvmMachine (created_scope E svc m h)) = placed_at (sc_MvmMachine m)"
    "placed_at (sc_MvmMachine (deleted_scope E svc m h)) = placed_at (sc_MvmMachine m)"
    "placed_at (sc_MvmMachine (patched_scope E m h)) = placed_at (sc_MvmMachine m)"
    "placed_at (summarised E mvm) = placed_at mvm"
    "placed_at (sc_MvmMachine (guard_scope E m)) = placed_at (sc_MvmMachine m)"
    "placed_at (sc_MvmMachine (release_scope E m)) = placed_at (sc_MvmMachine m)"
    "placed_at (sc_MvmMachine (SetNotReady E reason sev msg m)) = placed_at (sc_MvmMachine m)"
    "placed_at (sc_MvmMachine (snd (parseMicroVMState E st m))) = placed_at (sc_MvmMachine m)"
proof -
  have s: "sc_MvmMachine (svc_scope (service_at svc m)) = sc_MvmMachine m" by (simp add: service_at_def)
  have E: "patch_frame E" "service_frame E" using assms by (simp_all add: lawful_def)
  note D = service_frameD [OF E(2), of "service_at svc m", unfolded s, THEN relabelledD(3), THEN placed_at_cong]
  show "placed_at (sc_MvmMachine (got_scope E svc m h)) = placed_at (sc_MvmMachine m)"
    "placed_at (sc_MvmMachine (created_scope E svc m h)) = placed_at (sc_MvmMachine m)"
    "placed_at (sc_MvmMachine (deleted_scope E svc m h)) = placed_at (sc_MvmMachine m)"
    using D by (simp_all add: got_scope_def created_scope_def deleted_scope_def)
  show "placed_at (sc_MvmMachine (patched_scope E m h)) = placed_at (sc_MvmMachine m)"
    "placed_at (summarised E mvm) = placed_at mvm"
    "placed_at (sc_MvmMachine (guard_scope E m)) = placed_at (sc_MvmMachine m)"
    "placed_at (sc_MvmMachine (release_scope E m)) = placed_at (sc_MvmMachine m)"
    "placed_at (sc_MvmMachine (SetNotReady E reason sev msg m)) = placed_at (sc_MvmMachine m)"
    "placed_at (sc_MvmMachine (snd (parseMicroVMState E st m))) = placed_at (sc_MvmMachine m)"
    by (rule placed_at_cong, simp add: patched_scope_parts [OF E(1)] parseMicroVMState_machine(4) guard_scope_def
        release_scope_def scope_simps machine_parts)+
qed

lemma placed_at_SetProviderID:
  assumes "CHR ''/'' \<notin> set fd" "uid = '''' \<or> hd uid \<noteq> CHR ''/''"
  shows "placed_at (sc_MvmMachine (SetProviderID fd uid m)) = {fd}"
  using getFailureDomain_of_SetProviderID [OF assms]
  by (simp add: placed_at_def scope_simps machine_parts ProviderPrefix_def)

lemma GetFailureDomain_known:
  assumes "GetFailureDomain m = Return (Inr fd)"
  shows "fd \<in> assigned (sc_Machine m) \<union> placed_at (sc_MvmMachine m) \<union> offered (sc_Cluster m)"
proof (cases "unplaced m")
  case True
  with assms GetFailureDomain_unplaced [OF True] chosen_domain_in [of "failure_domain_names m" "machine_name (sc_MvmMachine m)"]
  show ?thesis by (auto simp: offered_def split: if_splits)
next
  case False
  with assms show ?thesis
    by (auto simp: GetFailureDomain_placed unplaced_def assigned_def placed_at_def GetProviderID_def split: option.splits if_splits)
qed

text \<open>What a step of a run leaves and does is within the addresses \<open>A\<close>.\<close>

definition stays_in :: "string set \<Rightarrow> history \<Rightarrow> 'r \<times> MachineScope \<times> history \<Rightarrow> bool" where
  "stays_in A h out \<longleftrightarrow> placed_at (sc_MvmMachine (fst (snd out))) \<subseteq> A \<and>
     (\<exists>es. snd (snd out) = h @ es \<and> \<Union> (mentions ` set es) \<subseteq> A)"

lemma stays_in_grow:
  assumes "stays_in A (h @ es) out" "\<Union> (mentions ` set es) \<subseteq> A"
  shows "stays_in A h out"
proof -
  obtain es' where "snd (snd out) = h @ (es @ es')" "\<Union> (mentions ` set (es @ es')) \<subseteq> A"
    "placed_at (sc_MvmMachine (fst (snd out))) \<subseteq> A"
    using assms unfolding stays_in_def by auto
  then show ?thesis unfolding stays_in_def by blast
qed

lemma record_microvm_stays:
  assumes "lawful E" "slash_free A" "fd \<in> A" "placed_at (sc_MvmMachine m) \<subseteq> A"
    and "\<And>v uid. vm = Some v \<Longrightarrow> mv_Spec v = Some (Some uid) \<Longrightarrow> uid = '''' \<or> hd uid \<noteq> CHR ''/''"
  shows "stays_in A h (record_microvm E fd vm m h)"
proof (cases "Option.bind (Option.bind vm mv_Spec) id")
  case None
  then show ?thesis using assms(4) by (simp add: record_microvm_eq stays_in_def)
next
  case (Some uid)
  then have "uid = '''' \<or> hd uid \<noteq> CHR ''/''" using assms(5) by (auto simp: bind_eq_Some_conv)
  moreover have "CHR ''/'' \<notin> set fd" using assms(2,3) by (simp add: slash_free_def)
  ultimately show ?thesis
    using Some assms(3)
    by (auto simp: record_microvm_eq stays_in_def placed_at_scopes [OF assms(1)] placed_at_SetProviderID split: option.splits)
qed

lemma ensure_microvm_stays:
  assumes "lawful E" "slash_free A" "fd \<in> A" "svc_addr svc \<in> A" "placed_at (sc_MvmMachine m) \<subseteq> A"
    and "\<And>v uid. vm = Some v \<Longrightarrow> mv_Spec v = Some (Some uid) \<Longrightarrow> uid = '''' \<or> hd uid \<noteq> CHR ''/''"
  shows "stays_in A h (ensure_microvm E fd svc vm m h)"
proof -
  let ?m2 = "patched_scope E (guard_scope E m) h" and ?e1 = "patch_event E (guard_scope E m)"
  let ?m3 = "created_scope E svc ?m2 (h @ [?e1])" and ?e2 = "ServiceCreate (service_at svc ?m2)"
  let ?vm = "fst (created E svc ?m2 (h @ [?e1]))"
  have at: "placed_at (sc_MvmMachine ?m2) \<subseteq> A" "placed_at (sc_MvmMachine ?m3) \<subseteq> A"
    using assms(5) by (simp_all add: placed_at_scopes [OF assms(1)])
  have e: "\<Union> (mentions ` set [?e1]) \<subseteq> A" "\<Union> (mentions ` set [?e1, ?e2]) \<subseteq> A"
    using assms(4,5) by (simp_all add: placed_at_scopes [OF assms(1)] service_at_def)
  have uid: "uid = '''' \<or> hd uid \<noteq> CHR ''/''" if "?vm = Some v" "mv_Spec v = Some (Some uid)" for v uid
    using assms(1) that unfolding lawful_def plain_uids_def by blast
  have "stays_in A h (record_microvm E fd (Some v) ?m2 (h @ [?e1]))" if "vm = Some v" for v
    using stays_in_grow [OF record_microvm_stays [OF assms(1-3) at(1)] e(1)] assms(6) that by blast
  moreover have "stays_in A h (record_microvm E fd ?vm ?m3 (h @ [?e1, ?e2]))"
    by (rule stays_in_grow [OF record_microvm_stays [OF assms(1-3) at(2) uid] e(2)])
  ultimately show ?thesis
    using at e by (auto simp: ensure_microvm_eq Let_def stays_in_def split: option.split)
qed

lemma normal_with_service_stays:
  assumes "lawful E" "slash_free A" "fd \<in> A" "svc_addr svc \<in> A" "placed_at (sc_MvmMachine m) \<subseteq> A"
  shows "stays_in A h (normal_with_service E fd svc m h)"
proof -
  let ?e = "ServiceGet (service_at svc m)"
  have uid: "uid = '''' \<or> hd uid \<noteq> CHR ''/''" if "fst (got E svc m h) = Some v" "mv_Spec v = Some (Some uid)" for v uid
    using assms(1) that unfolding lawful_def plain_uids_def by blast
  have at: "placed_at (sc_MvmMachine (got_scope E svc m h)) \<subseteq> A" using assms(5) by (simp add: placed_at_scopes [OF assms(1)])
  have e: "\<Union> (mentions ` set [?e]) \<subseteq> A" using assms(4) by (simp add: service_at_def)
  have "stays_in A h (ensure_microvm E fd svc (fst (got E svc m h)) (got_scope E svc m h) (h @ [?e]))"
    by (rule stays_in_grow [OF ensure_microvm_stays [OF assms(1-4) at uid] e])
  moreover have "stays_in A h (ensure_microvm E fd svc None m h)" by (rule ensure_microvm_stays [OF assms]) simp
  ultimately show ?thesis using at e by (auto simp: normal_with_service_eq stays_in_def)
qed

lemma delete_with_service_stays:
  assumes "lawful E" "svc_addr svc \<in> A" "placed_at (sc_MvmMachine m) \<subseteq> A"
  shows "stays_in A h (delete_with_service E svc m h)"
  using assms(2,3)
  by (auto simp: delete_with_service_eq stays_in_def Let_def placed_at_scopes [OF assms(1)] service_at_def split: option.split)

lemma service_region_stays:
  assumes "fd \<in> A" "placed_at (sc_MvmMachine m) \<subseteq> A" "getMicrovmService E fd m h = (r, h1)"
    and "\<And>svc. svc_addr svc = fd \<Longrightarrow> stays_in A h1 (body svc)"
  shows "stays_in A h (case r of Inl err \<Rightarrow> (failed err, m, h1) | Inr svc \<Rightarrow> with_deferred_close svc (body svc))"
proof -
  obtain ss where ss: "list_all reads_secret ss" and ev: "service_events E fd m h ss" using getMicrovmService_events by blast
  have "mentions e = {}" if "reads_secret e" for e using that by (cases e) simp_all
  then have "\<Union> (mentions ` set ss) \<subseteq> A" using ss by (auto simp: list_all_iff)
  then obtain es where es: "h1 = h @ es" "\<Union> (mentions ` set es) \<subseteq> A"
    using ev assms(1,3) by (auto simp: service_events_def split: sum.splits)
  show ?thesis
  proof (cases r)
    case (Inl err)
    then show ?thesis using es assms(2) by (auto simp: stays_in_def)
  next
    case (Inr svc)
    then have addr: "svc_addr svc = fd" using ev assms(3) by (auto simp: service_events_def)
    have "stays_in A h (body svc)" by (rule stays_in_grow [OF assms(4) [OF addr, unfolded es(1)] es(2)])
    then show ?thesis
      using addr assms(1) Inr by (cases "body svc") (auto simp: stays_in_def with_deferred_close_def service_at_def)
  qed
qed

lemma machine_body_stays:
  assumes "lawful E" "slash_free A" "placed_at (f_mvm f) \<union> assigned (f_machine f) \<union> offered (f_cluster f) \<subseteq> A"
  shows "stays_in A (h @ machine_preamble req f) (machine_body E req h f)"
proof -
  let ?m = "machine_scope_of f" and ?h = "h @ machine_preamble req f"
  have at: "placed_at (sc_MvmMachine ?m) \<subseteq> A" using assms(3) by (simp add: machine_scope_of_parts)
  obtain r where r: "GetFailureDomain ?m = Return r" using GetFailureDomain_total by blast
  have known: "fd \<in> A" if "r = Inr fd" for fd
    using GetFailureDomain_known [of ?m fd] r that assms(3) by (auto simp: machine_scope_of_parts)
  have wait: "placed_at (sc_MvmMachine (update_MvmMachine (MarkFalse_Machine E c reason sev msg) ?m)) \<subseteq> A" for c reason sev msg
  proof -
    have "machine_provider_id (sc_MvmMachine (update_MvmMachine (MarkFalse_Machine E c reason sev msg) ?m)) =
        machine_provider_id (sc_MvmMachine ?m)" by (simp add: scope_simps machine_parts)
    from placed_at_cong [OF this] at show ?thesis by simp
  qed
  show ?thesis
  proof (cases r)
    case (Inl err)
    then show ?thesis
      using r at wait
      by (auto simp: machine_body_def MachineReconciler_reconcileDelete_def MachineReconciler_reconcileNormal_def stays_in_def)
  next
    case (Inr fd)
    obtain s h1 where s: "getMicrovmService E fd ?m ?h = (s, h1)" by fastforce
    have normal: "stays_in A ?h (case s of Inl err \<Rightarrow> (Return (zero_Result, Some err), ?m, h1)
        | Inr svc \<Rightarrow> with_deferred_close svc (normal_with_service E fd svc ?m h1))"
      by (rule service_region_stays [OF known [OF Inr] at s normal_with_service_stays [OF assms(1,2) known [OF Inr] _ at]])
         (simp add: known [OF Inr])
    have delete: "stays_in A ?h (case s of Inl err \<Rightarrow> (Return (zero_Result, None), ?m, h1)
        | Inr svc \<Rightarrow> with_deferred_close svc (delete_with_service E svc ?m h1))"
      by (rule service_region_stays [OF known [OF Inr] at s delete_with_service_stays [OF assms(1) _ at]])
         (simp add: known [OF Inr])
    show ?thesis
      using r Inr s wait normal delete
      by (auto simp: machine_body_def MachineReconciler_reconcileDelete_def MachineReconciler_reconcileNormal_def stays_in_def)
  qed
qed

lemma reads_only_mentions: "reads_only ev \<Longrightarrow> mentions ev = {}"
  by (cases ev) simp_all

text \<open>
  The event after a part \<open>p\<close> of a run: if all the objects read in \<open>p\<close> have addresses in \<open>A\<close> only, so has
  the event. First for a run that starts with reads, then for the two reconcilers.
\<close>

lemma after_reads:
  assumes "pre @ es = p @ ev # q" "list_all reads_only pre"
    and "learnt E p \<subseteq> A" "learnt E pre \<subseteq> A \<Longrightarrow> \<Union> (mentions ` set es) \<subseteq> A"
  shows "mentions ev \<subseteq> A"
proof (cases "length p < length pre")
  case True
  then have "ev \<in> set pre" using assms(1) by (metis nth_append nth_append_length nth_mem)
  then show ?thesis using assms(2) by (simp add: list_all_iff reads_only_mentions)
next
  case False
  then obtain p' where "p = pre @ p'" "es = p' @ ev # q"
    using assms(1) by (auto simp: append_eq_append_conv2 append_eq_Cons_conv)
  then show ?thesis using assms(3,4) learnt_append [of E pre p'] by auto
qed

lemma machine_run_contained:
  assumes "lawful E" "slash_free A" "snd (MachineReconciler_Reconcile E req []) = p @ ev # q" "learnt E p \<subseteq> A"
  shows "mentions ev \<subseteq> A"
proof (cases "\<exists>f. machine_admitted E req [] f")
  case False
  then obtain es where "snd (MachineReconciler_Reconcile E req []) = [] @ es" "list_all reads_only es"
    using machine_Reconcile_skipped(1) by blast
  then have "list_all reads_only (p @ ev # q)" using assms(3) by simp
  then show ?thesis by (simp add: reads_only_mentions)
next
  case True
  then obtain f where f: "machine_admitted E req [] f" by blast
  let ?pre = "machine_preamble req f" and ?out = "machine_body E req [] f"
  have known: "placed_at (f_mvm f) \<union> assigned (f_machine f) \<union> offered (f_cluster f) \<subseteq> learnt E ?pre"
    using f by (auto simp: learnt_def machine_admitted_def lessThan_Suc numeral_eq_Suc)
  have "finalizer_laws E" using assms(1) by (simp add: lawful_def)
  then obtain es where es: "snd (snd ?out) = ?pre @ es" using machine_body_trace [of E req "[]" f] by auto
  show ?thesis
  proof (rule after_reads [OF _ _ assms(4)])
    show "?pre @ es @ [patch_event E (fst (snd ?out))] = p @ ev # q"
      using machine_Reconcile_last(2) [OF f] es assms(3) by simp
    show "\<Union> (mentions ` set (es @ [patch_event E (fst (snd ?out))])) \<subseteq> A" if "learnt E ?pre \<subseteq> A"
      using machine_body_stays [OF assms(1,2), of f "[]" req] known that es
      by (auto simp: stays_in_def placed_at_scopes [OF assms(1)])
  qed simp
qed

lemma available_mentions:
  "\<exists>es. snd (isAPIServerAvailable E cs h) = h @ es \<and> \<Union> (mentions ` set es) = {}"
  by (auto simp: isAPIServerAvailable_def Let_def split: sum.splits)

lemma cluster_body_mentions:
  fixes E cs h
  defines "out \<equiv> ClusterReconciler_reconcileNormal E cs h"
  shows "\<exists>es. snd (snd out) = h @ es \<and> \<Union> (mentions ` set es) = {}"
    "published (csc_MvmCluster (fst (snd out))) \<union> pool_endpoints (csc_MvmCluster (fst (snd out))) \<subseteq>
       published (csc_MvmCluster cs) \<union> pool_endpoints (csc_MvmCluster cs)"
  subgoal
    using available_mentions [of E "snd (setFailureDomains (update_MvmCluster (set_cluster_ready True) cs))" h]
    unfolding out_def by (auto simp: ClusterReconciler_reconcileNormal_def Let_def split: prod.splits option.splits)
  subgoal
    unfolding out_def
    by (auto simp: ClusterReconciler_reconcileNormal_def Let_def setFailureDomains_def IsSet_def published_def pool_endpoints_def
        update_MvmCluster_def ClusterScope_Placement_def set_cluster_ready_def set_failure_domains_def MicrovmCluster_SetConditions_def
        keys_host_domains elems_def split: prod.splits option.splits)
  done

lemma cluster_run_contained:
  assumes "snd (ClusterReconciler_Reconcile E req []) = p @ ev # q" "learnt E p \<subseteq> A"
  shows "mentions ev \<subseteq> A"
proof (cases "\<exists>c cl. cluster_admitted E req [] c cl")
  case False
  then obtain es where "snd (ClusterReconciler_Reconcile E req []) = [] @ es" "list_all reads_only es"
    using cluster_Reconcile_skipped(2) by blast
  then have "list_all reads_only (p @ ev # q)" using assms(1) by simp
  then show ?thesis by (simp add: reads_only_mentions)
next
  case True
  then obtain c cl where adm: "cluster_admitted E req [] c cl" by blast
  let ?pre = "cluster_preamble req c" and ?cs = "cluster_scope_of c cl"
  let ?out = "if \<not> e_TimeIsZero E (om_DeletionTimestamp (mc_ObjectMeta c))
      then ClusterReconciler_reconcileDelete E ?cs ?pre else ClusterReconciler_reconcileNormal E ?cs ?pre"
  let ?pt = "snd (snd (ClusterScope_Patch E (fst (snd ?out)) (snd (snd ?out))))"
  have known: "published c \<union> pool_endpoints c \<subseteq> learnt E ?pre"
    using adm by (auto simp: learnt_def cluster_admitted_def lessThan_Suc numeral_eq_Suc)
  have cs: "csc_MvmCluster ?cs = c" by (simp add: cluster_scope_of_def)
  obtain es where es: "snd (snd ?out) = ?pre @ es" "\<Union> (mentions ` set es) = {}"
    using that cluster_body_mentions(1) [of E ?cs ?pre]
    by (cases "e_TimeIsZero E (om_DeletionTimestamp (mc_ObjectMeta c))") (fastforce simp: ClusterReconciler_reconcileDelete_def)+
  have obj: "published (csc_MvmCluster (fst (snd ?out))) \<union> pool_endpoints (csc_MvmCluster (fst (snd ?out))) \<subseteq>
      published c \<union> pool_endpoints c"
    using cluster_body_mentions(2) [of E ?cs ?pre] cs by (simp add: ClusterReconciler_reconcileDelete_def)
  obtain c' ts where last: "?pt = ?pre @ es @ [PatchCluster c' ts]" "published c' \<union> pool_endpoints c' \<subseteq> published c \<union> pool_endpoints c"
    using obj es(1) unfolding ClusterScope_Patch_event
    by (auto simp: published_def pool_endpoints_def cluster_setters_parts)
  show ?thesis
  proof (rule after_reads [OF _ _ assms(2)])
    show "?pre @ es @ [PatchCluster c' ts] = p @ ev # q"
      using cluster_Reconcile_admitted [OF adm, unfolded append_Nil] last(1) assms(1) by simp
    show "\<Union> (mentions ` set (es @ [PatchCluster c' ts])) \<subseteq> A" if "learnt E ?pre \<subseteq> A"
      using order_trans [OF last(2) order_trans [OF known that]] es(2) by simp
  qed simp
qed

section \<open>The invariant of the system\<close>

definition world_ok :: "fleet \<Rightarrow> bool" where
  "world_ok w \<longleftrightarrow> slash_free (listed w) \<and> (\<forall>c \<in> fl_pools w. published c \<subseteq> listed w) \<and>
     (\<forall>cl \<in> fl_clusters w. offered cl \<subseteq> listed w) \<and> (\<forall>ow \<in> fl_owners w. assigned ow \<subseteq> listed w) \<and>
     (\<forall>m \<in> fl_machines w. placed_at m \<subseteq> listed w)"

definition genuine :: "run \<Rightarrow> bool" where
  "genuine r \<longleftrightarrow> lawful (run_env r) \<and> (\<exists>req.
     snd (MachineReconciler_Reconcile (run_env r) req []) = run_past r @ run_rest r \<or>
     snd (ClusterReconciler_Reconcile (run_env r) req []) = run_past r @ run_rest r)"

definition provider_ok :: "provider \<Rightarrow> bool" where
  "provider_ok p \<longleftrightarrow> world_ok (pr_world p) \<and>
     (\<forall>r \<in> set (pr_runs p). genuine r \<and> learnt (run_env r) (run_past r) \<subseteq> listed (pr_world p)) \<and>
     \<Union> (mentions ` set (pr_log p)) \<subseteq> listed (pr_world p)"

lemma world_okD:
  assumes "world_ok w"
  shows "m \<in> fl_machines w \<Longrightarrow> placed_at m \<subseteq> listed w" "ow \<in> fl_owners w \<Longrightarrow> assigned ow \<subseteq> listed w"
    "cl \<in> fl_clusters w \<Longrightarrow> offered cl \<subseteq> listed w" "c \<in> fl_pools w \<Longrightarrow> published c \<union> pool_endpoints c \<subseteq> listed w"
  using assms by (auto simp: world_ok_def listed_def)

lemma listed_insert: "listed (w\<lparr>fl_pools := insert c (fl_pools w)\<rparr>) = pool_endpoints c \<union> listed w"
  by (simp add: listed_def)

lemma listed_others [simp]:
  "listed (w\<lparr>fl_clusters := cls\<rparr>) = listed w" "listed (w\<lparr>fl_owners := ows\<rparr>) = listed w"
  "listed (w\<lparr>fl_machines := ms\<rparr>) = listed w"
  by (simp_all add: listed_def)

lemma world_step_keeps:
  assumes "world_step w w'" "world_ok w"
  shows "world_ok w'" "listed w \<subseteq> listed w'"
proof -
  have known: "\<Union> (published ` fl_pools w) \<subseteq> listed w" "\<Union> (offered ` fl_clusters w) \<subseteq> listed w"
    "\<Union> (placed_at ` fl_machines w) \<subseteq> listed w"
    using assms(2) by (simp_all add: world_ok_def UN_subset_iff)
  from assms(1) show "listed w \<subseteq> listed w'" by cases (simp_all add: listed_insert)
  from assms(1) show "world_ok w'"
  proof cases
    case (ws_pool c)
    then show ?thesis using assms(2) order_trans [OF ws_pool(3) known(1)]
      by (auto simp: world_ok_def slash_free_def listed_insert)
  qed (use assms(2) known in \<open>auto simp: world_ok_def dest: order_trans\<close>)
qed

lemma world_event_keeps:
  assumes "world_event E h ev w w'" "world_ok w" "mentions ev \<subseteq> listed w"
  shows "world_ok w'" "listed w' = listed w" "answer_mentions E h ev \<subseteq> listed w"
proof -
  show "world_ok w'" "listed w' = listed w"
    using assms by (induction rule: world_event.induct) (auto simp: world_ok_def slash_free_def listed_insert)
  show "answer_mentions E h ev \<subseteq> listed w"
    using assms(1)
  proof (cases rule: world_event.cases)
    case we_other
    then show ?thesis by (cases ev) auto
  qed (use world_okD [OF assms(2)] in \<open>auto split: sum.splits option.splits\<close>)
qed

lemma genuine_next:
  assumes "genuine r" "run_rest r = ev # es" "slash_free A" "learnt (run_env r) (run_past r) \<subseteq> A"
  shows "mentions ev \<subseteq> A"
proof -
  let ?E = "run_env r" and ?h = "run_past r"
  obtain req where law: "lawful ?E" and "snd (MachineReconciler_Reconcile ?E req []) = ?h @ ev # es \<or>
      snd (ClusterReconciler_Reconcile ?E req []) = ?h @ ev # es"
    using assms(1,2) unfolding genuine_def by auto
  then show ?thesis
    using machine_run_contained [OF law assms(3) _ assms(4)] cluster_run_contained [OF _ assms(4)] by blast
qed

lemma provider_step_keeps:
  assumes "provider_step p p'" "provider_ok p"
  shows "provider_ok p'"
  using assms
proof (induction rule: provider_step.induct)
  case (ps_world p w)
  then have w: "world_ok w" "listed (pr_world p) \<subseteq> listed w"
    using world_step_keeps [of "pr_world p" w] by (simp_all add: provider_ok_def)
  show ?case using ps_world.prems w(1) order_trans [OF _ w(2)] by (simp add: provider_ok_def)
next
  case (ps_machine E p req)
  then show ?case by (auto simp: provider_ok_def genuine_def learnt_def)
next
  case (ps_cluster E p req)
  then show ?case by (auto simp: provider_ok_def genuine_def learnt_def)
next
  case (ps_event p rs E h ev es rs' w)
  let ?L = "listed (pr_world p)" and ?r = "\<lparr>run_env = E, run_past = h, run_rest = ev # es\<rparr>"
  have ok: "world_ok (pr_world p)" "slash_free ?L" and r: "genuine ?r" "learnt E h \<subseteq> ?L"
    using ps_event.prems ps_event.hyps(1) by (auto simp: provider_ok_def world_ok_def)
  have ev: "mentions ev \<subseteq> ?L" using genuine_next [OF r(1) _ ok(2)] r(2) by simp
  note w = world_event_keeps [OF ps_event.hyps(2) ok(1) ev]
  have "genuine \<lparr>run_env = E, run_past = h @ [ev], run_rest = es\<rparr>" using r(1) by (simp add: genuine_def)
  moreover have "learnt E (h @ [ev]) \<subseteq> ?L" using r(2) w(3) by (simp add: learnt_snoc)
  ultimately show ?case using ps_event.prems ps_event.hyps(1) w(1,2) ev by (simp add: provider_ok_def)
next
  case (ps_stop p rs r rs')
  then show ?case by (auto simp: provider_ok_def)
qed

lemma provider_reachable_ok:
  assumes "provider_step\<^sup>*\<^sup>* start p"
  shows "provider_ok p"
  using assms
proof (induction rule: rtranclp_induct)
  case base
  show ?case by (simp add: start_def provider_ok_def world_ok_def listed_def slash_free_def)
next
  case (step p p')
  then show ?case by (blast intro: provider_step_keeps)
qed

text \<open>
  That addresses have no slash is needed: an address with one is written into the provider id whole, and
  read back cut off.
\<close>

lemma endpoint_with_slash_misread:
  assumes "CHR ''/'' \<notin> set a" "b \<noteq> ''''" "hd b \<noteq> CHR ''/''"
  shows "placed_at (sc_MvmMachine (SetProviderID (a @ ''/'' @ b) uid m)) = {a}"
  using getFailureDomain_of_SetProviderID [OF assms(1), of "b @ ''/'' @ uid"] assms(2,3)
  by (simp add: placed_at_def scope_simps machine_parts ProviderPrefix_def)

section \<open>Only listed hosts are contacted\<close>

text \<open>
  C16: whatever the interleaving of the two controllers, of users and of Cluster API, and wherever a run
  stops, a flintlock client (which carries the credentials of the cluster) is made, and a microvm
  created or deleted, only at an address that some version of a MicrovmCluster's static pool lists; and
  every provider id that is ever stored names such an address. It is supposed that addresses have no
  slash and flintlock's uids do not begin with one, as the provider id is read back up to its first slash.
\<close>

theorem hosts_only_from_pools:
  assumes "provider_step\<^sup>*\<^sup>* start p"
  shows "(\<forall>a opts. NewFlintlockClient a opts \<in> set (pr_log p) \<longrightarrow> a \<in> listed (pr_world p)) \<and>
    (\<forall>s. ServiceCreate s \<in> set (pr_log p) \<or> ServiceDelete s \<in> set (pr_log p) \<longrightarrow> svc_addr s \<in> listed (pr_world p)) \<and>
    (\<forall>m pid. m \<in> fl_machines (pr_world p) \<longrightarrow> machine_provider_id m = Some pid \<longrightarrow> pid \<noteq> '''' \<longrightarrow>
       getFailureDomainFromProviderID pid \<in> listed (pr_world p))"
proof -
  have ok: "world_ok (pr_world p)" and "\<Union> (mentions ` set (pr_log p)) \<subseteq> listed (pr_world p)"
    using provider_reachable_ok [OF assms] by (simp_all add: provider_ok_def)
  then have "mentions ev \<subseteq> listed (pr_world p)" if "ev \<in> set (pr_log p)" for ev using that by blast
  from this [of "NewFlintlockClient _ _"] this [of "ServiceCreate _"] this [of "ServiceDelete _"] world_okD(1) [OF ok]
  show ?thesis by (fastforce simp: placed_at_def)
qed

text \<open>
  A concrete history: the cluster controller publishes the pool, Cluster API copies its domain to the
  Cluster and to a Machine, and the machine controller makes its client.
\<close>

lemma run_steps:
  assumes "\<And>h ev. ev \<in> set es \<Longrightarrow> world_event E h ev w w"
  shows "provider_step\<^sup>*\<^sup>* \<lparr>pr_world = w, pr_runs = rs @ [\<lparr>run_env = E, run_past = h, run_rest = es @ es'\<rparr>], pr_log = lg\<rparr>
    \<lparr>pr_world = w, pr_runs = rs @ [\<lparr>run_env = E, run_past = h @ es, run_rest = es'\<rparr>], pr_log = lg @ es\<rparr>"
  using assms
proof (induction es arbitrary: h lg)
  case Nil
  show ?case by simp
next
  case (Cons ev es)
  have "provider_step \<lparr>pr_world = w, pr_runs = rs @ [\<lparr>run_env = E, run_past = h, run_rest = (ev # es) @ es'\<rparr>], pr_log = lg\<rparr>
    \<lparr>pr_world = w, pr_runs = rs @ [\<lparr>run_env = E, run_past = h @ [ev], run_rest = es @ es'\<rparr>], pr_log = lg @ [ev]\<rparr>"
    using ps_event [of "\<lparr>pr_world = w, pr_runs = rs @ [\<lparr>run_env = E, run_past = h, run_rest = (ev # es) @ es'\<rparr>], pr_log = lg\<rparr>"
        rs E h ev "es @ es'" "[]" w] Cons.prems by simp
  also have "provider_step\<^sup>*\<^sup>* \<dots> \<lparr>pr_world = w, pr_runs = rs @ [\<lparr>run_env = E, run_past = (h @ [ev]) @ es, run_rest = es'\<rparr>],
      pr_log = (lg @ [ev]) @ es\<rparr>"
    by (rule Cons.IH) (use Cons.prems in simp)
  finally (converse_rtranclp_into_rtranclp) show ?case by simp
qed

definition fx_site :: env where
  "fx_site = fx_env\<lparr>e_GetClusterFromMetadata := \<lambda>h om. Inr (fx_cluster\<lparr>cl_Status_FailureDomains := Some [(''127.0.0.1:9090'', fx_fd)]\<rparr>)\<rparr>"

lemma fx_site_lawful: "lawful fx_site"
  by (auto simp: lawful_def finalizer_laws_def patch_frame_def service_frame_def plain_uids_def fx_site_def fx_defs)

fun no_machine_read :: "event \<Rightarrow> bool" where
  "no_machine_read (GetMicrovmMachine _) = False"
| "no_machine_read (GetOwnerMachine _) = False"
| "no_machine_read (GetClusterFromMetadata _) = False"
| "no_machine_read _ = True"

lemma fx_site_event:
  assumes "fx_mvm_cluster \<in> fl_pools w"
    and "no_machine_read ev \<or> fx_mvm_machine \<in> fl_machines w \<and> fx_machine \<in> fl_owners w \<and>
      fx_cluster\<lparr>cl_Status_FailureDomains := Some [(''127.0.0.1:9090'', fx_fd)]\<rparr> \<in> fl_clusters w"
  shows "world_event fx_site h ev w w"
proof -
  have E: "e_GetMicrovmCluster fx_site h k = Inr fx_mvm_cluster" "e_GetMicrovmMachine fx_site h k = Inr fx_mvm_machine"
    "e_GetOwnerMachine fx_site h om = Inr (Some fx_machine)"
    "e_GetClusterFromMetadata fx_site h om = Inr (fx_cluster\<lparr>cl_Status_FailureDomains := Some [(''127.0.0.1:9090'', fx_fd)]\<rparr>)" for k om
    by (simp_all add: fx_site_def fx_env_def)
  show ?thesis
    using assms by (cases ev) (auto intro!: world_event.intros simp: E)
qed

lemma fx_site_cluster_run:
  fixes t defines "t \<equiv> snd (ClusterReconciler_Reconcile fx_site (fx_key ''tenant1'') [])"
  obtains c' ts where "t = butlast t @ [PatchCluster c' ts]" "published c' = {''127.0.0.1:9090''}" "list_all no_machine_read t"
proof -
  have "t \<noteq> [] \<and> list_all no_machine_read t \<and> (\<exists>c' ts. last t = PatchCluster c' ts \<and> published c' = {''127.0.0.1:9090''})"
    unfolding t_def
    by (simp add: ClusterReconciler_Reconcile_def fx_site_def fx_defs NewClusterScope_def WithClusterLogger_def Let_def
        with_deferred_patch_def ClusterReconciler_reconcileNormal_def setFailureDomains_def IsSet_def update_MvmCluster_def
        ClusterScope_Placement_def isAPIServerAvailable_def ClusterScope_Patch_def ClusterScope_ClusterName_def
        MicrovmCluster_GetConditions_def MicrovmCluster_SetConditions_def host_domains_def set_cluster_ready_def
        set_failure_domains_def published_def)
  then show ?thesis using that by (metis append_butlast_last_id)
qed

lemma fx_site_machine_run:
  "\<exists>opts. NewFlintlockClient ''127.0.0.1:9090'' opts \<in> set (snd (MachineReconciler_Reconcile fx_site (fx_key ''machine1'') []))"
  by (simp add: machine_defs fx_site_def fx_defs)

text \<open>The controllers take the steps of a run whose reads the world answers.\<close>

lemma machine_run_steps:
  assumes "lawful E" "\<And>h ev. world_event E h ev w w"
  shows "\<exists>rs'. provider_step\<^sup>*\<^sup>* \<lparr>pr_world = w, pr_runs = rs, pr_log = lg\<rparr>
    \<lparr>pr_world = w, pr_runs = rs', pr_log = lg @ snd (MachineReconciler_Reconcile E req [])\<rparr>"
proof -
  let ?t = "snd (MachineReconciler_Reconcile E req [])"
  have "provider_step \<lparr>pr_world = w, pr_runs = rs, pr_log = lg\<rparr>
      \<lparr>pr_world = w, pr_runs = rs @ [\<lparr>run_env = E, run_past = [], run_rest = ?t\<rparr>], pr_log = lg\<rparr>"
    using ps_machine [OF assms(1), of "\<lparr>pr_world = w, pr_runs = rs, pr_log = lg\<rparr>" req] by simp
  also have "provider_step\<^sup>*\<^sup>* \<dots> \<lparr>pr_world = w, pr_runs = rs @ [\<lparr>run_env = E, run_past = [] @ ?t, run_rest = []\<rparr>], pr_log = lg @ ?t\<rparr>"
    using run_steps [of ?t E w rs "[]" "[]" lg] assms(2) by simp
  finally (converse_rtranclp_into_rtranclp) show ?thesis by blast
qed

lemma cluster_run_steps:
  assumes "lawful E" "snd (ClusterReconciler_Reconcile E req []) = es @ [PatchCluster c ts]"
    "\<And>h ev. ev \<in> set es \<Longrightarrow> world_event E h ev w w"
  shows "\<exists>rs' lg'. provider_step\<^sup>*\<^sup>* \<lparr>pr_world = w, pr_runs = rs, pr_log = lg\<rparr>
    \<lparr>pr_world = w\<lparr>fl_pools := insert c (fl_pools w)\<rparr>, pr_runs = rs', pr_log = lg'\<rparr>"
proof -
  let ?t = "snd (ClusterReconciler_Reconcile E req [])"
  let ?p = "\<lparr>pr_world = w, pr_runs = rs @ [\<lparr>run_env = E, run_past = [] @ es, run_rest = [PatchCluster c ts]\<rparr>], pr_log = lg @ es\<rparr>"
  have "provider_step \<lparr>pr_world = w, pr_runs = rs, pr_log = lg\<rparr>
      \<lparr>pr_world = w, pr_runs = rs @ [\<lparr>run_env = E, run_past = [], run_rest = ?t\<rparr>], pr_log = lg\<rparr>"
    using ps_cluster [OF assms(1), of "\<lparr>pr_world = w, pr_runs = rs, pr_log = lg\<rparr>" req] by simp
  also have "provider_step\<^sup>*\<^sup>* \<dots> ?p"
    unfolding assms(2) by (rule run_steps) (rule assms(3))
  finally (converse_rtranclp_into_rtranclp) have "provider_step\<^sup>*\<^sup>* \<lparr>pr_world = w, pr_runs = rs, pr_log = lg\<rparr> ?p" .
  moreover have "provider_step ?p \<lparr>pr_world = w\<lparr>fl_pools := insert c (fl_pools w)\<rparr>,
      pr_runs = rs @ [\<lparr>run_env = E, run_past = ([] @ es) @ [PatchCluster c ts], run_rest = []\<rparr>], pr_log = pr_log ?p @ [PatchCluster c ts]\<rparr>"
    by (rule ps_event [of _ rs E "[] @ es" "PatchCluster c ts" "[]" "[]"]) (simp_all add: we_patch_cluster)
  ultimately show ?thesis by (blast intro: rtranclp.rtrancl_into_rtrancl)
qed

lemma world_steps:
  assumes "world_step w w'"
  shows "provider_step\<^sup>*\<^sup>* \<lparr>pr_world = w, pr_runs = rs, pr_log = lg\<rparr> \<lparr>pr_world = w', pr_runs = rs, pr_log = lg\<rparr>"
  using ps_world [of "\<lparr>pr_world = w, pr_runs = rs, pr_log = lg\<rparr>" w'] assms by (simp add: r_into_rtranclp)

theorem hosts_only_from_pools_witness:
  "\<exists>p opts. provider_step\<^sup>*\<^sup>* start p \<and> NewFlintlockClient ''127.0.0.1:9090'' opts \<in> set (pr_log p) \<and>
     ''127.0.0.1:9090'' \<in> listed (pr_world p)"
proof -
  let ?cl = "fx_cluster\<lparr>cl_Status_FailureDomains := Some [(''127.0.0.1:9090'', fx_fd)]\<rparr>"
  obtain es c' ts where t: "snd (ClusterReconciler_Reconcile fx_site (fx_key ''tenant1'') []) = es @ [PatchCluster c' ts]"
    and c': "published c' = {''127.0.0.1:9090''}" and es: "list_all no_machine_read es"
    using fx_site_cluster_run by (metis list_all_append)
  define w0 :: fleet where "w0 = \<lparr>fl_pools = {}, fl_clusters = {}, fl_owners = {}, fl_machines = {}\<rparr>"
  define w1 :: fleet where "w1 = w0\<lparr>fl_pools := {fx_mvm_cluster}\<rparr>"
  define w2 :: fleet where "w2 = w1\<lparr>fl_pools := {c', fx_mvm_cluster}\<rparr>"
  define w3 :: fleet where "w3 = w2\<lparr>fl_clusters := {?cl}\<rparr>"
  define w4 :: fleet where "w4 = w3\<lparr>fl_owners := {fx_machine}\<rparr>"
  define w5 :: fleet where "w5 = w4\<lparr>fl_machines := {fx_mvm_machine}\<rparr>"
  note w = w0_def w1_def w2_def w3_def w4_def w5_def
  have "world_step w0 w1"
    using ws_pool [of fx_mvm_cluster w0] by (simp add: w slash_free_def pool_endpoints_def published_def fx_defs)
  then have "provider_step\<^sup>*\<^sup>* start \<lparr>pr_world = w1, pr_runs = [], pr_log = []\<rparr>"
    using world_steps [of w0 w1] by (simp add: start_def w0_def)
  also obtain rs lg where "provider_step\<^sup>*\<^sup>* \<lparr>pr_world = w1, pr_runs = [], pr_log = []\<rparr> \<lparr>pr_world = w2, pr_runs = rs, pr_log = lg\<rparr>"
    using cluster_run_steps [OF fx_site_lawful t, of w1 "[]" "[]"] fx_site_event [of w1] es by (auto simp: w list_all_iff)
  also have "world_step w2 w3" using ws_cluster [of ?cl w2] c' by (simp add: w offered_def)
  note world_steps [OF this, of rs lg]
  also have "world_step w3 w4" using ws_owner [of fx_machine w3] by (simp add: w offered_def assigned_def fx_machine_def)
  note world_steps [OF this, of rs lg]
  also have "world_step w4 w5" using ws_machine [of fx_mvm_machine w4] by (simp add: w placed_at_def fx_mvm_machine_def)
  note world_steps [OF this, of rs lg]
  also have "world_event fx_site h ev w5 w5" for h ev by (rule fx_site_event) (simp_all add: w)
  note machine_run_steps [OF fx_site_lawful this]
  then obtain rs' where "provider_step\<^sup>*\<^sup>* \<lparr>pr_world = w5, pr_runs = rs, pr_log = lg\<rparr> \<lparr>pr_world = w5, pr_runs = rs',
      pr_log = lg @ snd (MachineReconciler_Reconcile fx_site (fx_key ''machine1'') [])\<rparr>" by blast
  finally (rtranclp_trans) obtain p where p: "provider_step\<^sup>*\<^sup>* start p"
    "set (snd (MachineReconciler_Reconcile fx_site (fx_key ''machine1'') [])) \<subseteq> set (pr_log p)" by fastforce
  then obtain opts where "NewFlintlockClient ''127.0.0.1:9090'' opts \<in> set (pr_log p)" using fx_site_machine_run by blast
  then show ?thesis using hosts_only_from_pools [OF p(1)] p(1) by blast
qed

end
