(* ===== verification/Progress.thy ===== *)
theory Progress
  imports Machine_Effects
begin

text \<open>
  Progress of the machine controller. When the API server stores what it is sent, the objects around
  the machine are there, flintlock can be reached and does its work after some number of lookups, then
  running the controller again and again brings a live machine to ready and lets a deleted one go; and
  until then every run asks to be run again, so that nothing else has to trigger it.
\<close>

section \<open>Runs one after the other\<close>

text \<open>The object stored after a history: the one patched last.\<close>

fun stored_by :: "event \<Rightarrow> MicrovmMachine \<Rightarrow> MicrovmMachine" where
  "stored_by (PatchMachine m' ts) m = m'"
| "stored_by _ m = m"

definition stored :: "MicrovmMachine \<Rightarrow> history \<Rightarrow> MicrovmMachine" where
  "stored m h = fold stored_by h m"

fun looks_up :: "event \<Rightarrow> bool" where
  "looks_up (ServiceGet _) = True"
| "looks_up _ = False"

definition lookups :: "history \<Rightarrow> nat" where
  "lookups h = length (filter looks_up h)"

fun reconciles :: "env \<Rightarrow> NamespacedName \<Rightarrow> nat \<Rightarrow> history" where
  "reconciles E req 0 = []"
| "reconciles E req (Suc n) = snd (MachineReconciler_Reconcile E req (reconciles E req n))"

abbreviation run_result :: "env \<Rightarrow> NamespacedName \<Rightarrow> nat \<Rightarrow> reconciled" where
  "run_result E req n \<equiv> fst (MachineReconciler_Reconcile E req (reconciles E req n))"

abbreviation after_run :: "env \<Rightarrow> NamespacedName \<Rightarrow> MicrovmMachine \<Rightarrow> nat \<Rightarrow> MicrovmMachine" where
  "after_run E req m n \<equiv> stored m (reconciles E req (Suc n))"

text \<open>
  The API server serves the request: it returns the stored machine and the objects \<open>f\<close> around it, takes
  every patch, the cluster has failure domains, and a client of flintlock can be made.
\<close>

definition served :: "env \<Rightarrow> NamespacedName \<Rightarrow> MicrovmMachine \<Rightarrow> found \<Rightarrow> bool" where
  "served E req m f \<longleftrightarrow>
     (\<forall>h. e_GetMicrovmMachine E h req = Inr (stored m h)) \<and>
     (\<forall>h om. e_GetOwnerMachine E h om = Inr (Some (f_machine f))) \<and>
     (\<forall>h om. e_GetClusterFromMetadata E h om = Inr (f_cluster f)) \<and>
     (\<forall>om. \<not> e_IsPaused E (f_cluster f) om) \<and>
     cl_Spec_InfrastructureRef (f_cluster f) = Some (f_ref f) \<and>
     (\<forall>h k. e_GetMicrovmCluster E h k = Inr (f_mvmCluster f)) \<and>
     (\<forall>h o1. e_NewMachineHelper E h o1 = None) \<and>
     (\<forall>h o1 ts. fst (e_PatchMachine E h o1 ts) = None) \<and>
     elems (cl_Status_FailureDomains (f_cluster f)) \<noteq> [] \<and>
     (\<forall>h a s. sc_MvmCluster s = f_mvmCluster f \<longrightarrow> (\<exists>svc. fst (getMicrovmService E a s h) = Inr svc))"

text \<open>
  Flintlock boots the microvm: it is created and found when it is asked for, pending during the
  first \<open>k\<close> lookups and created from then on.
\<close>

definition booting :: "nat \<Rightarrow> string \<Rightarrow> history \<Rightarrow> MicroVM" where
  "booting k uid h = \<lparr>mv_Spec = Some (Some uid), mv_Status = Some (if lookups h < k then PENDING else CREATED)\<rparr>"

definition boots :: "env \<Rightarrow> nat \<Rightarrow> string \<Rightarrow> bool" where
  "boots E k uid \<longleftrightarrow>
     (\<forall>h svc. fst (e_ServiceCreate E h svc) = (Some (booting k uid h), None)) \<and>
     (\<forall>h svc. fst (e_ServiceGet E h svc) = (Some (booting k uid h), None))"

text \<open>Flintlock winds the microvm down: it takes deletions, and after \<open>k\<close> lookups the microvm is gone.\<close>

definition winds_down :: "env \<Rightarrow> nat \<Rightarrow> bool" where
  "winds_down E k \<longleftrightarrow>
     (\<forall>h svc. fst (e_ServiceDelete E h svc) = None) \<and>
     (\<forall>h svc. if lookups h < k
        then \<exists>vm. fst (e_ServiceGet E h svc) = (Some vm, None) \<and> mv_Status vm \<noteq> None
        else vm_gone (fst (e_ServiceGet E h svc)))"

section \<open>Histories\<close>

lemma stored_append [simp]: "stored m (h @ es) = stored (stored m h) es"
  by (simp add: stored_def)

lemma stored_Cons [simp]: "stored m (e # es) = stored (stored_by e m) es" "stored m [] = m"
  by (simp_all add: stored_def)

lemma lookups_append [simp]: "lookups (h @ es) = lookups h + lookups es"
  by (simp add: lookups_def)

lemma lookups_Cons [simp]: "lookups (e # es) = (if looks_up e then 1 else 0) + lookups es"
  by (simp add: lookups_def)

lemma lookups_Nil [simp]: "lookups [] = 0"
  by (simp add: lookups_def)

lemma lookups_secrets: "list_all reads_secret ss \<Longrightarrow> lookups ss = 0"
proof (induction ss)
  case (Cons e ss)
  then show ?case by (cases e) auto
qed simp

lemma getMicrovmService_lookups: "getMicrovmService E a s h = (r, h1) \<Longrightarrow> lookups h1 = lookups h"
proof -
  assume r: "getMicrovmService E a s h = (r, h1)"
  obtain ss where "list_all reads_secret ss" and ev: "service_events E a s h ss"
    using getMicrovmService_events by blast
  then show ?thesis using r lookups_secrets [of ss] by (auto simp: service_events_def split: sum.splits)
qed

section \<open>One run\<close>

abbreviation found_at :: "MicrovmMachine \<Rightarrow> found \<Rightarrow> history \<Rightarrow> found" where
  "found_at m f h \<equiv> f\<lparr>f_mvm := stored m h\<rparr>"

lemma served_admitted: "served E req m f \<Longrightarrow> machine_admitted E req h (found_at m f h)"
  by (simp add: served_def machine_admitted_def)

lemma served_service:
  assumes "served E req m f"
  obtains fd svc h1 where "GetFailureDomain (machine_scope_of (found_at m f h)) = Return (Inr fd)"
    "getMicrovmService E fd (machine_scope_of (found_at m f h)) h' = (Inr svc, h1)" "lookups h1 = lookups h'"
proof -
  let ?s = "machine_scope_of (found_at m f h)"
  have "elems (cl_Status_FailureDomains (sc_Cluster ?s)) \<noteq> []" and s: "sc_MvmCluster ?s = f_mvmCluster f"
    using assms by (simp_all add: served_def machine_scope_of_def)
  then obtain fd where fd: "GetFailureDomain ?s = Return (Inr fd)"
    using GetFailureDomain_placed [of ?s] GetFailureDomain_unplaced [of ?s] by (cases "unplaced ?s") auto
  obtain svc where "fst (getMicrovmService E fd ?s h') = Inr svc" using assms s unfolding served_def by blast
  then obtain h1 where "getMicrovmService E fd ?s h' = (Inr svc, h1)" by (metis prod.collapse)
  with that fd getMicrovmService_lookups show ?thesis by blast
qed

lemma served_patch: "served E req m f \<Longrightarrow> patch_error E s h = None"
  by (simp add: served_def patch_error_None)

text \<open>A live machine after the service has been obtained: settled on the microvm flintlock answers with.\<close>

definition booted_as :: "string \<Rightarrow> string \<Rightarrow> MicroVMState \<Rightarrow> MicrovmMachine \<Rightarrow> nat \<Rightarrow> reconciled \<times> MachineScope \<times> history \<Rightarrow> bool" where
  "booted_as fd uid st old n out \<longleftrightarrow>
     fst out = Return (if st = CREATED then zero_Result else requeue_later, None) \<and>
     (machine_ready (sc_MvmMachine (fst (snd out))) \<longleftrightarrow> st = CREATED) \<and>
     machine_provider_id (sc_MvmMachine (fst (snd out))) = Some (ProviderPrefix @ fd @ ''/'' @ uid) \<and>
     om_DeletionTimestamp (mm_ObjectMeta (sc_MvmMachine (fst (snd out)))) = om_DeletionTimestamp (mm_ObjectMeta old) \<and>
     lookups (snd (snd out)) = n"

abbreviation boot_state :: "nat \<Rightarrow> history \<Rightarrow> MicroVMState" where
  "boot_state k h \<equiv> if lookups h < k then PENDING else CREATED"

lemma record_booting:
  assumes "served E req m f" "patch_frame E"
  shows "booted_as fd uid (boot_state k h') (sc_MvmMachine s) (lookups h) (record_microvm E fd (Some (booting k uid h')) s h)"
  using served_patch [OF assms(1)]
  by (simp add: booted_as_def booting_def record_microvm_eq parseMicroVMState_result parseMicroVMState_machine
      patched_scope_parts [OF assms(2)] scope_simps machine_parts)

lemma booted_as_cong:
  assumes "om_DeletionTimestamp (mm_ObjectMeta old) = om_DeletionTimestamp (mm_ObjectMeta old')"
  shows "booted_as fd uid st old n out = booted_as fd uid st old' n out"
  unfolding booted_as_def assms ..

lemma guard_scope_timestamp:
  "om_DeletionTimestamp (mm_ObjectMeta (sc_MvmMachine (guard_scope E s))) = om_DeletionTimestamp (mm_ObjectMeta (sc_MvmMachine s))"
  by (simp add: guard_scope_def scope_simps machine_parts)

lemma ensure_booting:
  assumes "served E req m f" "patch_frame E" "service_frame E" "boots E k uid"
  shows "booted_as fd uid (boot_state k h') (sc_MvmMachine s) (lookups h) (ensure_microvm E fd svc (Some (booting k uid h')) s h)"
    "booted_as fd uid (boot_state k h) (sc_MvmMachine s) (lookups h) (ensure_microvm E fd svc None s h)"
proof -
  let ?s2 = "patched_scope E (guard_scope E s) h" and ?h2 = "h @ [patch_event E (guard_scope E s)]"
  let ?s3 = "created_scope E svc ?s2 ?h2" and ?h3 = "?h2 @ [ServiceCreate (service_at svc ?s2)]"
  have old: "om_DeletionTimestamp (mm_ObjectMeta (sc_MvmMachine ?s2)) = om_DeletionTimestamp (mm_ObjectMeta (sc_MvmMachine s))"
    "om_DeletionTimestamp (mm_ObjectMeta (sc_MvmMachine ?s3)) = om_DeletionTimestamp (mm_ObjectMeta (sc_MvmMachine s))"
    by (simp_all add: patched_scope_parts [OF assms(2)] service_scope_parts [OF assms(3)] guard_scope_timestamp)
  show "booted_as fd uid (boot_state k h') (sc_MvmMachine s) (lookups h) (ensure_microvm E fd svc (Some (booting k uid h')) s h)"
    using record_booting [OF assms(1,2), of fd uid h' k ?s2 ?h2] served_patch [OF assms(1)] booted_as_cong [OF old(1)]
    by (simp add: ensure_microvm_eq Let_def split: if_splits)
  have "created E svc ?s2 ?h2 = (Some (booting k uid ?h2), None)" using assms(4) by (simp add: boots_def)
  then show "booted_as fd uid (boot_state k h) (sc_MvmMachine s) (lookups h) (ensure_microvm E fd svc None s h)"
    using record_booting [OF assms(1,2), of fd uid ?h2 k ?s3 ?h3] served_patch [OF assms(1)] booted_as_cong [OF old(2)]
    by (simp add: ensure_microvm_eq Let_def split: if_splits)
qed

lemma normal_booting:
  assumes "served E req m f" "patch_frame E" "service_frame E" "boots E k uid"
  shows "booted_as fd uid (boot_state k h) (sc_MvmMachine s)
    (if GetProviderID s = '''' then lookups h else Suc (lookups h)) (normal_with_service E fd svc s h)"
proof -
  have got: "got E svc s h = (Some (booting k uid h), None)" using assms(4) by (simp add: boots_def)
  have "om_DeletionTimestamp (mm_ObjectMeta (sc_MvmMachine (got_scope E svc s h))) = om_DeletionTimestamp (mm_ObjectMeta (sc_MvmMachine s))"
    by (simp add: service_scope_parts [OF assms(3)])
  note c = booted_as_cong [OF this]
  show ?thesis
    using ensure_booting(2) [OF assms, of fd h s svc]
      ensure_booting(1) [OF assms, of fd h "got_scope E svc s h" "h @ [ServiceGet (service_at svc s)]" svc]
    by (simp add: normal_with_service_eq got c)
qed

text \<open>A whole run on a live machine.\<close>

lemma live_run:
  assumes "served E req m f" "patch_frame E" "service_frame E" "boots E k uid"
    and "e_TimeIsZero E (om_DeletionTimestamp (mm_ObjectMeta (stored m h)))" "provisionable (machine_scope_of f)"
  shows "\<exists>fd. GetFailureDomain (machine_scope_of (found_at m f h)) = Return (Inr fd) \<and>
    (let (r, h') = MachineReconciler_Reconcile E req h in
     r = Return (if boot_state k h = CREATED then zero_Result else requeue_later, None) \<and>
     (machine_ready (stored m h') \<longleftrightarrow> boot_state k h = CREATED) \<and>
     machine_provider_id (stored m h') = Some (ProviderPrefix @ fd @ ''/'' @ uid) \<and>
     om_DeletionTimestamp (mm_ObjectMeta (stored m h')) = om_DeletionTimestamp (mm_ObjectMeta (stored m h)) \<and>
     lookups h' = (if machine_provider_id (stored m h) \<in> {None, Some ''''} then lookups h else Suc (lookups h)))"
proof -
  let ?f = "found_at m f h" let ?s = "machine_scope_of ?f" and ?h = "h @ machine_preamble req ?f"
  note last = machine_Reconcile_last [OF served_admitted [OF assms(1)], of h]
  obtain fd svc h1 where svc: "GetFailureDomain ?s = Return (Inr fd)" "getMicrovmService E fd ?s ?h = (Inr svc, h1)"
    "lookups h1 = lookups ?h" using served_service [OF assms(1)] by blast
  have "machine_body E req h ?f = MachineReconciler_reconcileNormal E ?s ?h" using assms(5) by (simp add: machine_body_def)
  also have "\<dots> = with_deferred_close svc (normal_with_service E fd svc ?s h1)"
    using assms(6) svc(1,2) by (auto simp: MachineReconciler_reconcileNormal_def machine_scope_of_def)
  finally have body: "machine_body E req h ?f = with_deferred_close svc (normal_with_service E fd svc ?s h1)" .
  have n: "lookups h1 = lookups h" using svc(3) by simp
  have "booted_as fd uid (boot_state k h1) (sc_MvmMachine ?s) (if GetProviderID ?s = '''' then lookups h1 else Suc (lookups h1))
      (normal_with_service E fd svc ?s h1)" by (rule normal_booting [OF assms(1-4)])
  moreover have "GetProviderID ?s = '''' \<longleftrightarrow> machine_provider_id (stored m h) \<in> {None, Some ''''}"
    by (auto simp: GetProviderID_def machine_scope_of_def split: option.splits)
  ultimately show ?thesis
    unfolding booted_as_def n machine_scope_of_parts
    by (intro exI [of _ fd]) (simp add: svc(1) case_prod_unfold last(2,3) body with_deferred_close_parts machine_parts)
qed

text \<open>A whole run on a deleted machine.\<close>

lemma delete_winding:
  assumes "served E req m f" "finalizer_laws E" "patch_frame E" "service_frame E" "winds_down E k" "guarded (sc_MvmMachine s)"
  shows "fst (delete_with_service E svc s h) = Return (if lookups h < k then requeue_later else zero_Result, None)"
    "guarded (sc_MvmMachine (fst (snd (delete_with_service E svc s h)))) \<longleftrightarrow> lookups h < k"
    "om_DeletionTimestamp (mm_ObjectMeta (sc_MvmMachine (fst (snd (delete_with_service E svc s h))))) =
       om_DeletionTimestamp (mm_ObjectMeta (sc_MvmMachine s))"
    "lookups (snd (snd (delete_with_service E svc s h))) = Suc (lookups h)"
proof -
  have del: "delete_error E svc s' h' = None" for s' h' using assms(5) by (simp add: winds_down_def)
  have get: "if lookups h < k then \<exists>vm. got E svc s h = (Some vm, None) \<and> mv_Status vm \<noteq> None else vm_gone (got E svc s h)"
    using assms(5) unfolding winds_down_def by blast
  note err = served_patch [OF assms(1)]
  show "fst (delete_with_service E svc s h) = Return (if lookups h < k then requeue_later else zero_Result, None)"
    using get by (auto simp: delete_with_service_eq Let_def err del split: if_splits option.splits)
  show "guarded (sc_MvmMachine (fst (snd (delete_with_service E svc s h)))) \<longleftrightarrow> lookups h < k"
    using get assms(6) delete_with_service_finalizers [OF assms(2-4), of svc s h] by (auto split: if_splits)
  show "om_DeletionTimestamp (mm_ObjectMeta (sc_MvmMachine (fst (snd (delete_with_service E svc s h))))) =
       om_DeletionTimestamp (mm_ObjectMeta (sc_MvmMachine s))"
    by (auto simp: delete_with_service_eq Let_def release_scope_def patched_scope_parts [OF assms(3)]
        service_scope_parts [OF assms(4)] scope_simps machine_parts split: option.splits)
  show "lookups (snd (snd (delete_with_service E svc s h))) = Suc (lookups h)"
    by (auto simp: delete_with_service_eq Let_def split: option.splits)
qed

lemma deleted_run:
  assumes "served E req m f" "finalizer_laws E" "patch_frame E" "service_frame E" "winds_down E k"
    and "\<not> e_TimeIsZero E (om_DeletionTimestamp (mm_ObjectMeta (stored m h)))" "guarded (stored m h)"
  shows "let (r, h') = MachineReconciler_Reconcile E req h in
     r = Return (if lookups h < k then requeue_later else zero_Result, None) \<and>
     (guarded (stored m h') \<longleftrightarrow> lookups h < k) \<and>
     om_DeletionTimestamp (mm_ObjectMeta (stored m h')) = om_DeletionTimestamp (mm_ObjectMeta (stored m h)) \<and>
     lookups h' = Suc (lookups h)"
proof -
  let ?f = "found_at m f h" let ?s = "machine_scope_of ?f" and ?h = "h @ machine_preamble req ?f"
  note last = machine_Reconcile_last [OF served_admitted [OF assms(1)], of h]
  obtain fd svc h1 where svc: "GetFailureDomain ?s = Return (Inr fd)" "getMicrovmService E fd ?s ?h = (Inr svc, h1)"
    "lookups h1 = lookups ?h" using served_service [OF assms(1)] by blast
  have "machine_body E req h ?f = MachineReconciler_reconcileDelete E ?s ?h" using assms(6) by (simp add: machine_body_def)
  also have "\<dots> = with_deferred_close svc (delete_with_service E svc ?s h1)"
    using svc(1,2) by (simp add: MachineReconciler_reconcileDelete_def)
  finally have body: "machine_body E req h ?f = with_deferred_close svc (delete_with_service E svc ?s h1)" .
  have n: "lookups h1 = lookups h" using svc(3) by simp
  have "guarded (sc_MvmMachine ?s)" using assms(7) by (simp add: machine_scope_of_parts)
  note d = delete_winding [OF assms(1-5) this, of svc h1, unfolded n machine_scope_of_parts]
  show ?thesis
    using d by (simp add: case_prod_unfold last(2,3) body with_deferred_close_parts machine_parts)
qed

section \<open>A sequence of runs on a live machine\<close>

definition first_runs :: "MicrovmMachine \<Rightarrow> nat" where
  "first_runs m = (if machine_provider_id m \<in> {None, Some ''''} then 1 else 0)"

lemma boot_invariant:
  assumes "served E req m f" "patch_frame E" "service_frame E" "boots E k uid"
    and "e_TimeIsZero E (om_DeletionTimestamp (mm_ObjectMeta m))" "provisionable (machine_scope_of f)"
  shows "e_TimeIsZero E (om_DeletionTimestamp (mm_ObjectMeta (stored m (reconciles E req n)))) \<and>
    lookups (reconciles E req n) = n - first_runs m \<and>
    (n > 0 \<longrightarrow> machine_provider_id (stored m (reconciles E req n)) \<notin> {None, Some ''''})"
proof (induction n)
  case 0
  then show ?case using assms(5) by simp
next
  case (Suc n)
  from live_run [OF assms(1-4) conjunct1 [OF Suc] assms(6)] Suc show ?case
    by (cases n) (auto simp: case_prod_unfold Let_def ProviderPrefix_def first_runs_def)
qed

lemma boot_run:
  assumes "served E req m f" "patch_frame E" "service_frame E" "boots E k uid"
    and "e_TimeIsZero E (om_DeletionTimestamp (mm_ObjectMeta m))" "provisionable (machine_scope_of f)"
  shows "run_result E req n = Return (if n - first_runs m < k then requeue_later else zero_Result, None)"
    "machine_ready (after_run E req m n) \<longleftrightarrow> \<not> n - first_runs m < k"
    "\<exists>fd. GetFailureDomain (machine_scope_of (found_at m f (reconciles E req n))) = Return (Inr fd) \<and>
       machine_provider_id (after_run E req m n) = Some (ProviderPrefix @ fd @ ''/'' @ uid)"
  using live_run [OF assms(1-4) conjunct1 [OF boot_invariant [OF assms]] assms(6), of n] boot_invariant [OF assms, of n]
  by (auto simp: case_prod_unfold Let_def split: if_splits)

text \<open>From some run on the machine is ready; the runs before it ask to be run again.\<close>

lemma boot_threshold:
  assumes "served E req m f" "patch_frame E" "service_frame E" "boots E k uid"
    and "e_TimeIsZero E (om_DeletionTimestamp (mm_ObjectMeta m))" "provisionable (machine_scope_of f)"
  obtains N where "N \<le> k + 1"
    "\<And>n. n < N \<Longrightarrow> run_result E req n = Return (zero_Result\<lparr>RequeueAfter := requeuePeriod\<rparr>, None)"
    "\<And>n. n < N \<Longrightarrow> \<not> machine_ready (after_run E req m n)"
    "\<And>n. N \<le> n \<Longrightarrow> run_result E req n = Return (zero_Result, None)"
    "\<And>n. N \<le> n \<Longrightarrow> machine_ready (after_run E req m n)"
proof (rule that [of "if k = 0 then 0 else k + first_runs m"])
  note run = boot_run(1,2) [OF assms]
  show "(if k = 0 then 0 else k + first_runs m) \<le> k + 1" by (simp add: first_runs_def)
  show "run_result E req n = Return (zero_Result\<lparr>RequeueAfter := requeuePeriod\<rparr>, None)" "\<not> machine_ready (after_run E req m n)"
    if "n < (if k = 0 then 0 else k + first_runs m)" for n
  proof -
    have "n - first_runs m < k" using that by (auto split: if_splits)
    then show "run_result E req n = Return (zero_Result\<lparr>RequeueAfter := requeuePeriod\<rparr>, None)" "\<not> machine_ready (after_run E req m n)"
      using run [of n] by simp_all
  qed
  show "run_result E req n = Return (zero_Result, None)" "machine_ready (after_run E req m n)"
    if "(if k = 0 then 0 else k + first_runs m) \<le> n" for n
  proof -
    have "\<not> n - first_runs m < k" using that by (auto split: if_splits)
    then show "run_result E req n = Return (zero_Result, None)" "machine_ready (after_run E req m n)"
      using run [of n] by simp_all
  qed
qed

text \<open>The host is the one of the first run: it is read back from the provider id.\<close>

lemma domain_kept:
  assumes "GetFailureDomain (machine_scope_of (f\<lparr>f_mvm := m\<rparr>)) = Return (Inr fd)"
    and "machine_provider_id m' = Some (ProviderPrefix @ fd @ ''/'' @ uid)"
    and "CHR ''/'' \<notin> set fd" "uid = '''' \<or> hd uid \<noteq> CHR ''/''"
  shows "GetFailureDomain (machine_scope_of (f\<lparr>f_mvm := m'\<rparr>)) = Return (Inr fd)"
proof -
  let ?s = "machine_scope_of (f\<lparr>f_mvm := m\<rparr>)" and ?s' = "machine_scope_of (f\<lparr>f_mvm := m'\<rparr>)"
  have pid: "GetProviderID ?s' = ProviderPrefix @ fd @ ''/'' @ uid"
    using assms(2) by (simp add: GetProviderID_def machine_scope_of_def)
  then have placed: "\<not> unplaced ?s'" by (simp add: unplaced_def ProviderPrefix_def)
  have same: "sc_Machine ?s' = sc_Machine ?s" by (simp add: machine_scope_of_def)
  have own: "fd' = fd" if "m_Spec_FailureDomain (sc_Machine ?s) = Some fd'" "fd' \<noteq> ''''" for fd'
    using that assms(1) GetFailureDomain_placed [of ?s] by (simp add: unplaced_def)
  show ?thesis
    unfolding GetFailureDomain_placed [OF placed] pid same
    using getFailureDomain_of_SetProviderID [OF assms(3,4)] own by (auto split: option.splits)
qed

lemma boot_host:
  assumes "served E req m f" "patch_frame E" "service_frame E" "boots E k uid"
    and "e_TimeIsZero E (om_DeletionTimestamp (mm_ObjectMeta m))" "provisionable (machine_scope_of f)"
    and "GetFailureDomain (machine_scope_of (f\<lparr>f_mvm := m\<rparr>)) = Return (Inr fd)"
    and "CHR ''/'' \<notin> set fd" "uid = '''' \<or> hd uid \<noteq> CHR ''/''"
  shows "machine_provider_id (after_run E req m n) = Some (ProviderPrefix @ fd @ ''/'' @ uid)"
proof -
  have "GetFailureDomain (machine_scope_of (found_at m f (reconciles E req n))) = Return (Inr fd) \<and>
      machine_provider_id (after_run E req m n) = Some (ProviderPrefix @ fd @ ''/'' @ uid)"
  proof (induction n)
    case 0
    then show ?case using assms(7) boot_run(3) [OF assms(1-6), of 0] by auto
  next
    case (Suc n)
    then have "GetFailureDomain (machine_scope_of (found_at m f (reconciles E req (Suc n)))) = Return (Inr fd)"
      by (intro domain_kept [OF assms(7) _ assms(8,9)]) blast
    then show ?case using boot_run(3) [OF assms(1-6), of "Suc n"] by auto
  qed
  then show ?thesis ..
qed

section \<open>Properties\<close>

text \<open>
  C12: a live machine becomes ready. If the API server serves the request and flintlock boots the microvm
  within \<open>k\<close> lookups, there is a number \<open>N \<le> k + 1\<close> such that the runs before the \<open>N\<close>-th leave the machine
  not ready and ask to be run again after the requeue period, and the \<open>N\<close>-th run and all later ones
  leave it ready, with the provider id of the microvm, and ask for nothing.
\<close>

theorem machine_becomes_ready:
  assumes "served E req m f" "patch_frame E" "service_frame E" "boots E k uid"
    and "e_TimeIsZero E (om_DeletionTimestamp (mm_ObjectMeta m))" "provisionable (machine_scope_of f)"
  shows "\<exists>N \<le> k + 1.
    (\<forall>n < N. run_result E req n = Return (zero_Result\<lparr>RequeueAfter := requeuePeriod\<rparr>, None) \<and>
       \<not> machine_ready (after_run E req m n)) \<and>
    (\<forall>n \<ge> N. run_result E req n = Return (zero_Result, None) \<and> machine_ready (after_run E req m n) \<and>
       (\<exists>fd. machine_provider_id (after_run E req m n) = Some (ProviderPrefix @ fd @ ''/'' @ uid)))"
proof (rule boot_threshold [OF assms], goal_cases)
  case (1 N)
  then show ?case using boot_run(3) [OF assms] by blast
qed

text \<open>
  C13: a deleted machine is let go. If the API server serves the request and flintlock has wound the
  microvm down after \<open>k\<close> lookups, the first \<open>k\<close> runs keep the finalizer and ask to be run again after
  the requeue period, and the next run removes it and asks for nothing.
\<close>

theorem deleted_machine_released:
  assumes "served E req m f" "finalizer_laws E" "patch_frame E" "service_frame E" "winds_down E k"
    and "\<not> e_TimeIsZero E (om_DeletionTimestamp (mm_ObjectMeta m))" "MachineFinalizer \<in> set (machine_finalizers m)"
  shows "(\<forall>n < k. run_result E req n = Return (zero_Result\<lparr>RequeueAfter := requeuePeriod\<rparr>, None) \<and>
      MachineFinalizer \<in> set (machine_finalizers (after_run E req m n))) \<and>
    run_result E req k = Return (zero_Result, None) \<and>
    MachineFinalizer \<notin> set (machine_finalizers (after_run E req m k))"
proof -
  let ?h = "\<lambda>n. reconciles E req n"
  have inv: "n \<le> k \<Longrightarrow> \<not> e_TimeIsZero E (om_DeletionTimestamp (mm_ObjectMeta (stored m (?h n)))) \<and>
      guarded (stored m (?h n)) \<and> lookups (?h n) = n" for n
  proof (induction n)
    case 0
    then show ?case using assms(6,7) by simp
  next
    case (Suc n)
    then have IH: "\<not> e_TimeIsZero E (om_DeletionTimestamp (mm_ObjectMeta (stored m (?h n))))" "guarded (stored m (?h n))"
      "lookups (?h n) = n" by simp_all
    from deleted_run [OF assms(1-5) IH(1,2)] IH Suc.prems show ?case by (simp add: case_prod_unfold Let_def)
  qed
  have run: "run_result E req n = Return (if n < k then requeue_later else zero_Result, None) \<and>
      (guarded (after_run E req m n) \<longleftrightarrow> n < k)" if "n \<le> k" for n
    using deleted_run [OF assms(1-5), of "?h n"] inv [OF that] by (simp add: case_prod_unfold Let_def)
  then show ?thesis using run [of k] by auto
qed

text \<open>The worlds of the witnesses: the microvm is created, respectively gone, after one lookup.\<close>

definition fx_booting :: env where
  "fx_booting = fx_env\<lparr>
     e_GetMicrovmMachine := \<lambda>h k. Inr (stored fx_mvm_machine h),
     e_ServiceGet := \<lambda>h svc. ((Some (booting 1 ''ABCDEF'' h), None), sc_MvmMachine (svc_scope svc)),
     e_ServiceCreate := \<lambda>h svc. ((Some (booting 1 ''ABCDEF'' h), None), sc_MvmMachine (svc_scope svc))\<rparr>"

definition fx_winding :: env where
  "fx_winding = fx_env\<lparr>
     e_GetMicrovmMachine := \<lambda>h k. Inr (stored fx_deleting_machine h),
     e_ServiceGet := \<lambda>h svc. (if lookups h < 1 then (Some (fx_microvm CREATED), None) else (None, Some fx_not_found),
       sc_MvmMachine (svc_scope svc))\<rparr>"

lemma fx_world_laws:
  "patch_frame fx_booting" "service_frame fx_booting"
  "finalizer_laws fx_winding" "patch_frame fx_winding" "service_frame fx_winding"
  using fx_finalizer_laws(1) fx_patch_frame(1) fx_service_frame(1)
  by (simp_all add: fx_booting_def fx_winding_def finalizer_laws_def patch_frame_def service_frame_def)

lemma fx_worlds_served:
  "served fx_booting (fx_key ''machine1'') fx_mvm_machine (fx_found fx_mvm_machine)"
  "served fx_winding (fx_key ''machine1'') fx_deleting_machine (fx_found fx_deleting_machine)"
  by (simp_all add: served_def fx_booting_def fx_winding_def fx_found_def getMicrovmService_def GetBasicAuthToken_def
      GetTLSConfig_def Let_def fx_defs)

theorem machine_becomes_ready_witness:
  "\<exists>N \<le> 2. run_result fx_booting (fx_key ''machine1'') N = Return (zero_Result, None) \<and>
     machine_ready (after_run fx_booting (fx_key ''machine1'') fx_mvm_machine N)"
proof -
  have "boots fx_booting 1 ''ABCDEF''" by (simp add: boots_def fx_booting_def)
  moreover have "e_TimeIsZero fx_booting (om_DeletionTimestamp (mm_ObjectMeta fx_mvm_machine))"
    "provisionable (machine_scope_of (fx_found fx_mvm_machine))"
    by (simp_all add: fx_booting_def fx_found_def machine_scope_of_def fx_defs)
  ultimately obtain N where "N \<le> 1 + 1" "run_result fx_booting (fx_key ''machine1'') N = Return (zero_Result, None)"
    "machine_ready (after_run fx_booting (fx_key ''machine1'') fx_mvm_machine N)"
    using machine_becomes_ready [OF fx_worlds_served(1) fx_world_laws(1,2)] by blast
  then show ?thesis by (intro exI [of _ N]) simp
qed

theorem deleted_machine_released_witness:
  "run_result fx_winding (fx_key ''machine1'') 1 = Return (zero_Result, None) \<and>
   MachineFinalizer \<notin> set (machine_finalizers (after_run fx_winding (fx_key ''machine1'') fx_deleting_machine 1))"
proof -
  have "isSpecNotFound fx_not_found" unfolding isSpecNotFound_iff
    by (intro exI [of _ "''rpc error: microvm spec ''"] exI [of _ "''''"]) (simp add: fx_not_found_def)
  then have "winds_down fx_winding 1"
    by (simp add: winds_down_def fx_winding_def fx_env_def fx_microvm_def)
  moreover have "\<not> e_TimeIsZero fx_winding (om_DeletionTimestamp (mm_ObjectMeta fx_deleting_machine))"
    "MachineFinalizer \<in> set (machine_finalizers fx_deleting_machine)"
    by (simp_all add: fx_winding_def fx_env_def fx_deleting_machine_def)
  ultimately show ?thesis
    using deleted_machine_released [OF fx_worlds_served(2) fx_world_laws(3-5)] by blast
qed

end
