(* ===== verification/Webhooks.thy ===== *)
theory Webhooks
  imports Fixtures
begin

text \<open>
  Admission: the defaults and the validation of \<^verbatim>\<open>api/v1alpha1\<close> (\<^verbatim>\<open>defaults.go\<close>, \<^verbatim>\<open>validate.go\<close>,
  \<^verbatim>\<open>webhooks.go\<close>, \<^verbatim>\<open>zz_generated.defaults.go\<close>) and the webhooks of \<^verbatim>\<open>internal/webhook\<close>. An object that
  reaches a webhook is an interface value, so every handler first tests its type; a handler returns
  its warnings and its error.
\<close>

section \<open>Defaults\<close>

text \<open>
  \<open>SetDefaults_NetworkInterface\<close> draws a random address from the library \<open>macpot\<close>, ignoring the
  library's error. The addresses are a parameter: \<open>macs n\<close> is the text of the \<open>n\<close>-th address drawn, and
  the number of draws is the state.
\<close>

definition SetDefaults_NetworkInterface ::
  "(nat \<Rightarrow> string) \<Rightarrow> NetworkInterface \<Rightarrow> nat \<Rightarrow> NetworkInterface \<times> nat" where
  "SetDefaults_NetworkInterface macs obj n =
     (if ni_GuestMAC obj = '''' then (obj\<lparr>ni_GuestMAC := macs n\<rparr>, Suc n) else (obj, n))"

fun default_interfaces ::
  "(nat \<Rightarrow> string) \<Rightarrow> NetworkInterface list \<Rightarrow> nat \<Rightarrow> NetworkInterface list \<times> nat" where
  "default_interfaces macs [] n = ([], n)"
| "default_interfaces macs (a # as) n =
     (let (a', n1) = SetDefaults_NetworkInterface macs a n; (as', n2) = default_interfaces macs as n1
      in (a' # as', n2))"

definition default_VMSpec :: "(nat \<Rightarrow> string) \<Rightarrow> VMSpec \<Rightarrow> nat \<Rightarrow> VMSpec \<times> nat" where
  "default_VMSpec macs vm n =
     (case vm_NetworkInterfaces vm of
        None \<Rightarrow> (vm, n)
      | Some as \<Rightarrow> let (as', n') = default_interfaces macs as n
                   in (vm\<lparr>vm_NetworkInterfaces := Some as'\<rparr>, n'))"

definition SetObjectDefaults_MicrovmMachine ::
  "(nat \<Rightarrow> string) \<Rightarrow> MicrovmMachine \<Rightarrow> nat \<Rightarrow> MicrovmMachine \<times> nat" where
  "SetObjectDefaults_MicrovmMachine macs m n =
     (let (vm, n') = default_VMSpec macs (ms_VMSpec (mm_Spec m)) n
      in (m\<lparr>mm_Spec := (mm_Spec m)\<lparr>ms_VMSpec := vm\<rparr>\<rparr>, n'))"

definition SetObjectDefaults_MicrovmMachineTemplate ::
  "(nat \<Rightarrow> string) \<Rightarrow> MicrovmMachineTemplate \<Rightarrow> nat \<Rightarrow> MicrovmMachineTemplate \<times> nat" where
  "SetObjectDefaults_MicrovmMachineTemplate macs t n =
     (let r = mts_Template (mt_Spec t);
          (vm, n') = default_VMSpec macs (ms_VMSpec (mtr_Spec r)) n
      in (t\<lparr>mt_Spec := (mt_Spec t)\<lparr>mts_Template := r\<lparr>mtr_Spec := (mtr_Spec r)\<lparr>ms_VMSpec := vm\<rparr>\<rparr>\<rparr>\<rparr>, n'))"

section \<open>Errors of the API\<close>

datatype field_error = Forbidden "string list" string

datatype api_error =
    BadRequest string
  | Invalid TypeMeta string "field_error list"

definition Placement_Validate :: "Placement \<Rightarrow> field_error list" where
  "Placement_Validate p =
     (if pl_StaticPool p = None
      then [Forbidden [''spec'', ''placement''] ''you must supply configuration for a placement option'']
      else [])"

definition aggregateObjErrors :: "TypeMeta \<Rightarrow> string \<Rightarrow> field_error list \<Rightarrow> api_error option" where
  "aggregateObjErrors gk name allErrs =
     (if length allErrs = 0 then None else Some (Invalid gk name allErrs))"

section \<open>The webhooks\<close>

text \<open>\<open>runtime.Object\<close> by dynamic type; an object of another type carries what \<open>%T\<close> prints for it.\<close>

datatype runtime_object =
    Obj_MicrovmCluster MicrovmCluster
  | Obj_MicrovmMachine MicrovmMachine
  | Obj_MicrovmMachineTemplate MicrovmMachineTemplate
  | Obj_other string

fun type_text :: "runtime_object \<Rightarrow> string" where
  "type_text (Obj_MicrovmCluster _) = ''*v1alpha1.MicrovmCluster''"
| "type_text (Obj_MicrovmMachine _) = ''*v1alpha1.MicrovmMachine''"
| "type_text (Obj_MicrovmMachineTemplate _) = ''*v1alpha1.MicrovmMachineTemplate''"
| "type_text (Obj_other t) = t"

type_synonym verdict = "string list \<times> api_error option"

subsection \<open>microvmcluster\_webhook.go\<close>

definition MicrovmCluster_ValidateCreate :: "runtime_object \<Rightarrow> verdict" where
  "MicrovmCluster_ValidateCreate obj =
     (case obj of
        Obj_MicrovmCluster cluster \<Rightarrow>
          let allErrs = Placement_Validate (cs_Placement (mc_Spec cluster))
          in if length allErrs > 0
             then ([''cannot create microvm cluster '' @ om_Name (mc_ObjectMeta cluster)],
                   Some (Invalid (mc_TypeMeta cluster) (om_Name (mc_ObjectMeta cluster)) allErrs))
             else ([], None)
      | _ \<Rightarrow> ([], Some (BadRequest (''expected a MicrovmCluster but got '' @ type_text obj))))"

definition MicrovmCluster_ValidateDelete :: "runtime_object \<Rightarrow> verdict" where
  "MicrovmCluster_ValidateDelete obj = ([], None)"

definition MicrovmCluster_ValidateUpdate :: "runtime_object \<Rightarrow> runtime_object \<Rightarrow> verdict" where
  "MicrovmCluster_ValidateUpdate oldObj newObj = ([], None)"

definition MicrovmCluster_Default :: "runtime_object \<Rightarrow> api_error option \<times> runtime_object" where
  "MicrovmCluster_Default obj =
     (case obj of
        Obj_MicrovmCluster _ \<Rightarrow> (None, obj)
      | _ \<Rightarrow> (Some (BadRequest (''expected a MicrovmCluster but got a '' @ type_text obj)), obj))"

subsection \<open>microvmmachine\_webhook.go\<close>

definition MicrovmMachine_ValidateCreate :: "runtime_object \<Rightarrow> verdict" where
  "MicrovmMachine_ValidateCreate obj = ([], None)"

definition MicrovmMachine_ValidateDelete :: "runtime_object \<Rightarrow> verdict" where
  "MicrovmMachine_ValidateDelete obj = ([], None)"

definition MicrovmMachine_ValidateUpdate :: "runtime_object \<Rightarrow> runtime_object \<Rightarrow> verdict" where
  "MicrovmMachine_ValidateUpdate oldObj newObj =
     (case newObj of
        Obj_MicrovmMachine newMachine \<Rightarrow>
          (case oldObj of
             Obj_MicrovmMachine oldMachine \<Rightarrow>
               if mm_Spec newMachine \<noteq> mm_Spec oldMachine
               then ([], Some (BadRequest ''microvm machine spec is immutable''))
               else ([], None)
           | _ \<Rightarrow> ([], Some (BadRequest (''expected a MicrovmMachine but got '' @ type_text oldObj))))
      | _ \<Rightarrow> ([], Some (BadRequest (''expected a MicrovmMachine but got '' @ type_text newObj))))"

definition MicrovmMachine_Default ::
  "(nat \<Rightarrow> string) \<Rightarrow> runtime_object \<Rightarrow> nat \<Rightarrow> api_error option \<times> runtime_object \<times> nat" where
  "MicrovmMachine_Default macs obj n =
     (case obj of
        Obj_MicrovmMachine machine \<Rightarrow>
          let (machine', n') = SetObjectDefaults_MicrovmMachine macs machine n
          in (None, Obj_MicrovmMachine machine', n')
      | _ \<Rightarrow> (Some (BadRequest (''expected a MicrovmMachine but got a '' @ type_text obj)), obj, n))"

subsection \<open>microvmmachinetemplate\_webhook.go\<close>

definition MicrovmMachineTemplate_ValidateCreate :: "runtime_object \<Rightarrow> verdict" where
  "MicrovmMachineTemplate_ValidateCreate obj = ([], None)"

definition MicrovmMachineTemplate_ValidateDelete :: "runtime_object \<Rightarrow> verdict" where
  "MicrovmMachineTemplate_ValidateDelete obj = ([], None)"

definition MicrovmMachineTemplate_ValidateUpdate :: "runtime_object \<Rightarrow> runtime_object \<Rightarrow> verdict" where
  "MicrovmMachineTemplate_ValidateUpdate oldObj newObj = ([], None)"

section \<open>The interface webhook.CustomValidator\<close>

text \<open>
  The contract of the three validators: deletions are free, writing an object back unchanged is
  admitted, and a validator warns only when it rejects. An update history is admitted when each of
  its steps is.
\<close>

fun admitted_updates :: "(runtime_object \<Rightarrow> runtime_object \<Rightarrow> verdict) \<Rightarrow> runtime_object \<Rightarrow> runtime_object list \<Rightarrow> bool" where
  "admitted_updates update old [] = True"
| "admitted_updates update old (new # news) =
     (snd (update old new) = None \<and> admitted_updates update new news)"

locale custom_validator =
  fixes create delete :: "runtime_object \<Rightarrow> verdict"
    and update :: "runtime_object \<Rightarrow> runtime_object \<Rightarrow> verdict"
    and handles :: "runtime_object \<Rightarrow> bool"
  assumes delete_free: "snd (delete obj) = None"
    and update_same: "handles obj \<Longrightarrow> snd (update obj obj) = None"
    and create_quiet: "snd (create obj) = None \<Longrightarrow> fst (create obj) = []"
    and update_quiet: "snd (update old new) = None \<Longrightarrow> fst (update old new) = []"
begin

lemma rewrite_admitted: "handles obj \<Longrightarrow> admitted_updates update obj (replicate n obj)"
  by (induction n) (simp_all add: update_same)

lemma stutter:
  "handles old \<Longrightarrow> admitted_updates update old (old # news) = admitted_updates update old news"
  by (simp add: update_same)

lemma updates_append:
  "admitted_updates update old (news @ news') \<longleftrightarrow>
     admitted_updates update old news \<and> admitted_updates update (last (old # news)) news'"
  by (induction news arbitrary: old) auto

end

fun is_machine :: "runtime_object \<Rightarrow> bool" where
  "is_machine (Obj_MicrovmMachine _) = True"
| "is_machine _ = False"

interpretation cluster_validator: custom_validator
  MicrovmCluster_ValidateCreate MicrovmCluster_ValidateDelete MicrovmCluster_ValidateUpdate "\<lambda>_. True"
  by unfold_locales (auto simp: MicrovmCluster_ValidateCreate_def MicrovmCluster_ValidateDelete_def
      MicrovmCluster_ValidateUpdate_def Let_def split: runtime_object.splits if_splits)

interpretation machine_validator: custom_validator
  MicrovmMachine_ValidateCreate MicrovmMachine_ValidateDelete MicrovmMachine_ValidateUpdate is_machine
proof unfold_locales
  show "snd (MicrovmMachine_ValidateUpdate obj obj) = None" if "is_machine obj" for obj
    using that by (cases obj) (auto simp: MicrovmMachine_ValidateUpdate_def)
qed (auto simp: MicrovmMachine_ValidateCreate_def MicrovmMachine_ValidateDelete_def MicrovmMachine_ValidateUpdate_def
    split: runtime_object.splits if_splits)

interpretation template_validator: custom_validator
  MicrovmMachineTemplate_ValidateCreate MicrovmMachineTemplate_ValidateDelete MicrovmMachineTemplate_ValidateUpdate
  "\<lambda>_. True"
  by unfold_locales (simp_all add: MicrovmMachineTemplate_ValidateCreate_def
      MicrovmMachineTemplate_ValidateDelete_def MicrovmMachineTemplate_ValidateUpdate_def)

section \<open>Lemmas\<close>

lemma ValidateUpdate_machine_iff:
  "snd (MicrovmMachine_ValidateUpdate old new) = None \<longleftrightarrow>
     (\<exists>m m'. old = Obj_MicrovmMachine m \<and> new = Obj_MicrovmMachine m' \<and> mm_Spec m' = mm_Spec m)"
  by (auto simp: MicrovmMachine_ValidateUpdate_def split: runtime_object.splits if_splits)

lemma default_interfaces_Cons:
  "fst (default_interfaces macs (a # as) n) =
     (if ni_GuestMAC a = '''' then a\<lparr>ni_GuestMAC := macs n\<rparr> # fst (default_interfaces macs as (Suc n))
      else a # fst (default_interfaces macs as n))"
  "snd (default_interfaces macs (a # as) n) =
     snd (default_interfaces macs as (if ni_GuestMAC a = '''' then Suc n else n))"
  by (simp_all add: SetDefaults_NetworkInterface_def split: prod.splits)

lemma default_interfaces_length: "length (fst (default_interfaces macs as n)) = length as"
  by (induction as arbitrary: n) (simp_all add: default_interfaces_Cons del: default_interfaces.simps(2))

lemma default_interfaces_draws:
  "snd (default_interfaces macs as n) = n + length (filter (\<lambda>a. ni_GuestMAC a = '''') as)"
  by (induction as arbitrary: n) (simp_all add: default_interfaces_Cons del: default_interfaces.simps(2))

lemma default_interfaces_nth:
  "i < length as \<Longrightarrow> fst (default_interfaces macs as n) ! i =
     (if ni_GuestMAC (as ! i) = ''''
      then (as ! i)\<lparr>ni_GuestMAC := macs (n + length (filter (\<lambda>a. ni_GuestMAC a = '''') (take i as)))\<rparr>
      else as ! i)"
proof (induction as arbitrary: n i)
  case (Cons a as)
  then show ?case
    by (cases i) (simp_all add: default_interfaces_Cons del: default_interfaces.simps(2))
qed simp

lemma default_interfaces_set:
  assumes "\<And>k. macs k \<noteq> ''''"
  shows "\<forall>a \<in> set (fst (default_interfaces macs as n)). ni_GuestMAC a \<noteq> ''''"
  using assms
  by (induction as arbitrary: n) (simp_all add: default_interfaces_Cons del: default_interfaces.simps(2))

lemma default_interfaces_id: "\<forall>a \<in> set as. ni_GuestMAC a \<noteq> '''' \<Longrightarrow> default_interfaces macs as n = (as, n)"
  by (induction as arbitrary: n) (auto simp: SetDefaults_NetworkInterface_def Let_def)

lemma Default_machine_eq:
  "MicrovmMachine_Default macs (Obj_MicrovmMachine m) n =
     (None, Obj_MicrovmMachine (m\<lparr>mm_Spec := (mm_Spec m)\<lparr>ms_VMSpec := (ms_VMSpec (mm_Spec m))\<lparr>vm_NetworkInterfaces :=
        map_option (\<lambda>as. fst (default_interfaces macs as n)) (vm_NetworkInterfaces (ms_VMSpec (mm_Spec m)))\<rparr>\<rparr>\<rparr>),
      snd (default_interfaces macs (elems (vm_NetworkInterfaces (ms_VMSpec (mm_Spec m)))) n))"
  by (cases "vm_NetworkInterfaces (ms_VMSpec (mm_Spec m))")
     (simp_all add: MicrovmMachine_Default_def SetObjectDefaults_MicrovmMachine_def default_VMSpec_def
        split: prod.splits)

section \<open>Properties\<close>

text \<open>
  C26: the spec of a MicrovmMachine is immutable: however many updates the webhook admits, one after
  the other, every object of the history is a MicrovmMachine with the spec of the first.
\<close>

theorem machine_spec_immutable:
  assumes "admitted_updates MicrovmMachine_ValidateUpdate (Obj_MicrovmMachine m) news"
  shows "\<forall>new \<in> set news. \<exists>m'. new = Obj_MicrovmMachine m' \<and> mm_Spec m' = mm_Spec m"
  using assms
proof (induction news arbitrary: m)
  case (Cons new news)
  then obtain m1 where m1: "new = Obj_MicrovmMachine m1" "mm_Spec m1 = mm_Spec m"
    by (auto simp: ValidateUpdate_machine_iff)
  with Cons show ?case by force
qed simp

theorem machine_spec_immutable_witness:
  "admitted_updates MicrovmMachine_ValidateUpdate (Obj_MicrovmMachine fx_mvm_machine)
     [Obj_MicrovmMachine (set_machine_ready True fx_mvm_machine)] \<and>
   (\<exists>m'. Obj_MicrovmMachine (set_machine_ready True fx_mvm_machine) = Obj_MicrovmMachine m' \<and>
      mm_Spec m' = mm_Spec fx_mvm_machine)"
proof -
  have adm: "admitted_updates MicrovmMachine_ValidateUpdate (Obj_MicrovmMachine fx_mvm_machine)
     [Obj_MicrovmMachine (set_machine_ready True fx_mvm_machine)]"
    by (simp add: MicrovmMachine_ValidateUpdate_def machine_parts)
  with machine_spec_immutable [OF adm] show ?thesis by simp
qed

text \<open>
  C27: what defaulting does to a MicrovmMachine. It succeeds, leaves everything but the network
  interfaces as it is and keeps their number and order; an interface with a MAC is kept and one
  without gets the next address drawn, each draw being used once. When the library returns no empty
  address, defaulting again changes nothing and draws nothing.
\<close>

theorem machine_defaulting:
  assumes "\<And>k. macs k \<noteq> ''''"
  shows "\<exists>as' n'. MicrovmMachine_Default macs (Obj_MicrovmMachine m) n =
      (None, Obj_MicrovmMachine (m\<lparr>mm_Spec := (mm_Spec m)\<lparr>ms_VMSpec := (ms_VMSpec (mm_Spec m))\<lparr>vm_NetworkInterfaces := as'\<rparr>\<rparr>\<rparr>), n') \<and>
    (as' = None \<longleftrightarrow> vm_NetworkInterfaces (ms_VMSpec (mm_Spec m)) = None) \<and>
    (let as = elems (vm_NetworkInterfaces (ms_VMSpec (mm_Spec m))); blank = \<lambda>a. ni_GuestMAC a = '''' in
       length (elems as') = length as \<and> n' = n + length (filter blank as) \<and>
       (\<forall>i < length as. elems as' ! i = (if blank (as ! i)
          then (as ! i)\<lparr>ni_GuestMAC := macs (n + length (filter blank (take i as)))\<rparr> else as ! i))) \<and>
    (\<forall>k. MicrovmMachine_Default macs (fst (snd (MicrovmMachine_Default macs (Obj_MicrovmMachine m) n))) k =
       (None, fst (snd (MicrovmMachine_Default macs (Obj_MicrovmMachine m) n)), k))"
proof -
  let ?as = "vm_NetworkInterfaces (ms_VMSpec (mm_Spec m))"
  let ?new = "map_option (\<lambda>as. fst (default_interfaces macs as n)) ?as"
  have new: "elems ?new = fst (default_interfaces macs (elems ?as) n)" by (cases ?as) simp_all
  have again: "map_option (\<lambda>as. fst (default_interfaces macs as k)) ?new = ?new"
    "snd (default_interfaces macs (elems ?new) k) = k" for k
    using default_interfaces_set [OF assms] default_interfaces_id [of _ macs k]
    by (cases ?as; simp)+
  have "filter (\<lambda>a. ni_GuestMAC a = '''') (fst (default_interfaces macs (elems ?as) n)) = []"
    using default_interfaces_set [OF assms] by (simp add: filter_empty_conv)
  then show ?thesis
    by (intro exI [of _ ?new] exI [of _ "snd (default_interfaces macs (elems ?as) n)"])
       (simp add: Default_machine_eq again new default_interfaces_length default_interfaces_draws
          default_interfaces_nth del: map_option_eq_Some)
qed

theorem machine_defaulting_witness:
  "fst (MicrovmMachine_Default (\<lambda>k. ''02:00:00:00:00:01'') (Obj_MicrovmMachine fx_mvm_machine) 0) = None"
proof -
  have "(\<lambda>k :: nat. ''02:00:00:00:00:01'') k \<noteq> ''''" for k by simp
  from machine_defaulting [OF this, of fx_mvm_machine 0] show ?thesis by auto
qed

text \<open>
  A MicrovmCluster is admitted for creation exactly when a placement is configured; otherwise the
  creation is refused as invalid, naming the cluster and the field, with one warning. The webhook
  refuses objects of other types, and does not look at updates: the placement of an existing cluster
  can be removed.
\<close>

lemma cluster_admission:
  "(snd (MicrovmCluster_ValidateCreate (Obj_MicrovmCluster c)) = None \<longleftrightarrow> IsSet (cs_Placement (mc_Spec c))) \<and>
   (\<not> IsSet (cs_Placement (mc_Spec c)) \<longrightarrow> MicrovmCluster_ValidateCreate (Obj_MicrovmCluster c) =
      ([''cannot create microvm cluster '' @ om_Name (mc_ObjectMeta c)],
       Some (Invalid (mc_TypeMeta c) (om_Name (mc_ObjectMeta c))
         [Forbidden [''spec'', ''placement''] ''you must supply configuration for a placement option'']))) \<and>
   (snd (MicrovmCluster_ValidateCreate obj) = None \<longrightarrow> (\<exists>c'. obj = Obj_MicrovmCluster c')) \<and>
   snd (MicrovmCluster_ValidateUpdate obj obj') = None"
  by (auto simp: MicrovmCluster_ValidateCreate_def MicrovmCluster_ValidateUpdate_def Placement_Validate_def
      IsSet_def Let_def split: runtime_object.splits)

end
