(* ===== verification/Registration.thy ===== *)
theory Registration
  imports Webhooks
begin

text \<open>
  How the parts are made known to each other: the scheme (\<^verbatim>\<open>api/v1alpha1/groupversion_info.go\<close> and the
  \<open>init\<close> functions beside the types), the defaulting functions (\<open>RegisterDefaults\<close>), the watches of the
  two controllers (\<open>SetupWithManager\<close>) and the webhooks (\<open>SetupWebhookWithManager\<close>). A builder of
  controller-runtime is the data it has been given; whether a call of the manager with it fails is a
  parameter.
\<close>

section \<open>The scheme\<close>

record GroupVersion =
  gv_Group :: string
  gv_Version :: string

record GroupVersionKind =
  gvk_GroupVersion :: GroupVersion
  gvk_Kind :: string

definition infra_GroupVersion :: GroupVersion where
  "infra_GroupVersion = \<lparr>gv_Group = ''infrastructure.cluster.x-k8s.io'', gv_Version = ''v1alpha1''\<rparr>"

definition WithKind :: "GroupVersion \<Rightarrow> string \<Rightarrow> GroupVersionKind" where
  "WithKind gv k = \<lparr>gvk_GroupVersion = gv, gvk_Kind = k\<rparr>"

text \<open>\<open>scheme.Builder\<close>: the group version and the types registered so far, by their names.\<close>

record scheme_Builder =
  sb_GroupVersion :: GroupVersion
  sb_types :: "string list"

definition Register :: "string list \<Rightarrow> scheme_Builder \<Rightarrow> scheme_Builder" where
  "Register objs b = b\<lparr>sb_types := sb_types b @ objs\<rparr>"

definition new_SchemeBuilder :: scheme_Builder where
  "new_SchemeBuilder = \<lparr>sb_GroupVersion = infra_GroupVersion, sb_types = []\<rparr>"

definition init_microvmcluster_types :: "scheme_Builder \<Rightarrow> scheme_Builder" where
  "init_microvmcluster_types = Register [''MicrovmCluster'', ''MicrovmClusterList'']"

definition init_microvmmachine_types :: "scheme_Builder \<Rightarrow> scheme_Builder" where
  "init_microvmmachine_types = Register [''MicrovmMachine'', ''MicrovmMachineList'']"

definition init_microvmmachinetemplate_types :: "scheme_Builder \<Rightarrow> scheme_Builder" where
  "init_microvmmachinetemplate_types = Register [''MicrovmMachineTemplate'', ''MicrovmMachineTemplateList'']"

text \<open>The package's builder after the \<open>init\<close> functions of its files, which run in the order of the files.\<close>

definition SchemeBuilder :: scheme_Builder where
  "SchemeBuilder = init_microvmmachinetemplate_types (init_microvmmachine_types (init_microvmcluster_types new_SchemeBuilder))"

text \<open>
  A scheme is the list of the kinds it knows. What \<open>AddToScheme\<close> of a builder does to a scheme, and
  what the schemes of the other modules add, are parameters.
\<close>

type_synonym scheme = "GroupVersionKind list"

definition AddToScheme :: "(scheme_Builder \<Rightarrow> scheme \<Rightarrow> scheme) \<Rightarrow> scheme \<Rightarrow> scheme" where
  "AddToScheme addTypes s = addTypes SchemeBuilder s"

text \<open>
  By their documentation both add kinds and remove none. (The builder adds more than the types it was given:
  the options and watch events of the group version.)
\<close>

definition adds_types :: "(scheme_Builder \<Rightarrow> scheme \<Rightarrow> scheme) \<Rightarrow> bool" where
  "adds_types addTypes \<longleftrightarrow> (\<forall>b s. set s \<union> WithKind (sb_GroupVersion b) ` set (sb_types b) \<subseteq> set (addTypes b s))"

definition grows_scheme :: "(scheme \<Rightarrow> scheme) \<Rightarrow> bool" where
  "grows_scheme add \<longleftrightarrow> (\<forall>s. set s \<subseteq> set (add s))"

section \<open>Defaulting functions\<close>

text \<open>
  The closures \<open>RegisterDefaults\<close> (\<^verbatim>\<open>zz_generated.defaults.go\<close>) gives to the scheme: they assert the type
  of the object, which panics for any other, and call the defaulter of the type.
\<close>

type_synonym defaulting_func = "(nat \<Rightarrow> string) \<Rightarrow> runtime_object \<Rightarrow> nat \<Rightarrow> (runtime_object \<times> nat) outcome"

fun default_machine_object :: defaulting_func where
  "default_machine_object macs (Obj_MicrovmMachine m) n =
     (let (m', n') = SetObjectDefaults_MicrovmMachine macs m n in Return (Obj_MicrovmMachine m', n'))"
| "default_machine_object macs _ n = Panic ''interface conversion''"

fun default_template_object :: defaulting_func where
  "default_template_object macs (Obj_MicrovmMachineTemplate t) n =
     (let (t', n') = SetObjectDefaults_MicrovmMachineTemplate macs t n in Return (Obj_MicrovmMachineTemplate t', n'))"
| "default_template_object macs _ n = Panic ''interface conversion''"

text \<open>\<open>AddTypeDefaultingFunc\<close> of the scheme is a parameter.\<close>

definition RegisterDefaults :: "(string \<Rightarrow> defaulting_func \<Rightarrow> 's \<Rightarrow> 's) \<Rightarrow> 's \<Rightarrow> error option \<times> 's" where
  "RegisterDefaults addTypeDefaultingFunc scheme =
     (None, addTypeDefaultingFunc ''MicrovmMachineTemplate'' default_template_object
        (addTypeDefaultingFunc ''MicrovmMachine'' default_machine_object scheme))"

text \<open>The scheme and the webhook would give a machine the same defaults.\<close>

lemma default_machine_object_webhook:
  "default_machine_object macs obj n =
     (case MicrovmMachine_Default macs obj n of
        (None, obj', n') \<Rightarrow> Return (obj', n')
      | (Some err, obj', n') \<Rightarrow> Panic ''interface conversion'')"
  by (cases obj) (simp_all add: MicrovmMachine_Default_def split: prod.splits)

section \<open>Controllers\<close>

text \<open>The objects a controller watches: the provider's own by their kind, or those of Cluster API.\<close>

datatype watched = Infra string | ClusterAPI string

datatype event_filter =
    ResourceNotPausedAndHasFilterLabel string
  | ResourceIsNotExternallyManaged
  | ClusterUnpaused
  | ClusterPausedTransitionsOrInfrastructureReady

text \<open>The functions that map an object to requests; the first three are made by Cluster API.\<close>

datatype map_func =
    MachineToInfrastructureMapFunc GroupVersionKind
  | ClusterToInfrastructureMapFunc GroupVersionKind
  | ClusterToTypedObjectsMapper string
  | MicroVMClusterToMicrovmMachineFunc

text \<open>\<open>controller.Options\<close>\<close>

record ControllerOptions =
  MaxConcurrentReconciles :: int
  RecoverPanic :: "bool option"

record controller_builder =
  cb_Options :: ControllerOptions
  cb_For :: watched
  cb_EventFilters :: "event_filter list"
  cb_Watches :: "(watched \<times> map_func \<times> event_filter list) list"

text \<open>
  The reconcilers: the value of the watch filter and the function they are given, by its name (nil when
  it is not set). Client, scheme and event recorder are those of the manager.
\<close>

record MicrovmMachineReconciler =
  mr_WatchFilterValue :: string
  mr_MvmClientFunc :: "string option"

record MicrovmClusterReconciler =
  cr_WatchFilterValue :: string
  cr_RemoteClientGetter :: "string option"

datatype reconciler = ClusterReconciler MicrovmClusterReconciler | MachineReconciler MicrovmMachineReconciler

text \<open>
  The calls of controller-runtime and Cluster API that can fail: making the mapper for a list type,
  completing a controller with its reconciler, and completing the webhook for a kind (with a validator,
  with a defaulter). The manager answers each of them.
\<close>

datatype registration =
    NewTypedObjectsMapper string
  | CompleteController controller_builder reconciler
  | CompleteWebhook string bool bool

type_synonym ctrl_mgr = "registration \<Rightarrow> error option"

definition machine_builder :: "MicrovmMachineReconciler \<Rightarrow> ControllerOptions \<Rightarrow> controller_builder" where
  "machine_builder r options =
     \<lparr>cb_Options = options,
      cb_For = Infra ''MicrovmMachine'',
      cb_EventFilters = [ResourceNotPausedAndHasFilterLabel (mr_WatchFilterValue r), ResourceIsNotExternallyManaged],
      cb_Watches =
        [(ClusterAPI ''Machine'', MachineToInfrastructureMapFunc (WithKind infra_GroupVersion ''MicrovmMachine''), []),
         (Infra ''MicrovmCluster'', MicroVMClusterToMicrovmMachineFunc, []),
         (ClusterAPI ''Cluster'', ClusterToTypedObjectsMapper ''MicrovmMachineList'',
            [ClusterPausedTransitionsOrInfrastructureReady])]\<rparr>"

definition MachineReconciler_SetupWithManager ::
  "ctrl_mgr \<Rightarrow> MicrovmMachineReconciler \<Rightarrow> ControllerOptions \<Rightarrow> error option \<times> registration list" where
  "MachineReconciler_SetupWithManager mgr r options =
     (let mapper = NewTypedObjectsMapper ''MicrovmMachineList'';
          complete = CompleteController (machine_builder r options) (MachineReconciler r)
      in case mgr mapper of
           Some err \<Rightarrow> (Some (Errorf ''failed to create mapper for Cluster to MicrovmMachines'' err), [mapper])
         | None \<Rightarrow> (map_option (Errorf ''creating microvm machine controller'') (mgr complete), [mapper, complete]))"

text \<open>The cluster controller makes sure that it has a getter for remote clients.\<close>

definition cluster_builder :: "MicrovmClusterReconciler \<Rightarrow> ControllerOptions \<Rightarrow> controller_builder" where
  "cluster_builder r options =
     \<lparr>cb_Options = options,
      cb_For = Infra ''MicrovmCluster'',
      cb_EventFilters = [ResourceNotPausedAndHasFilterLabel (cr_WatchFilterValue r), ResourceIsNotExternallyManaged],
      cb_Watches =
        [(ClusterAPI ''Cluster'', ClusterToInfrastructureMapFunc (WithKind infra_GroupVersion ''MicrovmCluster''),
            [ClusterUnpaused])]\<rparr>"

definition ClusterReconciler_SetupWithManager ::
  "ctrl_mgr \<Rightarrow> MicrovmClusterReconciler \<Rightarrow> ControllerOptions \<Rightarrow> error option \<times> registration list" where
  "ClusterReconciler_SetupWithManager mgr r options =
     (let r' = (if cr_RemoteClientGetter r = None then r\<lparr>cr_RemoteClientGetter := Some ''remote.NewClusterClient''\<rparr> else r);
          complete = CompleteController (cluster_builder r' options) (ClusterReconciler r')
      in (map_option (Errorf ''creating microvm cluster controller'') (mgr complete), [complete]))"

section \<open>Webhooks\<close>

definition MicrovmCluster_SetupWebhookWithManager :: "ctrl_mgr \<Rightarrow> error option \<times> registration list" where
  "MicrovmCluster_SetupWebhookWithManager mgr =
     (let complete = CompleteWebhook ''MicrovmCluster'' True True in (mgr complete, [complete]))"

definition MicrovmMachine_SetupWebhookWithManager :: "ctrl_mgr \<Rightarrow> error option \<times> registration list" where
  "MicrovmMachine_SetupWebhookWithManager mgr =
     (let complete = CompleteWebhook ''MicrovmMachine'' True True in (mgr complete, [complete]))"

definition MicrovmMachineTemplate_SetupWebhookWithManager :: "ctrl_mgr \<Rightarrow> error option \<times> registration list" where
  "MicrovmMachineTemplate_SetupWebhookWithManager mgr =
     (let complete = CompleteWebhook ''MicrovmMachineTemplate'' True False in (mgr complete, [complete]))"

lemmas setup_defs = MachineReconciler_SetupWithManager_def ClusterReconciler_SetupWithManager_def
  MicrovmCluster_SetupWebhookWithManager_def MicrovmMachine_SetupWebhookWithManager_def
  MicrovmMachineTemplate_SetupWebhookWithManager_def

section \<open>The kinds the registrations mention\<close>

fun infra_kind :: "watched \<Rightarrow> string list" where
  "infra_kind (Infra k) = [k]"
| "infra_kind (ClusterAPI k) = []"

text \<open>
  The kind of object whose reconciliation a map function asks for. The mapper of the machine controller
  names none: its requests are the names in the infrastructure references of the Machines, whatever
  kind those have.
\<close>

fun requested_kind :: "map_func \<Rightarrow> string option" where
  "requested_kind (MachineToInfrastructureMapFunc gvk) = Some (gvk_Kind gvk)"
| "requested_kind (ClusterToInfrastructureMapFunc gvk) = Some (gvk_Kind gvk)"
| "requested_kind (ClusterToTypedObjectsMapper l) = Some (take (length l - length ''List'') l)"
| "requested_kind MicroVMClusterToMicrovmMachineFunc = None"

text \<open>The kind a reconciler is for, and that it has the function it calls.\<close>

fun reconciler_kind :: "reconciler \<Rightarrow> string" where
  "reconciler_kind (ClusterReconciler r) = ''MicrovmCluster''"
| "reconciler_kind (MachineReconciler r) = ''MicrovmMachine''"

fun equipped :: "reconciler \<Rightarrow> bool" where
  "equipped (ClusterReconciler r) \<longleftrightarrow> cr_RemoteClientGetter r \<noteq> None"
| "equipped (MachineReconciler r) \<longleftrightarrow> mr_MvmClientFunc r \<noteq> None"

text \<open>A kind of the provider that the scheme knows.\<close>

definition known :: "scheme \<Rightarrow> string \<Rightarrow> bool" where
  "known s k \<longleftrightarrow> WithKind infra_GroupVersion k \<in> set s"

fun fits :: "scheme \<Rightarrow> registration \<Rightarrow> bool" where
  "fits s (NewTypedObjectsMapper l) \<longleftrightarrow> known s l"
| "fits s (CompleteController b r) \<longleftrightarrow>
     cb_For b = Infra (reconciler_kind r) \<and> known s (reconciler_kind r) \<and> equipped r \<and>
     list_all (\<lambda>(w, f, ps). list_all (known s) (infra_kind w) \<and> requested_kind f \<in> {None, Some (reconciler_kind r)}) (cb_Watches b)"
| "fits s (CompleteWebhook k v d) \<longleftrightarrow> known s k"

definition knows_types :: "scheme \<Rightarrow> bool" where
  "knows_types s \<longleftrightarrow> list_all (known s) (sb_types SchemeBuilder)"

lemma known_types:
  "knows_types s \<longleftrightarrow> known s ''MicrovmCluster'' \<and> known s ''MicrovmClusterList'' \<and> known s ''MicrovmMachine'' \<and>
     known s ''MicrovmMachineList'' \<and> known s ''MicrovmMachineTemplate'' \<and> known s ''MicrovmMachineTemplateList''"
  by (simp add: knows_types_def SchemeBuilder_def Register_def new_SchemeBuilder_def init_microvmcluster_types_def
      init_microvmmachine_types_def init_microvmmachinetemplate_types_def)

text \<open>Whatever is registered fits to a scheme with the types of the package.\<close>

lemma SetupWithManager_fits:
  assumes "knows_types s"
  shows "list_all (fits s) (snd (ClusterReconciler_SetupWithManager mgr c options))"
    and "mr_MvmClientFunc m \<noteq> None \<Longrightarrow> list_all (fits s) (snd (MachineReconciler_SetupWithManager mgr m options))"
  using assms
  by (auto simp: setup_defs cluster_builder_def machine_builder_def known_types WithKind_def Let_def split: option.split)

lemma SetupWebhookWithManager_fits:
  assumes "knows_types s"
  shows "list_all (fits s) (snd (MicrovmCluster_SetupWebhookWithManager mgr))"
    and "list_all (fits s) (snd (MicrovmMachine_SetupWebhookWithManager mgr))"
    and "list_all (fits s) (snd (MicrovmMachineTemplate_SetupWebhookWithManager mgr))"
  using assms by (simp_all add: setup_defs known_types Let_def)

lemma AddToScheme_knows:
  assumes "adds_types addTypes"
  shows "knows_types (AddToScheme addTypes s)"
proof -
  have "WithKind (sb_GroupVersion SchemeBuilder) ` set (sb_types SchemeBuilder) \<subseteq> set (AddToScheme addTypes s)"
    using assms by (simp add: adds_types_def AddToScheme_def)
  moreover have "sb_GroupVersion SchemeBuilder = infra_GroupVersion"
    by (simp add: SchemeBuilder_def Register_def new_SchemeBuilder_def init_microvmcluster_types_def
        init_microvmmachine_types_def init_microvmmachinetemplate_types_def)
  ultimately show ?thesis by (auto simp: knows_types_def known_def list_all_iff)
qed

lemma grown_knows:
  "list_all grows_scheme others \<Longrightarrow> knows_types s \<Longrightarrow> knows_types (fold (\<lambda>add s. add s) others s)"
  by (induction others arbitrary: s) (auto simp: knows_types_def known_def grows_scheme_def list_all_iff)

end
