(* ===== verification/Manager.thy ===== *)
theory Manager
  imports Registration
begin

text \<open>
  \<^verbatim>\<open>main.go\<close> and \<^verbatim>\<open>version/version.go\<close>: the flags, the options of the manager and the order in which the
  process is put together. What the process does with the outside (flags, logging setup, making and
  starting the manager, the registrations of \<open>Registration\<close>) are steps; whether a step fails, and what
  the command line makes of the flags, are parameters.
\<close>

section \<open>version/version.go\<close>

record Info =
  vi_Major :: string
  vi_Minor :: string
  vi_GitVersion :: string
  vi_GitCommit :: string
  vi_GitTreeState :: string
  vi_BuildDate :: string
  vi_GoVersion :: string
  vi_Compiler :: string
  vi_Platform :: string

text \<open>The variables set by the linker and the constants of the package \<open>runtime\<close>.\<close>

record build =
  gitMajor :: string
  gitMinor :: string
  gitVersion :: string
  gitCommit :: string
  gitTreeState :: string
  buildDate :: string
  rt_Version :: string
  rt_Compiler :: string
  rt_GOOS :: string
  rt_GOARCH :: string

definition Get_Info :: "build \<Rightarrow> Info" where
  "Get_Info b = \<lparr>vi_Major = gitMajor b, vi_Minor = gitMinor b, vi_GitVersion = gitVersion b,
     vi_GitCommit = gitCommit b, vi_GitTreeState = gitTreeState b, vi_BuildDate = buildDate b,
     vi_GoVersion = rt_Version b, vi_Compiler = rt_Compiler b,
     vi_Platform = rt_GOOS b @ ''/'' @ rt_GOARCH b\<rparr>"

definition Info_String :: "Info \<Rightarrow> string" where
  "Info_String info = vi_GitVersion info"

section \<open>Flags\<close>

text \<open>The package variables bound to flags; durations are in nanoseconds.\<close>

record Flags =
  enableLeaderElection :: bool
  leaderElectionNamespace :: string
  watchNamespace :: string
  profilerAddress :: string
  healthAddr :: string
  watchFilterValue :: string
  webhookCertDir :: string
  microvmClusterConcurrency :: int
  microvmMachineConcurrency :: int
  webhookPort :: int
  syncPeriod :: int
  leaderElectionLeaseDuration :: int
  leaderElectionRenewDeadline :: int
  leaderElectionRetryPeriod :: int

abbreviation Second :: int where
  "Second \<equiv> 1000000000"

definition defaultLeaderElectionDur :: int where "defaultLeaderElectionDur = 15 * Second"

definition defaultLeaderElectRenew :: int where "defaultLeaderElectRenew = 10 * Second"

definition defaultLeaderElectionRetry :: int where "defaultLeaderElectionRetry = 2 * Second"

definition defaultSyncPeriod :: int where "defaultSyncPeriod = 10 * 60 * Second"

definition defaultEventBurstSize :: int where "defaultEventBurstSize = 100"

definition defaultWebhookPort :: int where "defaultWebhookPort = 9443"

text \<open>
  \<open>initFlags\<close>: registering a flag gives its variable the default. The result is the values of the
  variables when no flag is given, with the names registered, in order, and then the functions of other
  modules that are called to add theirs.
\<close>

definition initFlags :: "Flags \<times> string list \<times> string list" where
  "initFlags =
     (\<lparr>enableLeaderElection = False, leaderElectionNamespace = '''', watchNamespace = '''',
       profilerAddress = '''', healthAddr = '':9440'', watchFilterValue = '''',
       webhookCertDir = ''/tmp/k8s-webhook-server/serving-certs'',
       microvmClusterConcurrency = 1, microvmMachineConcurrency = 1, webhookPort = defaultWebhookPort,
       syncPeriod = defaultSyncPeriod, leaderElectionLeaseDuration = defaultLeaderElectionDur,
       leaderElectionRenewDeadline = defaultLeaderElectRenew,
       leaderElectionRetryPeriod = defaultLeaderElectionRetry\<rparr>,
      [''leader-elect'', ''leader-elect-lease-duration'', ''leader-elect-renew-deadline'',
       ''leader-elect-retry-period'', ''namespace'', ''leader-election-namespace'', ''profiler-address'',
       ''watch-filter'', ''microvmcluster-concurrency'', ''microvmmachine-concurrency'', ''sync-period'',
       ''webhook-port'', ''webhook-cert-dir'', ''health-addr''],
      [''logs.AddFlags'', ''v1.AddFlags'', ''flags.AddManagerOptions''])"

section \<open>The scheme\<close>

text \<open>
  \<open>init\<close>: the scheme of the process, with the provider's own types first. What the schemes of the other
  modules add is a parameter.
\<close>

definition main_init :: "(scheme_Builder \<Rightarrow> scheme \<Rightarrow> scheme) \<Rightarrow> (scheme \<Rightarrow> scheme) list \<Rightarrow> scheme" where
  "main_init addTypes others = fold (\<lambda>add s. add s) others (AddToScheme addTypes [])"

section \<open>The manager\<close>

text \<open>
  \<open>ctrl.Options\<close>: a field that \<open>main\<close> does not set is nil (\<open>mo_LeaseDuration\<close>). \<open>mo_DefaultNamespaces\<close>
  has the keys of the map, nil for all namespaces.
\<close>

record Options =
  mo_Scheme :: scheme
  mo_Metrics :: string
  mo_LeaderElection :: bool
  mo_LeaderElectionResourceLock :: string
  mo_LeaderElectionID :: string
  mo_LeaderElectionNamespace :: string
  mo_LeaseDuration :: "int option"
  mo_RenewDeadline :: "int option"
  mo_RetryPeriod :: "int option"
  mo_DefaultNamespaces :: "string list option"
  mo_SyncPeriod :: "int option"
  mo_WebhookPort :: int
  mo_WebhookCertDir :: string
  mo_EventBurstSize :: int
  mo_HealthProbeBindAddress :: string

datatype step =
    InitFlags
  | SetFlag string string
  | RegisterFlag string
  | AddFlags string
  | AddGoFlagSet
  | Parse
  | ValidateAndApply
  | SetLogger
  | GetManagerOptions
  | ListenAndServe string
  | GetConfigOrDie
  | NewManager Options
  | InitFromRecorder string
  | SetupSignalHandler
  | Registers registration
  | AddReadyzCheck string
  | AddHealthzCheck string
  | Start string

text \<open>
  The outside: which step fails, what parsing the command line makes of the variables bound to flags (or
  the code with which \<open>pflag\<close> exits the process), and the metrics options that \<open>flags.GetManagerOptions\<close>
  returns (a pointer; its error is \<open>fails GetManagerOptions\<close>).
\<close>

record world =
  fails :: "step \<Rightarrow> error option"
  parsed :: "Flags \<Rightarrow> int + Flags"
  metricsOptions :: "string option"

datatype status = Exit int | Crash string

text \<open>The manager as the registrations see it.\<close>

abbreviation mgr_of :: "world \<Rightarrow> ctrl_mgr" where
  "mgr_of w \<equiv> \<lambda>r. fails w (Registers r)"

text \<open>
  \<open>setupReconcilers\<close>, \<open>setupWebhooks\<close> and \<open>addHealthChecks\<close>: the error and the steps taken. (The texts of
  the webhook errors have no blank after the colon in the source; the error is only logged.)
\<close>

definition main_cluster_reconciler :: "Flags \<Rightarrow> MicrovmClusterReconciler" where
  "main_cluster_reconciler f = \<lparr>cr_WatchFilterValue = watchFilterValue f, cr_RemoteClientGetter = None\<rparr>"

definition main_machine_reconciler :: "Flags \<Rightarrow> MicrovmMachineReconciler" where
  "main_machine_reconciler f =
     \<lparr>mr_WatchFilterValue = watchFilterValue f, mr_MvmClientFunc = Some ''client.NewFlintlockClient''\<rparr>"

definition setupReconcilers :: "world \<Rightarrow> Flags \<Rightarrow> error option \<times> step list" where
  "setupReconcilers w f =
     (let managerOptions = \<lparr>MaxConcurrentReconciles = microvmClusterConcurrency f, RecoverPanic = Some True\<rparr>;
          (err1, s1) = ClusterReconciler_SetupWithManager (mgr_of w) (main_cluster_reconciler f) managerOptions;
          (err2, s2) = MachineReconciler_SetupWithManager (mgr_of w) (main_machine_reconciler f) managerOptions
      in case err1 of
           Some err \<Rightarrow> (Some (Errorf ''unable to create microvm cluster controller'' err), map Registers s1)
         | None \<Rightarrow>
         case err2 of
           Some err \<Rightarrow> (Some (Errorf ''unable to create microvm machine controller'' err), map Registers (s1 @ s2))
         | None \<Rightarrow> (None, map Registers (s1 @ s2)))"

definition setupWebhooks :: "world \<Rightarrow> error option \<times> step list" where
  "setupWebhooks w =
     (let (err1, s1) = MicrovmCluster_SetupWebhookWithManager (mgr_of w);
          (err2, s2) = MicrovmMachine_SetupWebhookWithManager (mgr_of w);
          (err3, s3) = MicrovmMachineTemplate_SetupWebhookWithManager (mgr_of w)
      in case err1 of
           Some err \<Rightarrow> (Some (Errorf ''unable to setup MicrovmCluster webhook'' err), map Registers s1)
         | None \<Rightarrow>
         case err2 of
           Some err \<Rightarrow> (Some (Errorf ''unable to setup MicrovmMachine webhook'' err), map Registers (s1 @ s2))
         | None \<Rightarrow>
         case err3 of
           Some err \<Rightarrow> (Some (Errorf ''unable to setup MicrovmMachineTemplate webhook'' err), map Registers (s1 @ s2 @ s3))
         | None \<Rightarrow> (None, map Registers (s1 @ s2 @ s3)))"

definition addHealthChecks :: "world \<Rightarrow> error option \<times> step list" where
  "addHealthChecks w =
     (let s1 = AddReadyzCheck ''webhook''; s2 = AddHealthzCheck ''webhook''
      in case fails w s1 of
           Some err \<Rightarrow> (Some (Errorf ''unable to create ready check'' err), [s1])
         | None \<Rightarrow>
         case fails w s2 of
           Some err \<Rightarrow> (Some (Errorf ''unable to create healthz check'' err), [s1, s2])
         | None \<Rightarrow> (None, [s1, s2]))"

definition manager_options :: "scheme \<Rightarrow> string \<Rightarrow> Flags \<Rightarrow> Options" where
  "manager_options scheme metrics f =
     \<lparr>mo_Scheme = scheme, mo_Metrics = metrics, mo_LeaderElection = enableLeaderElection f,
      mo_LeaderElectionResourceLock = ''leases'', mo_LeaderElectionID = ''controller-leader-elect-capmvm'',
      mo_LeaderElectionNamespace = leaderElectionNamespace f, mo_LeaseDuration = None,
      mo_RenewDeadline = Some (leaderElectionRenewDeadline f),
      mo_RetryPeriod = Some (leaderElectionRetryPeriod f),
      mo_DefaultNamespaces = (if watchNamespace f \<noteq> '''' then Some [watchNamespace f] else None),
      mo_SyncPeriod = Some (syncPeriod f), mo_WebhookPort = webhookPort f,
      mo_WebhookCertDir = webhookCertDir f, mo_EventBurstSize = defaultEventBurstSize, mo_HealthProbeBindAddress = healthAddr f\<rparr>"

text \<open>
  \<open>main\<close>, first from the validation of the log options on, then as a whole. \<open>GetConfigOrDie\<close> is called
  twice and exits the process when it fails; an error of \<open>GetManagerOptions\<close> is logged and nothing else,
  and the options are then dereferenced. The errors of the two settings for \<open>klog\<close> are dropped.
\<close>

definition main_parsed :: "world \<Rightarrow> build \<Rightarrow> scheme \<Rightarrow> Flags \<Rightarrow> status \<times> step list" where
  "main_parsed w b s f =
     (if fails w ValidateAndApply \<noteq> None then (Exit 1, [ValidateAndApply])
      else
      let profiler = (if profilerAddress f \<noteq> '''' then [ListenAndServe (profilerAddress f)] else []);
          s1 = [ValidateAndApply, SetLogger, GetManagerOptions] @ profiler @ [GetConfigOrDie]
      in if fails w GetConfigOrDie \<noteq> None then (Exit 1, s1)
      else case metricsOptions w of
        None \<Rightarrow> (Crash ''nil pointer dereference'', s1 @ [GetConfigOrDie])
      | Some metrics \<Rightarrow>
      let s2 = s1 @ [GetConfigOrDie, NewManager (manager_options s metrics f)]
      in if fails w (NewManager (manager_options s metrics f)) \<noteq> None then (Exit 1, s2)
      else
      let s3 = s2 @ [InitFromRecorder ''microvm-controller'', SetupSignalHandler]; (err, rs) = setupReconcilers w f
      in if err \<noteq> None then (Exit 1, s3 @ rs)
      else
      let (err, ws) = setupWebhooks w
      in if err \<noteq> None then (Exit 1, s3 @ rs @ ws)
      else
      let (err, hs) = addHealthChecks w
      in if err \<noteq> None then (Exit 1, s3 @ rs @ ws @ hs)
      else
      let start = Start (Info_String (Get_Info b))
      in (if fails w start \<noteq> None then Exit 1 else Exit 0, s3 @ rs @ ws @ hs @ [start]))"

definition main :: "world \<Rightarrow> build \<Rightarrow> scheme \<Rightarrow> status \<times> step list" where
  "main w b s =
     (let (defaults, names, modules) = initFlags;
          s0 = [InitFlags, SetFlag ''legacy_stderr_threshold_behavior'' ''false'', SetFlag ''stderrthreshold'' ''INFO''] @
               map RegisterFlag names @ map AddFlags modules @ [AddGoFlagSet, Parse]
      in case parsed w defaults of
           Inl code \<Rightarrow> (Exit code, s0)
         | Inr f \<Rightarrow> let (status, xs) = main_parsed w b s f in (status, s0 @ xs))"

section \<open>Properties\<close>

text \<open>The steps of a start that meets no failure: before the registrations, the registrations, the rest.\<close>

definition flags_plan :: "step list" where
  "flags_plan = [InitFlags, SetFlag ''legacy_stderr_threshold_behavior'' ''false'', SetFlag ''stderrthreshold'' ''INFO''] @
     map RegisterFlag (fst (snd initFlags)) @ map AddFlags (snd (snd initFlags)) @ [AddGoFlagSet, Parse]"

definition opening_plan :: "scheme \<Rightarrow> string \<Rightarrow> Flags \<Rightarrow> step list" where
  "opening_plan s metrics f =
     [ValidateAndApply, SetLogger, GetManagerOptions] @
     (if profilerAddress f \<noteq> '''' then [ListenAndServe (profilerAddress f)] else []) @
     [GetConfigOrDie, GetConfigOrDie, NewManager (manager_options s metrics f), InitFromRecorder ''microvm-controller'',
      SetupSignalHandler]"

definition reconcilers_plan :: "Flags \<Rightarrow> step list" where
  "reconcilers_plan f =
     (let options = \<lparr>MaxConcurrentReconciles = microvmClusterConcurrency f, RecoverPanic = Some True\<rparr>;
          c = (main_cluster_reconciler f)\<lparr>cr_RemoteClientGetter := Some ''remote.NewClusterClient''\<rparr>;
          m = main_machine_reconciler f
      in [Registers (CompleteController (cluster_builder c options) (ClusterReconciler c)),
          Registers (NewTypedObjectsMapper ''MicrovmMachineList''),
          Registers (CompleteController (machine_builder m options) (MachineReconciler m))])"

definition webhooks_plan :: "step list" where
  "webhooks_plan =
     [Registers (CompleteWebhook ''MicrovmCluster'' True True), Registers (CompleteWebhook ''MicrovmMachine'' True True),
      Registers (CompleteWebhook ''MicrovmMachineTemplate'' True False)]"

definition checks_plan :: "step list" where
  "checks_plan = [AddReadyzCheck ''webhook'', AddHealthzCheck ''webhook'']"

definition startup_plan :: "scheme \<Rightarrow> string \<Rightarrow> build \<Rightarrow> Flags \<Rightarrow> step list" where
  "startup_plan s metrics b f =
     flags_plan @ opening_plan s metrics f @ reconcilers_plan f @ webhooks_plan @ checks_plan @ [Start (gitVersion b)]"

text \<open>
  The steps whose failure stops the start. (\<open>Parse\<close> is not among them: when it fails, the process ends
  there with the code of \<open>pflag\<close>.)
\<close>

fun fatal :: "step \<Rightarrow> bool" where
  "fatal InitFlags = False"
| "fatal (SetFlag _ _) = False"
| "fatal (RegisterFlag _) = False"
| "fatal (AddFlags _) = False"
| "fatal AddGoFlagSet = False"
| "fatal Parse = False"
| "fatal SetLogger = False"
| "fatal (InitFromRecorder _) = False"
| "fatal GetManagerOptions = False"
| "fatal (ListenAndServe _) = False"
| "fatal SetupSignalHandler = False"
| "fatal _ = True"

text \<open>
  A phase carries out its plan up to the first failure; the process as a whole does so, where the
  failures that are not fatal do not count.
\<close>

definition harmless :: "world \<Rightarrow> step \<Rightarrow> bool" where
  "harmless w x \<longleftrightarrow> (fatal x \<longrightarrow> fails w x = None)"

definition carries_out :: "world \<Rightarrow> step list \<Rightarrow> error option \<times> step list \<Rightarrow> bool" where
  "carries_out w plan r \<longleftrightarrow>
     (case fst r of
        None \<Rightarrow> snd r = plan \<and> list_all (harmless w) plan
      | Some err \<Rightarrow> snd r \<noteq> [] \<and> list_all (harmless w) (butlast (snd r)) \<and> fails w (last (snd r)) \<noteq> None \<and>
          (\<exists>todo. plan = snd r @ todo))"

definition starts_by :: "world \<Rightarrow> step list \<Rightarrow> status \<times> step list \<Rightarrow> bool" where
  "starts_by w plan r \<longleftrightarrow>
     (\<exists>todo. plan = snd r @ todo \<and> list_all (harmless w) (butlast (snd r)) \<and>
        (if fails w (last (snd r)) = None then fst r = Exit 0 \<and> todo = [] else fst r = Exit 1))"

lemma setupReconcilers_plan: "carries_out w (reconcilers_plan f) (setupReconcilers w f)"
  by (simp add: carries_out_def reconcilers_plan_def setupReconcilers_def setup_defs main_cluster_reconciler_def
      harmless_def Let_def split: option.split)

lemma setupWebhooks_plan: "carries_out w webhooks_plan (setupWebhooks w)"
  by (simp add: carries_out_def webhooks_plan_def setupWebhooks_def setup_defs harmless_def Let_def split: option.split)

lemma addHealthChecks_plan: "carries_out w checks_plan (addHealthChecks w)"
  by (simp add: carries_out_def checks_plan_def addHealthChecks_def harmless_def Let_def split: option.split)

lemma phase_next:
  assumes "carries_out w p (err, xs)" "list_all (harmless w) before" "\<exists>rest. plan = before @ p @ rest"
    and "err = None \<Longrightarrow> xs = p \<Longrightarrow> list_all (harmless w) (before @ xs) \<Longrightarrow> starts_by w plan r"
  shows "starts_by w plan (if err \<noteq> None then (Exit 1, before @ xs) else r)"
  using assms by (cases err) (auto simp: carries_out_def starts_by_def butlast_append)

lemma flags_plan_harmless: "list_all (harmless w) flags_plan"
  by (auto simp: flags_plan_def harmless_def list_all_iff)

lemma starts_by_after:
  assumes "starts_by w plan (st, xs)" "list_all (harmless w) before" "xs \<noteq> []"
  shows "starts_by w (before @ plan) (st, before @ xs)"
  using assms by (auto simp: starts_by_def butlast_append)

lemma main_parsed_plan:
  assumes "metricsOptions w = Some metrics"
  shows "starts_by w (opening_plan s metrics f @ reconcilers_plan f @ webhooks_plan @ checks_plan @ [Start (gitVersion b)])
    (main_parsed w b s f)" (is "starts_by w ?plan _")
proof -
  let ?o = "opening_plan s metrics f" and ?opts = "manager_options s metrics f"
  obtain err1 rs where rec: "setupReconcilers w f = (err1, rs)" by fastforce
  obtain err2 ws where web: "setupWebhooks w = (err2, ws)" by fastforce
  obtain err3 hs where chk: "addHealthChecks w = (err3, hs)" by fastforce
  note plans = setupReconcilers_plan [of w f, unfolded rec] setupWebhooks_plan [of w, unfolded web]
    addHealthChecks_plan [of w, unfolded chk]
  show ?thesis
  proof (cases "fails w ValidateAndApply = None \<and> fails w GetConfigOrDie = None \<and> fails w (NewManager ?opts) = None")
    case False
    then show ?thesis using assms
      by (auto simp: main_parsed_def opening_plan_def starts_by_def harmless_def Let_def)
  next
    case True
    then have o: "list_all (harmless w) ?o" by (simp add: opening_plan_def harmless_def)
    have main: "main_parsed w b s f =
        (if err1 \<noteq> None then (Exit 1, ?o @ rs) else if err2 \<noteq> None then (Exit 1, (?o @ rs) @ ws)
         else if err3 \<noteq> None then (Exit 1, ((?o @ rs) @ ws) @ hs)
         else (if fails w (Start (gitVersion b)) \<noteq> None then Exit 1 else Exit 0, ?o @ rs @ ws @ hs @ [Start (gitVersion b)]))"
      using True assms by (simp add: main_parsed_def opening_plan_def rec web chk Get_Info_def Info_String_def Let_def)
    show ?thesis unfolding main
      by (intro phase_next [OF plans(1) o] phase_next [OF plans(2)] phase_next [OF plans(3)])
         (simp_all add: starts_by_def butlast_append)
  qed
qed

lemma main_parsed_nonempty: "snd (main_parsed w b s f) \<noteq> []"
  by (simp add: main_parsed_def Let_def split: option.split prod.split)

lemma main_eq:
  "main w b s = (case parsed w (fst initFlags) of Inl code \<Rightarrow> (Exit code, flags_plan)
     | Inr f \<Rightarrow> (fst (main_parsed w b s f), flags_plan @ snd (main_parsed w b s f)))"
  by (simp add: main_def flags_plan_def case_prod_unfold Let_def split: sum.split)

text \<open>
  C36: the process starts in one order and stops at the first failure. When the command line is parsed and
  the metrics options are there, the steps taken are a prefix of the plan (the flags, log options,
  manager, the two controllers, the three webhooks, the two health checks, start); no step before the
  last one taken has failed fatally; the process ends with 0 exactly if the whole plan was carried out
  without a fatal failure, and otherwise with 1, after the step that failed.
\<close>

theorem main_startup:
  assumes "parsed w (fst initFlags) = Inr f" "metricsOptions w = Some metrics"
  shows "\<exists>todo. startup_plan s metrics b f = snd (main w b s) @ todo \<and>
    (\<forall>x \<in> set (butlast (snd (main w b s))). fatal x \<longrightarrow> fails w x = None) \<and>
    (if fails w (last (snd (main w b s))) = None then fst (main w b s) = Exit 0 \<and> todo = []
     else fst (main w b s) = Exit 1)"
proof -
  have "starts_by w (startup_plan s metrics b f) (main w b s)"
    using starts_by_after [of w _ "fst (main_parsed w b s f)" "snd (main_parsed w b s f)",
        OF _ flags_plan_harmless main_parsed_nonempty] main_parsed_plan [OF assms(2)] assms(1)
    by (simp add: main_eq startup_plan_def)
  then show ?thesis by (auto simp: starts_by_def harmless_def list_all_iff)
qed

text \<open>The world of a start without failures.\<close>

definition fx_world :: world where
  "fx_world = \<lparr>fails = (\<lambda>s. None), parsed = Inr, metricsOptions = Some '':8080''\<rparr>"

definition fx_build :: build where
  "fx_build = \<lparr>gitMajor = ''0'', gitMinor = ''1'', gitVersion = ''v0.1.0'', gitCommit = '''', gitTreeState = '''',
     buildDate = '''', rt_Version = ''go1.23'', rt_Compiler = ''gc'', rt_GOOS = ''linux'', rt_GOARCH = ''amd64''\<rparr>"

theorem main_startup_witness: "fst (main fx_world fx_build []) = Exit 0"
proof -
  have "parsed fx_world (fst initFlags) = Inr (fst initFlags)" "metricsOptions fx_world = Some '':8080''"
    by (simp_all add: fx_world_def)
  from main_startup [OF this, of "[]" fx_build] show ?thesis by (auto simp: fx_world_def)
qed

text \<open>No flag is registered twice, which would make \<open>pflag\<close> panic.\<close>

lemma initFlags_distinct: "distinct (fst (snd initFlags))"
  by (simp add: initFlags_def)

text \<open>
  Two flags have no effect on the process: the concurrency of the machine controller is that of
  the cluster flag, whatever the machine flag says, and the lease duration of the leader election is
  never passed on.
\<close>

lemma main_unused_flags:
  assumes "\<And>f. parsed w' f = map_sum id (\<lambda>f'. f'\<lparr>microvmMachineConcurrency := n, leaderElectionLeaseDuration := d\<rparr>) (parsed w f)"
    and "fails w' = fails w" "metricsOptions w' = metricsOptions w"
  shows "main w' b s = main w b s"
proof -
  let ?u = "\<lambda>f. f\<lparr>microvmMachineConcurrency := n, leaderElectionLeaseDuration := d\<rparr>"
  have opts: "manager_options s m (?u f) = manager_options s m f" for m f
    by (simp add: manager_options_def)
  have recs: "setupReconcilers w' (?u f) = setupReconcilers w f" for f
    by (simp add: setupReconcilers_def main_cluster_reconciler_def main_machine_reconciler_def assms(2))
  have rest: "setupWebhooks w' = setupWebhooks w" "addHealthChecks w' = addHealthChecks w"
    unfolding setupWebhooks_def addHealthChecks_def assms(2) by (rule refl)+
  have "main_parsed w' b s (?u f) = main_parsed w b s f" for f
    unfolding main_parsed_def opts recs rest assms(2,3) by simp
  then show ?thesis by (simp add: main_eq assms(1) split: sum.split)
qed

text \<open>
  Invalid manager flags crash the process. \<open>GetManagerOptions\<close> returns no metrics options with its
  error; the error is only logged, and the process then dereferences the missing options instead of
  exiting with 1.
\<close>

lemma main_invalid_metrics:
  assumes "parsed w (fst initFlags) = Inr f" "metricsOptions w = None" "fails w ValidateAndApply = None"
    "fails w GetConfigOrDie = None"
  shows "fst (main w b s) = Crash ''nil pointer dereference''"
  using assms by (simp add: main_eq main_parsed_def Let_def)

section \<open>The registrations\<close>

lemma main_init_knows:
  "adds_types addTypes \<Longrightarrow> list_all grows_scheme others \<Longrightarrow> knows_types (main_init addTypes others)"
  unfolding main_init_def by (simp add: AddToScheme_knows grown_knows)

fun registered :: "step \<Rightarrow> registration list" where
  "registered (Registers r) = [r]"
| "registered _ = []"

abbreviation registrations :: "step list \<Rightarrow> registration list" where
  "registrations xs \<equiv> concat (map registered xs)"

lemma registrations_Registers [simp]: "concat (map (registered \<circ> Registers) rs) = rs"
  by (induction rs) simp_all

lemma setupReconcilers_fits:
  assumes "knows_types s"
  shows "list_all (fits s) (registrations (snd (setupReconcilers w f)))"
proof -
  let ?options = "\<lparr>MaxConcurrentReconciles = microvmClusterConcurrency f, RecoverPanic = Some True\<rparr>"
  have "mr_MvmClientFunc (main_machine_reconciler f) \<noteq> None" by (simp add: main_machine_reconciler_def)
  note fits = SetupWithManager_fits(2) [OF assms this, of "mgr_of w" ?options]
    SetupWithManager_fits(1) [OF assms, of "mgr_of w" "main_cluster_reconciler f" ?options]
  then show ?thesis
    by (auto simp: setupReconcilers_def Let_def split: prod.split option.split)
qed

lemma setupWebhooks_fits: "knows_types s \<Longrightarrow> list_all (fits s) (registrations (snd (setupWebhooks w)))"
  using SetupWebhookWithManager_fits [where mgr = "mgr_of w"]
  by (auto simp: setupWebhooks_def Let_def split: prod.split option.split)

lemma addHealthChecks_fits: "list_all (fits s) (registrations (snd (addHealthChecks w)))"
  by (simp add: addHealthChecks_def Let_def split: option.split)

text \<open>
  C37: the registrations fit together. Whatever the process registers, it registers with a manager that has
  the scheme made by \<open>init\<close>, and every kind of the provider that is mentioned is a type of that scheme:
  the kinds a controller reconciles and watches, the list type of the mapper, the kinds with a webhook.
  Every map function of a controller that names a kind names the one which that controller reconciles, and its
  reconciler has the function it calls: the client factory of the machine controller and the remote
  client getter of the cluster controller, which only \<open>SetupWithManager\<close> sets.
\<close>

theorem registrations_consistent:
  assumes "adds_types addTypes" "list_all grows_scheme others"
  shows "list_all (fits (main_init addTypes others)) (registrations (snd (main w b (main_init addTypes others)))) \<and>
    (\<forall>opts. NewManager opts \<in> set (snd (main w b (main_init addTypes others))) \<longrightarrow> mo_Scheme opts = main_init addTypes others)"
proof -
  let ?s = "main_init addTypes others"
  have fits: "list_all (fits ?s) (registrations (snd (setupReconcilers w f)))"
    "list_all (fits ?s) (registrations (snd (setupWebhooks w)))" for f
    using main_init_knows [OF assms] by (simp_all only: setupReconcilers_fits setupWebhooks_fits)
  have flags: "registrations flags_plan = []" "NewManager opts \<notin> set flags_plan" for opts
    by (auto simp: flags_plan_def o_def)
  have "list_all (fits ?s) (registrations (snd (main_parsed w b ?s f)))" for f
    using fits(1) [of f] fits(2) addHealthChecks_fits [of ?s w] by (auto simp: main_parsed_def Let_def split: prod.split option.split)
  then have regs: "list_all (fits ?s) (registrations (snd (main w b ?s)))"
    by (simp add: main_eq flags(1) del: concat_eq_Nil_conv split: sum.split)
  have other: "NewManager opts \<notin> set (snd (setupReconcilers w f)) \<union> set (snd (setupWebhooks w)) \<union> set (snd (addHealthChecks w))" for opts f
    by (auto simp: setupReconcilers_def setupWebhooks_def addHealthChecks_def Let_def split: prod.split option.split)
  have "NewManager opts \<in> set (snd (main_parsed w b ?s f)) \<Longrightarrow> mo_Scheme opts = ?s" for opts f
    using other [of opts f] by (auto simp: main_parsed_def manager_options_def Let_def split: prod.splits option.splits if_splits)
  then have "NewManager opts \<in> set (snd (main w b ?s)) \<Longrightarrow> mo_Scheme opts = ?s" for opts
    using flags(2) by (auto simp: main_eq split: sum.splits)
  with regs show ?thesis by blast
qed

theorem registrations_consistent_witness:
  "fits (main_init (\<lambda>b s. s @ map (WithKind (sb_GroupVersion b)) (sb_types b @ [''WatchEvent'', ''ListOptions''])) [\<lambda>s. s])
     (CompleteWebhook ''MicrovmMachineTemplate'' True False)"
proof -
  have "adds_types (\<lambda>b s. s @ map (WithKind (sb_GroupVersion b)) (sb_types b @ [''WatchEvent'', ''ListOptions'']))" "list_all grows_scheme [\<lambda>s. s]"
    by (auto simp: adds_types_def grows_scheme_def)
  from registrations_consistent [OF this, of fx_world fx_build] show ?thesis
    by (simp add: main_eq main_parsed_def setupReconcilers_def setupWebhooks_def addHealthChecks_def setup_defs fx_world_def Let_def)
qed

end
