(* ===== verification/E2E_Utils.thy ===== *)
theory E2E_Utils
  imports Cluster_Controller Registration
begin

text \<open>
  \<^verbatim>\<open>test/e2e/utils\<close> except \<^verbatim>\<open>manager.go\<close>: the parameters of the end-to-end tests, the count of the failure
  domains that the machines of a cluster are spread over, and the template of a workload cluster with
  the flintlock hosts written into it. An assertion of Gomega that fails aborts the test, as a panic
  does. YAML, JSON, clusterctl and the API client are parameters.
\<close>

section \<open>defaults.go\<close>

definition DefaultE2EConfig :: string where "DefaultE2EConfig = ''config/e2e_conf.yaml''"

definition DefaultKubernetesVersion :: string where "DefaultKubernetesVersion = ''1.21.8''"

definition DefaultVIPAddress :: string where "DefaultVIPAddress = ''192.168.1.25''"

definition DefaultSkipCleanup :: bool where "DefaultSkipCleanup = False"

definition DefaultExistingCluster :: bool where "DefaultExistingCluster = False"

text \<open>The schemes that other modules add before and after the provider's own are parameters.\<close>

definition DefaultScheme :: "(scheme_Builder \<Rightarrow> scheme \<Rightarrow> scheme) \<Rightarrow> (scheme \<Rightarrow> scheme) \<Rightarrow> (scheme \<Rightarrow> scheme) \<Rightarrow> scheme" where
  "DefaultScheme addTypes tryAddDefaultSchemes cgscheme = cgscheme (AddToScheme addTypes (tryAddDefaultSchemes []))"

text \<open>
  \<open>filepath.Clean\<close> and \<open>filepath.Join\<close> of a Unix system: the elements of the path one after the other, on
  a stack of those that are kept.
\<close>

definition clean_step :: "bool \<Rightarrow> string list \<Rightarrow> string \<Rightarrow> string list" where
  "clean_step rooted kept e =
     (if e = '''' \<or> e = ''.'' then kept
      else if e = ''..'' then
        (if kept \<noteq> [] \<and> last kept \<noteq> ''..'' then butlast kept else if rooted then kept else kept @ [''..''])
      else kept @ [e])"

definition rooted_path :: "string \<Rightarrow> bool" where
  "rooted_path p \<longleftrightarrow> p \<noteq> '''' \<and> hd p = CHR ''/''"

definition clean_elements :: "string \<Rightarrow> string list" where
  "clean_elements p = foldl (clean_step (rooted_path p)) [] (Split p ''/'')"

definition print_path :: "bool \<Rightarrow> string list \<Rightarrow> string" where
  "print_path rooted es = (if rooted then CHR ''/'' # Join es ''/'' else if es = [] then ''.'' else Join es ''/'')"

definition Clean_path :: "string \<Rightarrow> string" where
  "Clean_path p = print_path (rooted_path p) (clean_elements p)"

definition Join_path :: "string list \<Rightarrow> string" where
  "Join_path elem = (case dropWhile (\<lambda>e. e = '''') elem of [] \<Rightarrow> '''' | es \<Rightarrow> Clean_path (Join es ''/''))"

definition DefaultArtefactDir :: "error + string \<Rightarrow> string" where
  "DefaultArtefactDir getwd = (case getwd of Inl err \<Rightarrow> '''' | Inr pwd \<Rightarrow> Join_path [pwd, ''_artefacts''])"

section \<open>params.go\<close>

record Params =
  E2EConfigPath :: string
  FlintlockHosts :: "string list"
  ArtefactDir :: string
  KubernetesVersion :: string
  VIPAddress :: string
  UseExistingCluster :: bool
  SkipCleanup :: bool

text \<open>The parameters when no flag is given, for what \<open>os.Getwd\<close> returns.\<close>

definition NewParams :: "error + string \<Rightarrow> Params" where
  "NewParams getwd =
     \<lparr>E2EConfigPath = DefaultE2EConfig, FlintlockHosts = [], ArtefactDir = DefaultArtefactDir getwd,
      KubernetesVersion = DefaultKubernetesVersion, VIPAddress = DefaultVIPAddress,
      UseExistingCluster = DefaultExistingCluster, SkipCleanup = DefaultSkipCleanup\<rparr>"

definition stringSlice_String :: "string list \<Rightarrow> string" where
  "stringSlice_String s = Join s '' ''"

definition stringSlice_Set :: "string \<Rightarrow> string list \<Rightarrow> error option \<times> string list" where
  "stringSlice_Set value s = (None, Split value '','')"

section \<open>utils.go\<close>

text \<open>
  \<open>SetEnvVar\<close> on the environment of the process and the output of the test. \<open>os.Setenv\<close> refuses a key that
  is empty or has an equals sign or a zero byte, and a value with a zero byte; its error is ignored.
\<close>

definition os_Setenv :: "string \<Rightarrow> string \<Rightarrow> (string \<rightharpoonup> string) \<Rightarrow> (string \<rightharpoonup> string)" where
  "os_Setenv key value vars =
     (if key = '''' \<or> CHR ''='' \<in> set key \<or> CHR 0x00 \<in> set (key @ value) then vars else vars(key \<mapsto> value))"

definition SetEnvVar ::
  "string \<Rightarrow> string \<Rightarrow> bool \<Rightarrow> (string \<rightharpoonup> string) \<times> string list \<Rightarrow> (string \<rightharpoonup> string) \<times> string list" where
  "SetEnvVar key value private = (\<lambda>(vars, output).
     let printableValue = (if \<not> private then value else ''*******'')
     in (os_Setenv key value vars,
         output @ [''Setting environment variable: key='' @ key @ '', value='' @ printableValue]))"

text \<open>\<open>FailureDomainSpread\<close>: the counts are the entries of the map in some order of its keys.\<close>

definition count_domain :: "string \<Rightarrow> (string \<times> int) list \<Rightarrow> (string \<times> int) list" where
  "count_domain fd counts = AList.update fd ((case map_of counts fd of None \<Rightarrow> 0 | Some n \<Rightarrow> n) + 1) counts"

fun spread_loop :: "Machine list \<Rightarrow> (string \<times> int) list \<Rightarrow> (string \<times> int) list outcome" where
  "spread_loop [] counts = Return counts"
| "spread_loop (machine # machines) counts =
     (case m_Spec_FailureDomain machine of
        Some fd \<Rightarrow> spread_loop machines (count_domain fd counts)
      | None \<Rightarrow>
      case m_Spec_ProviderID machine of
        Some pid \<Rightarrow>
          let providerID = ReplaceAll pid ProviderPrefix ''''; parts = Split providerID ''/''
          in bind_outcome (go_index parts 0) (\<lambda>fd. spread_loop machines (count_domain fd counts))
      | None \<Rightarrow> spread_loop machines counts)"

definition FailureDomainSpread ::
  "(string \<Rightarrow> string \<times> string \<Rightarrow> error + Machine list) \<Rightarrow> string \<Rightarrow> string \<Rightarrow> int outcome" where
  "FailureDomainSpread lister namespace clusterName =
     (case lister namespace (''cluster.x-k8s.io/cluster-name'', clusterName) of
        Inl err \<Rightarrow> Panic ''Couldn't list machines for the cluster''
      | Inr machines \<Rightarrow> bind_outcome (spread_loop machines []) (\<lambda>counts. Return (int (length counts))))"

text \<open>The deployment that the tests run in the workload cluster, as far as it is set.\<close>

record Deployment =
  dp_Name :: string
  dp_Namespace :: string
  dp_Selector :: "string \<rightharpoonup> string"
  dp_Replicas :: "int option"
  dp_TemplateLabels :: "string \<rightharpoonup> string"
  dp_Containers :: "(string \<times> string \<times> int list) list"

definition Nginx :: "string \<Rightarrow> string \<Rightarrow> int \<Rightarrow> Deployment" where
  "Nginx name namespace reps =
     \<lparr>dp_Name = name, dp_Namespace = namespace, dp_Selector = [''app'' \<mapsto> name], dp_Replicas = Some reps,
      dp_TemplateLabels = [''app'' \<mapsto> name], dp_Containers = [(''nginx'', ''nginx:1.14.2'', [80])]\<rparr>"

section \<open>clusterctl.go\<close>

text \<open>
  The conversions between YAML, JSON, unstructured objects and MicrovmClusters. The fields are the
  calls of the packages \<open>yaml\<close> and \<open>json\<close>; an unstructured object is of the type \<open>'o\<close>.
\<close>

record 'o conversions =
  cv_ToUnstructured :: "string \<Rightarrow> error + 'o list"
  cv_FromUnstructured :: "'o list \<Rightarrow> error + string"
  cv_kind :: "'o \<Rightarrow> string option"
  cv_Marshal_object :: "'o \<Rightarrow> error + string"
  cv_Unmarshal_object :: "string \<Rightarrow> error + 'o"
  cv_Marshal_cluster :: "MicrovmCluster \<Rightarrow> error + string"
  cv_Unmarshal_cluster :: "string \<Rightarrow> error + MicrovmCluster"

text \<open>\<open>Expect(err).NotTo(HaveOccurred())\<close>.\<close>

fun expect_success :: "error + 'a \<Rightarrow> 'a outcome" where
  "expect_success (Inr v) = Return v"
| "expect_success (Inl err) = Panic ''unexpected error''"

text \<open>The loop that looks for the MicrovmCluster: its bytes and its index, none and 0 if there is none.\<close>

fun find_cluster :: "'o conversions \<Rightarrow> nat \<Rightarrow> 'o list \<Rightarrow> (string \<times> nat) outcome" where
  "find_cluster cv i [] = Return ('''', 0)"
| "find_cluster cv i (obj # objs) =
     (if cv_kind cv obj = Some ''MicrovmCluster''
      then bind_outcome (expect_success (cv_Marshal_object cv obj)) (\<lambda>clusterBytes. Return (clusterBytes, i))
      else find_cluster cv (Suc i) objs)"

definition flintlock_hosts :: "string list \<Rightarrow> MicrovmHost list" where
  "flintlock_hosts addresses =
     foldl (\<lambda>hosts addr. hosts @ [\<lparr>host_Name = '''', host_Endpoint = addr, host_ControlPlaneAllowed = True\<rparr>]) [] addresses"

text \<open>\<open>mvmCluster.Spec.Placement.StaticPool.Hosts = hosts\<close>, through a pointer that may be nil.\<close>

definition set_hosts :: "MicrovmHost list \<Rightarrow> MicrovmCluster \<Rightarrow> MicrovmCluster outcome" where
  "set_hosts hosts c =
     (case pl_StaticPool (cs_Placement (mc_Spec c)) of
        None \<Rightarrow> Panic ''nil pointer dereference''
      | Some pool \<Rightarrow> Return (c\<lparr>mc_Spec := (mc_Spec c)\<lparr>cs_Placement := (cs_Placement (mc_Spec c))
          \<lparr>pl_StaticPool := Some (pool\<lparr>sp_Hosts := Some hosts\<rparr>)\<rparr>\<rparr>\<rparr>))"

definition addFlintlockHostsToTemplate :: "'o conversions \<Rightarrow> string list \<Rightarrow> string \<Rightarrow> string outcome" where
  "addFlintlockHostsToTemplate cv flintlockAddresses ymlBytes =
     bind_outcome (expect_success (cv_ToUnstructured cv ymlBytes)) (\<lambda>template.
     bind_outcome (find_cluster cv 0 template) (\<lambda>(clusterBytes, mvmClusterIndex).
     if clusterBytes = '''' then Panic ''MicrovmCluster object not found in generated template'' else
     bind_outcome (expect_success (cv_Unmarshal_cluster cv clusterBytes)) (\<lambda>mvmCluster.
     bind_outcome (set_hosts (flintlock_hosts flintlockAddresses) mvmCluster) (\<lambda>mvmCluster'.
     bind_outcome (expect_success (cv_Marshal_cluster cv mvmCluster')) (\<lambda>editedClusterBytes.
     bind_outcome (expect_success (cv_Unmarshal_object cv editedClusterBytes)) (\<lambda>editedTemplateObj.
     expect_success (cv_FromUnstructured cv (template[mvmClusterIndex := editedTemplateObj]))))))))"

text \<open>
  \<open>ApplyClusterTemplateAndWait\<close>. The proxy, the options and the intervals that are only passed on are
  handles. The result is what the pointer \<open>params.Result\<close> leads to; the calls of clusterctl are listed.
\<close>

record ConfigClusterInput =
  cci_KubeconfigPath :: string
  cci_ClusterctlConfigPath :: string
  cci_Flavor :: string
  cci_Namespace :: string
  cci_ClusterName :: string
  cci_KubernetesVersion :: string
  cci_ControlPlaneMachineCount :: "int option"
  cci_WorkerMachineCount :: "int option"
  cci_InfrastructureProvider :: string
  cci_LogFolder :: string

record passed_on =
  po_CNIManifestPath :: string
  po_WaitForClusterIntervals :: nat
  po_WaitForControlPlaneIntervals :: nat
  po_WaitForMachineDeployments :: nat
  po_WaitForMachinePools :: nat
  po_CreateOrUpdateOpts :: nat
  po_PreWaitForCluster :: nat
  po_PostMachinesProvisioned :: nat
  po_ControlPlaneWaiters :: nat

record ApplyClusterInput =
  ai_Hosts :: "string list"
  ai_ClusterProxy :: "nat option"
  ai_ConfigCluster :: ConfigClusterInput
  ai_passed_on :: passed_on
  ai_Result :: "(string \<times> string) option option"  \<comment> \<open>nil, or the name and namespace of \<open>result.Cluster\<close>\<close>

record ApplyCustomInput =
  ac_ClusterProxy :: nat
  ac_CustomTemplateYAML :: string
  ac_ClusterName :: string
  ac_Namespace :: string
  ac_Flavor :: string
  ac_passed_on :: passed_on

datatype clusterctl_call = ConfigCluster ConfigClusterInput | ApplyCustomClusterTemplateAndWait ApplyCustomInput

definition ApplyClusterTemplateAndWait ::
  "'o conversions \<Rightarrow> (ConfigClusterInput \<Rightarrow> string option) \<Rightarrow> nat option \<Rightarrow> ApplyClusterInput \<Rightarrow>
   unit outcome \<times> (string \<times> string) option option \<times> clusterctl_call list" where
  "ApplyClusterTemplateAndWait cv configCluster ctx params =
     (let cfg = ai_ConfigCluster params; result = ai_Result params;
          result' = Some (Some (cci_ClusterName cfg, cci_Namespace cfg)) in
      case (ctx, ai_ClusterProxy params, result, cci_ControlPlaneMachineCount cfg, cci_WorkerMachineCount cfg) of
        (Some _, Some proxy, Some _, Some _, Some _) \<Rightarrow>
          (case configCluster cfg of
             None \<Rightarrow> (Panic ''Failed to get the cluster template'', result', [ConfigCluster cfg])
           | Some template \<Rightarrow>
           case addFlintlockHostsToTemplate cv (ai_Hosts params) template of
             Panic p \<Rightarrow> (Panic p, result', [ConfigCluster cfg])
           | Return yml \<Rightarrow>
               (Return (), result',
                [ConfigCluster cfg, ApplyCustomClusterTemplateAndWait
                   \<lparr>ac_ClusterProxy = proxy, ac_CustomTemplateYAML = yml, ac_ClusterName = cci_ClusterName cfg,
                    ac_Namespace = cci_Namespace cfg, ac_Flavor = cci_Flavor cfg, ac_passed_on = ai_passed_on params\<rparr>]))
      | _ \<Rightarrow> (Panic ''Invalid argument'', result, []))"

section \<open>The spread over failure domains\<close>

text \<open>Where the test counts a machine.\<close>

definition counted_at :: "Machine \<Rightarrow> string option" where
  "counted_at machine =
     (case m_Spec_FailureDomain machine of
        Some fd \<Rightarrow> Some fd
      | None \<Rightarrow> map_option (\<lambda>pid. hd (Split (ReplaceAll pid ProviderPrefix '''') ''/'')) (m_Spec_ProviderID machine))"

lemma go_index_Split: "go_index (Split s sep) 0 = Return (hd (Split s sep))"
  by (simp add: go_index_def Split_ne hd_conv_nth)

lemma count_domain_keys:
  "fst ` set (count_domain fd counts) = insert fd (fst ` set counts)"
  "distinct (map fst counts) \<Longrightarrow> distinct (map fst (count_domain fd counts))"
proof -
  have "fst ` set (count_domain fd counts) = dom ((map_of counts)(fd \<mapsto> (case map_of counts fd of None \<Rightarrow> 0 | Some n \<Rightarrow> n) + 1))"
    by (simp only: count_domain_def dom_map_of_conv_image_fst flip: update_conv')
  then show "fst ` set (count_domain fd counts) = insert fd (fst ` set counts)"
    by (simp add: dom_map_of_conv_image_fst)
qed (simp add: count_domain_def distinct_update)

lemma spread_loop_counts:
  "distinct (map fst counts) \<Longrightarrow> \<exists>counts'. spread_loop machines counts = Return counts' \<and> distinct (map fst counts') \<and>
     fst ` set counts' = fst ` set counts \<union> {fd. \<exists>m \<in> set machines. counted_at m = Some fd}"
proof (induction machines arbitrary: counts)
  case (Cons machine machines)
  show ?case
  proof (cases "counted_at machine")
    case None
    then have "spread_loop (machine # machines) counts = spread_loop machines counts"
      by (simp add: counted_at_def split: option.splits)
    with Cons.IH [OF Cons.prems] None show ?thesis by auto
  next
    case (Some fd)
    then have "spread_loop (machine # machines) counts = spread_loop machines (count_domain fd counts)"
      by (auto simp: counted_at_def go_index_Split Let_def split: option.splits)
    with Cons.IH [OF count_domain_keys(2) [OF Cons.prems, of fd]] Some show ?thesis
      by (auto simp: count_domain_keys(1))
  qed
qed simp

lemma FailureDomainSpread_card:
  assumes "lister namespace (''cluster.x-k8s.io/cluster-name'', clusterName) = Inr machines"
  shows "FailureDomainSpread lister namespace clusterName = Return (int (card {fd. \<exists>m \<in> set machines. counted_at m = Some fd}))"
proof -
  obtain counts where counts: "spread_loop machines [] = Return counts" "distinct (map fst counts)"
    "fst ` set counts = {fd. \<exists>m \<in> set machines. counted_at m = Some fd}"
    using spread_loop_counts [of "[]" machines] by auto
  then have "length counts = card {fd. \<exists>m \<in> set machines. counted_at m = Some fd}"
    by (metis distinct_card length_map list.set_map)
  then show ?thesis using assms counts(1) by (simp add: FailureDomainSpread_def)
qed

lemma counted_at_GetFailureDomain:
  assumes "m_Spec_FailureDomain (sc_Machine m) \<noteq> Some ''''" "m_Spec_ProviderID (sc_Machine m) \<noteq> Some ''''"
    and "m_Spec_ProviderID (sc_Machine m) = machine_provider_id (sc_MvmMachine m)"
  shows "counted_at (sc_Machine m) = Some fd \<longleftrightarrow> \<not> unplaced m \<and> GetFailureDomain m = Return (Inr fd)"
proof (cases "unplaced m")
  case True
  with assms show ?thesis by (auto simp: counted_at_def unplaced_def GetProviderID_def split: option.splits)
next
  case False
  then show ?thesis
    using assms
    by (auto simp: GetFailureDomain_placed counted_at_def GetProviderID_def unplaced_def
        getFailureDomainFromProviderID_def Let_def split: option.splits)
qed

section \<open>Properties\<close>

text \<open>
  C35: the end-to-end test measures what it is meant to. When Cluster API has copied the provider id of every
  MicrovmMachine to its Machine and none of the fields is the empty string, \<open>FailureDomainSpread\<close> is the
  number of different failure domains at which the machine controller looks for the microvms of the
  machines that have been placed; it never panics once the machines could be listed.
\<close>

theorem spread_counts_hosts:
  assumes "lister namespace (''cluster.x-k8s.io/cluster-name'', clusterName) = Inr (map sc_Machine ms)"
    and "list_all (\<lambda>m. m_Spec_FailureDomain (sc_Machine m) \<noteq> Some '''' \<and> m_Spec_ProviderID (sc_Machine m) \<noteq> Some '''' \<and>
      m_Spec_ProviderID (sc_Machine m) = machine_provider_id (sc_MvmMachine m)) ms"
  shows "FailureDomainSpread lister namespace clusterName =
    Return (int (card {fd. \<exists>m \<in> set ms. \<not> unplaced m \<and> GetFailureDomain m = Return (Inr fd)}))"
proof -
  have "counted_at (sc_Machine m) = Some fd \<longleftrightarrow> \<not> unplaced m \<and> GetFailureDomain m = Return (Inr fd)" if "m \<in> set ms" for m fd
    by (rule counted_at_GetFailureDomain) (use assms(2) that in \<open>auto simp: list_all_iff\<close>)
  then have "{fd. \<exists>m \<in> set (map sc_Machine ms). counted_at m = Some fd} =
      {fd. \<exists>m \<in> set ms. \<not> unplaced m \<and> GetFailureDomain m = Return (Inr fd)}"
    by (simp cong: bex_cong)
  with FailureDomainSpread_card [of lister, OF assms(1)] show ?thesis by simp
qed

text \<open>Two machines: one with a failure domain of its own, one with a provider id.\<close>

definition fx_spread :: "MachineScope list" where
  "fx_spread = [fx_scope, SetProviderID ''127.0.0.2:9090'' ''ABCDEF''
     (fx_scope\<lparr>sc_Machine := fx_machine\<lparr>m_Spec_FailureDomain := None, m_Spec_ProviderID := Some ''microvm://127.0.0.2:9090/ABCDEF''\<rparr>\<rparr>)]"

theorem spread_counts_hosts_witness:
  "FailureDomainSpread (\<lambda>ns l. Inr (map sc_Machine fx_spread)) ''ns'' ''tenant1'' =
    Return (int (card {fd. \<exists>m \<in> set fx_spread. \<not> unplaced m \<and> GetFailureDomain m = Return (Inr fd)}))"
  by (rule spread_counts_hosts) (simp_all add: fx_spread_def scope_simps machine_parts ProviderPrefix_def fx_defs)

section \<open>The template of the workload cluster\<close>

text \<open>An unstructured object read as a MicrovmCluster, and a MicrovmCluster that survives being written and read.\<close>

definition reads_as :: "'o conversions \<Rightarrow> 'o \<Rightarrow> MicrovmCluster \<Rightarrow> bool" where
  "reads_as cv obj c \<longleftrightarrow> (\<exists>bytes. cv_Marshal_object cv obj = Inr bytes \<and> bytes \<noteq> '''' \<and> cv_Unmarshal_cluster cv bytes = Inr c)"

definition writes_as :: "'o conversions \<Rightarrow> MicrovmCluster \<Rightarrow> 'o \<Rightarrow> bool" where
  "writes_as cv c obj \<longleftrightarrow> (\<exists>bytes. cv_Marshal_cluster cv c = Inr bytes \<and> cv_Unmarshal_object cv bytes = Inr obj)"

lemma find_cluster_first:
  assumes "list_all (\<lambda>obj. cv_kind cv obj \<noteq> Some ''MicrovmCluster'') before" "cv_kind cv obj = Some ''MicrovmCluster''"
    and "cv_Marshal_object cv obj = Inr bytes"
  shows "find_cluster cv i (before @ obj # after) = Return (bytes, i + length before)"
  using assms by (induction before arbitrary: i) simp_all

lemma find_cluster_none:
  "list_all (\<lambda>obj. cv_kind cv obj \<noteq> Some ''MicrovmCluster'') template \<Longrightarrow> find_cluster cv i template = Return ('''', 0)"
  by (induction template arbitrary: i) simp_all

lemma flintlock_hosts_map:
  "flintlock_hosts addresses = map (\<lambda>addr. \<lparr>host_Name = '''', host_Endpoint = addr, host_ControlPlaneAllowed = True\<rparr>) addresses"
  by (induction addresses rule: rev_induct) (simp_all add: flintlock_hosts_def)

text \<open>
  The first MicrovmCluster of the template gets the hosts, at its place; all other objects stay as they
  are. What the cluster controller then publishes as failure domains are the addresses.
\<close>

lemma template_hosts:
  assumes "cv_ToUnstructured cv yml = Inr (before @ obj # after)"
    and "list_all (\<lambda>obj. cv_kind cv obj \<noteq> Some ''MicrovmCluster'') before" "cv_kind cv obj = Some ''MicrovmCluster''"
    and "reads_as cv obj c" "set_hosts (flintlock_hosts addresses) c = Return c'" "writes_as cv c' obj'"
  shows "addFlintlockHostsToTemplate cv addresses yml = expect_success (cv_FromUnstructured cv (before @ obj' # after))"
  using assms find_cluster_first [OF assms(2,3)]
  by (auto simp: addFlintlockHostsToTemplate_def reads_as_def writes_as_def)

lemma template_domains:
  assumes "set_hosts (flintlock_hosts addresses) c = Return c'"
  shows "\<exists>pool. pl_StaticPool (cs_Placement (mc_Spec c')) = Some pool \<and>
    fst ` set (host_domains (elems (sp_Hosts pool))) = set addresses \<and> mc_ObjectMeta c' = mc_ObjectMeta c"
  using assms by (auto simp: set_hosts_def keys_host_domains flintlock_hosts_map image_image split: option.splits)

text \<open>Without a MicrovmCluster, and with one that has no static pool, the test is aborted.\<close>

lemma template_aborts:
  "cv_ToUnstructured cv yml = Inr template \<Longrightarrow>
     list_all (\<lambda>obj. cv_kind cv obj \<noteq> Some ''MicrovmCluster'') template \<Longrightarrow>
     addFlintlockHostsToTemplate cv addresses yml = Panic ''MicrovmCluster object not found in generated template''"
  "cv_ToUnstructured cv yml = Inr (before @ obj # after) \<Longrightarrow>
     list_all (\<lambda>obj. cv_kind cv obj \<noteq> Some ''MicrovmCluster'') before \<Longrightarrow> cv_kind cv obj = Some ''MicrovmCluster'' \<Longrightarrow>
     reads_as cv obj c \<Longrightarrow> pl_StaticPool (cs_Placement (mc_Spec c)) = None \<Longrightarrow>
     addFlintlockHostsToTemplate cv addresses yml = Panic ''nil pointer dereference''"
  by (auto simp: addFlintlockHostsToTemplate_def find_cluster_none find_cluster_first reads_as_def set_hosts_def)

text \<open>
  The cluster to clean up is recorded whatever happens to the template, as soon as the arguments are
  valid; the edited template is the only thing that is not passed on as it was given.
\<close>

lemma ApplyCluster_records:
  assumes "ctx \<noteq> None" "ai_ClusterProxy params = Some proxy" "ai_Result params \<noteq> None"
    and "cci_ControlPlaneMachineCount (ai_ConfigCluster params) \<noteq> None"
    and "cci_WorkerMachineCount (ai_ConfigCluster params) \<noteq> None"
  shows "fst (snd (ApplyClusterTemplateAndWait cv configCluster ctx params)) =
    Some (Some (cci_ClusterName (ai_ConfigCluster params), cci_Namespace (ai_ConfigCluster params)))"
  using assms by (auto simp: ApplyClusterTemplateAndWait_def Let_def split: option.split outcome.split)

lemma ApplyCluster_applies:
  "fst (ApplyClusterTemplateAndWait cv configCluster ctx params) = Return () \<Longrightarrow>
     \<exists>proxy template yml. ai_ClusterProxy params = Some proxy \<and> configCluster (ai_ConfigCluster params) = Some template \<and>
       addFlintlockHostsToTemplate cv (ai_Hosts params) template = Return yml \<and>
       snd (snd (ApplyClusterTemplateAndWait cv configCluster ctx params)) =
         [ConfigCluster (ai_ConfigCluster params), ApplyCustomClusterTemplateAndWait
            \<lparr>ac_ClusterProxy = proxy, ac_CustomTemplateYAML = yml, ac_ClusterName = cci_ClusterName (ai_ConfigCluster params),
             ac_Namespace = cci_Namespace (ai_ConfigCluster params), ac_Flavor = cci_Flavor (ai_ConfigCluster params),
             ac_passed_on = ai_passed_on params\<rparr>]"
  by (auto simp: ApplyClusterTemplateAndWait_def Let_def split: option.splits outcome.splits)

section \<open>Parameters and environment\<close>

text \<open>A list of hosts given as a flag is read back, provided that no host has a comma.\<close>

lemma stringSlice_roundtrip:
  "hosts \<noteq> [] \<Longrightarrow> list_all (\<lambda>host. CHR '','' \<notin> set host) hosts \<Longrightarrow> stringSlice_Set (Join hosts '','') old = (None, hosts)"
proof (induction hosts)
  case (Cons host hosts)
  then show ?case
    by (cases "hosts = []") (auto simp: stringSlice_Set_def Join_Cons Split_single_miss Split_single_hit)
qed simp

text \<open>An empty flag is one host with an empty address, not no host.\<close>

lemma stringSlice_empty: "stringSlice_Set '''' old = (None, [''''])"
  by (simp add: stringSlice_Set_def Split_single_miss)

text \<open>A private value does not reach the output.\<close>

lemma SetEnvVar_private: "snd (SetEnvVar key value True s) = snd (SetEnvVar key value' True s)"
  by (simp add: SetEnvVar_def Let_def split: prod.split)

lemma DefaultScheme_knows:
  "adds_types addTypes \<Longrightarrow> grows_scheme cgscheme \<Longrightarrow> knows_types (DefaultScheme addTypes tryAdd cgscheme)"
  using grown_knows [of "[cgscheme]"] by (simp add: DefaultScheme_def AddToScheme_knows)

section \<open>The directory for artefacts\<close>

text \<open>What is kept: proper elements, and the step up only at the beginning of a path that is not rooted.\<close>

definition proper :: "string \<Rightarrow> bool" where
  "proper e \<longleftrightarrow> e \<noteq> '''' \<and> e \<noteq> ''.'' \<and> CHR ''/'' \<notin> set e"

definition kept_ok :: "bool \<Rightarrow> string list \<Rightarrow> bool" where
  "kept_ok rooted es \<longleftrightarrow> list_all proper es \<and>
     (\<exists>n xs. es = replicate n ''..'' @ xs \<and> ''..'' \<notin> set xs \<and> (rooted \<longrightarrow> n = 0))"

lemma kept_okI:
  assumes "es = replicate n ''..'' @ xs" "list_all proper es" "''..'' \<notin> set xs" "rooted \<Longrightarrow> n = 0"
  shows "kept_ok rooted es"
  using assms unfolding kept_ok_def by blast

lemma clean_step_ok:
  assumes "kept_ok rooted kept" "CHR ''/'' \<notin> set e"
  shows "kept_ok rooted (clean_step rooted kept e)"
proof -
  obtain n xs where kept: "kept = replicate n ''..'' @ xs" "''..'' \<notin> set xs" "rooted \<longrightarrow> n = 0" and p: "list_all proper kept"
    using assms(1) unfolding kept_ok_def by blast
  consider (skip) "e = '''' \<or> e = ''.''" | (up) "e = ''..''" "xs = []" | (pop) "e = ''..''" "xs \<noteq> []"
    | (push) "e \<noteq> ''''" "e \<noteq> ''.''" "e \<noteq> ''..''" by blast
  then show ?thesis
  proof cases
    case skip
    then show ?thesis using assms(1) by (simp add: clean_step_def)
  next
    case up
    have "kept_ok rooted (kept @ [''..''])" if "\<not> rooted"
      by (rule kept_okI [of _ "Suc n" "[]"]) (use that p kept(1) up in \<open>simp_all add: proper_def replicate_append_same\<close>)
    moreover have "last kept = ''..''" if "kept \<noteq> []" using that up(2) kept(1) by (cases n) auto
    ultimately show ?thesis using up(1) assms(1) by (auto simp: clean_step_def)
  next
    case pop
    then have "last kept \<in> set xs" "kept \<noteq> []" "butlast kept = replicate n ''..'' @ butlast xs"
      using kept(1) by (simp_all add: butlast_append)
    moreover have "list_all proper (butlast kept)" using p by (auto simp: list_all_iff dest: in_set_butlastD)
    with calculation(3) have "kept_ok rooted (butlast kept)"
      by (rule kept_okI) (use kept(2,3) in \<open>auto dest: in_set_butlastD\<close>)
    ultimately show ?thesis using pop(1) kept(2) by (auto simp: clean_step_def)
  next
    case push
    have "kept_ok rooted (kept @ [e])"
      by (rule kept_okI [of _ n "xs @ [e]"]) (use kept p push assms(2) in \<open>simp_all add: proper_def\<close>)
    then show ?thesis using push by (simp add: clean_step_def)
  qed
qed

lemma clean_elements_ok: "kept_ok (rooted_path p) (clean_elements p)"
proof -
  have "kept_ok b (foldl (clean_step b) [] es)" if "\<And>e. e \<in> set es \<Longrightarrow> CHR ''/'' \<notin> set e" for es b
    using that
  proof (induction es rule: rev_induct)
    case Nil
    show ?case by (simp add: kept_ok_def)
  next
    case (snoc e es)
    then show ?case by (simp add: clean_step_ok)
  qed
  then show ?thesis by (simp add: clean_elements_def Split_no_sep)
qed

lemma clean_elements_fixed:
  assumes "kept_ok rooted es"
  shows "foldl (clean_step rooted) [] es = es"
  using assms
proof (induction es rule: rev_induct)
  case Nil
  show ?case by simp
next
  case (snoc e es)
  obtain n xs where es: "es @ [e] = replicate n ''..'' @ xs" "''..'' \<notin> set xs" "rooted \<longrightarrow> n = 0" and p: "list_all proper (es @ [e])"
    using snoc.prems unfolding kept_ok_def by blast
  show ?case
  proof (cases xs rule: rev_cases)
    case Nil
    then have "n \<noteq> 0" using es(1) by (cases n) auto
    then have n: "n \<noteq> 0" "\<not> rooted" using es(3) by auto
    then have "es @ [e] = replicate (n - 1) ''..'' @ [''..'']"
      using es(1) Nil by (simp add: replicate_append_same flip: replicate_Suc)
    then have n: "e = ''..''" "es = replicate (n - 1) ''..''" "n \<noteq> 0" "\<not> rooted" using n by simp_all
    have "kept_ok rooted es" by (rule kept_okI [of _ "n - 1" "[]"]) (use n p in simp_all)
    moreover have "es \<noteq> [] \<Longrightarrow> last es = ''..''" using n(2) by (cases "n - 1") auto
    ultimately show ?thesis using snoc.IH n(1,4) by (auto simp: clean_step_def)
  next
    case (snoc xs' e')
    then have e: "e = e'" "es = replicate n ''..'' @ xs'" using es(1) by auto
    have "kept_ok rooted es" by (rule kept_okI [of _ n xs']) (use e es(2,3) snoc p in simp_all)
    moreover have "e \<noteq> ''..''" using es(2) snoc e by auto
    ultimately show ?thesis using \<open>kept_ok rooted es \<Longrightarrow> _\<close> p by (simp add: clean_step_def proper_def)
  qed
qed

lemma clean_step_skip: "clean_step b kept '''' = kept" "clean_step b kept ''.'' = kept"
  by (simp_all add: clean_step_def)

lemma print_path_rooted:
  assumes "kept_ok b es"
  shows "rooted_path (print_path b es) = b"
proof (cases es)
  case (Cons e es')
  then have "proper e" using assms by (simp add: kept_ok_def)
  then have "e \<noteq> ''''" "hd e \<noteq> CHR ''/''" unfolding proper_def by (auto dest: hd_in_set)
  then show ?thesis using Cons hd_Join [of e es' "''/''"] by (simp add: rooted_path_def print_path_def)
qed (simp add: rooted_path_def print_path_def)

text \<open>A cleaned path has the elements that were kept, so cleaning it again changes nothing.\<close>

lemma clean_elements_print:
  assumes "kept_ok b es"
  shows "clean_elements (print_path b es) = es"
proof -
  have sep: "CHR ''/'' \<notin> set e" if "e \<in> set es" for e using that assms by (auto simp: kept_ok_def proper_def list_all_iff)
  have root: "Split (CHR ''/'' # p) ''/'' = '''' # Split p ''/''" for p using Split_single_hit [of "CHR ''/''" "''''"] by simp
  have "foldl (clean_step b) [] (Split (print_path b es) ''/'') = foldl (clean_step b) [] es"
    using Split_Join [of es "CHR ''/''"] sep by (cases "es = []") (auto simp: print_path_def root Split_single_miss clean_step_skip)
  then show ?thesis using clean_elements_fixed [OF assms] print_path_rooted [OF assms] by (simp add: clean_elements_def)
qed

lemma Clean_path_idem: "Clean_path (Clean_path p) = Clean_path p"
  using clean_elements_print [OF clean_elements_ok] print_path_rooted [OF clean_elements_ok] by (simp add: Clean_path_def)

text \<open>
  The directory for the artefacts: empty when there is no working directory, and otherwise the
  subdirectory \<^verbatim>\<open>_artefacts\<close> of the cleaned working directory.
\<close>

lemma DefaultArtefactDir_result:
  "DefaultArtefactDir (Inl err) = ''''"
  "rooted_path pwd \<Longrightarrow> DefaultArtefactDir (Inr pwd) =
     (if Clean_path pwd = ''/'' then ''/_artefacts'' else Clean_path pwd @ ''/_artefacts'')"
proof -
  show "DefaultArtefactDir (Inl err) = ''''" by (simp add: DefaultArtefactDir_def)
  assume r: "rooted_path pwd"
  let ?e = "''_artefacts''"
  have ne: "pwd \<noteq> ''''" and r': "rooted_path (pwd @ CHR ''/'' # ?e)" using r by (auto simp: rooted_path_def)
  have "clean_elements (pwd @ CHR ''/'' # ?e) = clean_elements pwd @ [?e]"
    using r r' by (simp add: clean_elements_def Split_snoc) (simp add: clean_step_def)
  then have d: "DefaultArtefactDir (Inr pwd) = CHR ''/'' # Join (clean_elements pwd @ [?e]) ''/''"
    using ne r' by (simp add: DefaultArtefactDir_def Join_path_def Clean_path_def print_path_def)
  have "Join es ''/'' \<noteq> ''''" if "es \<noteq> []" "list_all proper es" for es
    using that hd_Join [of "hd es" "tl es"] by (cases es) (auto simp: proper_def)
  then have "clean_elements pwd = [] \<longleftrightarrow> Clean_path pwd = ''/''"
    using clean_elements_ok [of pwd] r by (auto simp: Clean_path_def print_path_def kept_ok_def)
  then show "DefaultArtefactDir (Inr pwd) = (if Clean_path pwd = ''/'' then ''/_artefacts'' else Clean_path pwd @ ''/_artefacts'')"
    using d r Join_snoc [of "clean_elements pwd" ?e "''/''"] by (auto simp: Clean_path_def print_path_def)
qed

end
