(* ===== verification/E2E_Manager.thy ===== *)
theory E2E_Manager
  imports E2E_Utils
begin

text \<open>
  \<^verbatim>\<open>test/e2e/utils/manager.go\<close>: the management cluster of the end-to-end tests, prepared before the suite
  and taken down after it. A method takes the manager and the calls made so far and returns its outcome
  (a failed assertion aborts it), the manager it leaves and the calls; what the calls return is a
  parameter.
\<close>

section \<open>State\<close>

record E2EConfig =
  ec_ManagementClusterName :: string
  ec_Images :: "string list"
  ec_Providers :: "(string \<times> string) list"  \<comment> \<open>name and type\<close>

text \<open>Cluster providers and cluster proxies are handles.\<close>

record EnvManager =
  em_Params :: Params
  em_Cfg :: "E2EConfig option"
  em_ClusterProxy :: "nat option"
  em_ClusterProvider :: "nat option"
  em_ClusterctlCfg :: string
  em_KubeconfigPath :: string

record kind_input =
  ki_Name :: string
  ki_RequiresDockerSock :: bool
  ki_Images :: "string list"
  ki_LogFolder :: string

record init_input =
  ii_ClusterProxy :: "nat option"
  ii_ClusterctlConfigPath :: string
  ii_BootstrapProviders :: "string list"
  ii_ControlPlaneProviders :: "string list"
  ii_InfrastructureProviders :: "string list"
  ii_LogFolder :: string

datatype e2e_call =
    LoadE2EConfig string
  | NewDockerClient
  | PullContainerImageIfNotExists string
  | CreateKindBootstrapClusterAndLoadImages kind_input
  | NewClusterProxy string string
  | CreateRepository E2EConfig string
  | InitManagementCluster init_input nat
  | DisposeProvider nat
  | DisposeProxy nat

record e2e_world =
  ew_ExistingFile :: "string \<Rightarrow> bool"
  ew_LoadE2EConfig :: "string \<Rightarrow> E2EConfig option"
  ew_NewDockerClient :: "error option"
  ew_PullImage :: "string \<Rightarrow> error option"
  ew_HasDockerProvider :: "E2EConfig \<Rightarrow> bool"
  ew_InfrastructureProviders :: "E2EConfig \<Rightarrow> string list"
  ew_GetIntervals :: "E2EConfig \<Rightarrow> string \<Rightarrow> string \<Rightarrow> nat"
  ew_CreateKind :: "kind_input \<Rightarrow> nat option"
  ew_GetKubeconfigPath :: "nat \<Rightarrow> string"
  ew_NewClusterProxy :: "string \<Rightarrow> string \<Rightarrow> nat option"
  ew_GetName :: "nat \<Rightarrow> string"
  ew_CreateRepository :: "E2EConfig \<Rightarrow> string \<Rightarrow> string"

type_synonym e2e_state = "EnvManager \<times> e2e_call list"
type_synonym e2e = "e2e_state \<Rightarrow> unit outcome \<times> e2e_state"

text \<open>One statement after the other, an assertion, a call, an assignment.\<close>

definition seq :: "e2e \<Rightarrow> e2e \<Rightarrow> e2e" where
  "seq a b s = (case a s of (Return _, s') \<Rightarrow> b s' | (Panic p, s') \<Rightarrow> (Panic p, s'))"

definition expect :: "(EnvManager \<Rightarrow> bool) \<Rightarrow> string \<Rightarrow> e2e" where
  "expect P msg s = (if P (fst s) then Return () else Panic msg, s)"

definition make_call :: "e2e_call \<Rightarrow> e2e" where
  "make_call c s = (Return (), fst s, snd s @ [c])"

definition assign :: "(EnvManager \<Rightarrow> EnvManager) \<Rightarrow> e2e" where
  "assign f s = (Return (), f (fst s), snd s)"

text \<open>The rest of a function that goes on with the manager's configuration, or with a value that may be nil.\<close>

definition with_Cfg :: "(E2EConfig \<Rightarrow> e2e) \<Rightarrow> e2e" where
  "with_Cfg f s = (case em_Cfg (fst s) of None \<Rightarrow> (Panic ''nil pointer dereference'', s) | Some cfg \<Rightarrow> f cfg s)"

definition with_Params :: "(Params \<Rightarrow> e2e) \<Rightarrow> e2e" where
  "with_Params f s = f (em_Params (fst s)) s"

section \<open>Operations\<close>

definition NewEnvManager :: "Params \<Rightarrow> EnvManager" where
  "NewEnvManager p = \<lparr>em_Params = p, em_Cfg = None, em_ClusterProxy = None, em_ClusterProvider = None,
     em_ClusterctlCfg = '''', em_KubeconfigPath = ''''\<rparr>"

definition validateInput :: "e2e_world \<Rightarrow> e2e" where
  "validateInput w =
     seq (expect (\<lambda>m. FlintlockHosts (em_Params m) \<noteq> []) ''At least one address for a flintlock server is required.'')
    (seq (expect (\<lambda>m. ew_ExistingFile w (E2EConfigPath (em_Params m))) ''A valid path to a clusterctl.E2EConfig is required.'')
         (expect (\<lambda>m. ArtefactDir (em_Params m) \<noteq> '''') ''A valid path for the test artefacts folder is required.''))"

definition loadE2EConfig :: "e2e_world \<Rightarrow> e2e" where
  "loadE2EConfig w = with_Params (\<lambda>p.
     seq (make_call (LoadE2EConfig (E2EConfigPath p)))
         (assign (em_Cfg_update (\<lambda>_. ew_LoadE2EConfig w (E2EConfigPath p)))))"

fun pull_loop :: "e2e_world \<Rightarrow> string list \<Rightarrow> e2e" where
  "pull_loop w [] = (\<lambda>s. (Return (), s))"
| "pull_loop w (img # imgs) =
     (if Contains img ''microvm:e2e'' then pull_loop w imgs
      else seq (make_call (PullContainerImageIfNotExists img))
          (seq (expect (\<lambda>m. ew_PullImage w img = None) ''pulling the image failed'') (pull_loop w imgs)))"

definition pullImages :: "e2e_world \<Rightarrow> e2e" where
  "pullImages w =
     seq (make_call NewDockerClient)
    (seq (expect (\<lambda>m. ew_NewDockerClient w = None) ''unexpected error'')
         (with_Cfg (\<lambda>cfg. pull_loop w (ec_Images cfg))))"

text \<open>Making the kind cluster: the provider is remembered before its kubeconfig is asked for.\<close>

definition create_kind :: "e2e_world \<Rightarrow> e2e" where
  "create_kind w = with_Params (\<lambda>p. with_Cfg (\<lambda>cfg.
     let bootInput = \<lparr>ki_Name = ec_ManagementClusterName cfg, ki_RequiresDockerSock = ew_HasDockerProvider w cfg,
                      ki_Images = ec_Images cfg, ki_LogFolder = ArtefactDir p @ ''/logs/bootstrap''\<rparr>
     in seq (make_call (CreateKindBootstrapClusterAndLoadImages bootInput))
       (seq (assign (em_ClusterProvider_update (\<lambda>_. ew_CreateKind w bootInput)))
            (expect (\<lambda>m. em_ClusterProvider m \<noteq> None) ''nil pointer dereference''))))"

definition bootstrapLocalKind :: "e2e_world \<Rightarrow> e2e" where
  "bootstrapLocalKind w = with_Params (\<lambda>p.
     seq (if \<not> UseExistingCluster p then seq (pullImages w) (create_kind w) else (\<lambda>s. (Return (), s)))
         (\<lambda>s. let kubeconfigPath = (if \<not> UseExistingCluster p
                    then ew_GetKubeconfigPath w (the (em_ClusterProvider (fst s))) else '''')
              in seq (make_call (NewClusterProxy ''bootstrap'' kubeconfigPath))
                     (assign (\<lambda>m. m\<lparr>em_ClusterProxy := ew_NewClusterProxy w ''bootstrap'' kubeconfigPath,
                                    em_KubeconfigPath := kubeconfigPath\<rparr>)) s))"

definition createClusterctlRepo :: "e2e_world \<Rightarrow> e2e" where
  "createClusterctlRepo w = with_Params (\<lambda>p. with_Cfg (\<lambda>cfg.
     seq (make_call (CreateRepository cfg (ArtefactDir p @ ''/clusterctl'')))
         (assign (em_ClusterctlCfg_update (\<lambda>_. ew_CreateRepository w cfg (ArtefactDir p @ ''/clusterctl''))))))"

fun providers :: "E2EConfig \<Rightarrow> string \<Rightarrow> string list" where
  "providers cfg providerType =
     foldl (\<lambda>pList (name, ty). if ty = providerType then pList @ [name] else pList) [] (ec_Providers cfg)"

definition initKindCluster :: "e2e_world \<Rightarrow> e2e" where
  "initKindCluster w = with_Params (\<lambda>p. with_Cfg (\<lambda>cfg s.
     case em_ClusterProxy (fst s) of
       None \<Rightarrow> (Panic ''nil pointer dereference'', s)
     | Some proxy \<Rightarrow> make_call (InitManagementCluster
         \<lparr>ii_ClusterProxy = Some proxy, ii_ClusterctlConfigPath = em_ClusterctlCfg (fst s),
          ii_BootstrapProviders = providers cfg ''BootstrapProvider'',
          ii_ControlPlaneProviders = providers cfg ''ControlPlaneProvider'',
          ii_InfrastructureProviders = ew_InfrastructureProviders w cfg, ii_LogFolder = ArtefactDir p @ ''/logs''\<rparr>
         (ew_GetIntervals w cfg (ew_GetName w proxy) ''wait-controllers'')) s))"

text \<open>
  \<open>Setup\<close>. The assertion that the path of the kubeconfig is not nil compares a string with nil and so
  always holds.
\<close>

definition Setup :: "e2e_world \<Rightarrow> e2e" where
  "Setup w =
     seq (validateInput w)
    (seq (loadE2EConfig w)
    (seq (expect (\<lambda>m. em_Cfg m \<noteq> None) ''unexpected nil'')
    (seq (bootstrapLocalKind w)
    (seq (expect (\<lambda>m. em_ClusterProxy m \<noteq> None) ''unexpected nil'')
    (seq (createClusterctlRepo w)
    (seq (expect (\<lambda>m. em_ClusterctlCfg m \<noteq> '''') ''unexpected empty string'')
         (initKindCluster w)))))))"

definition Teardown :: "EnvManager \<Rightarrow> e2e_call list" where
  "Teardown m =
     (if \<not> SkipCleanup (em_Params m) \<and> \<not> UseExistingCluster (em_Params m)
      then (case em_ClusterProvider m of None \<Rightarrow> [] | Some p \<Rightarrow> [DisposeProvider p]) @
           (case em_ClusterProxy m of None \<Rightarrow> [] | Some p \<Rightarrow> [DisposeProxy p])
      else [])"

section \<open>What is taken down\<close>

text \<open>
  A method that is started in a state with \<open>P\<close> leaves one with \<open>Q\<close>, also when an assertion aborts it.
\<close>

definition leaves :: "(e2e_state \<Rightarrow> bool) \<Rightarrow> e2e \<Rightarrow> (e2e_state \<Rightarrow> bool) \<Rightarrow> bool" where
  "leaves P a Q \<longleftrightarrow> (\<forall>s. P s \<longrightarrow> Q (snd (a s)))"

named_theorems leaves_rules \<open>rules for \<open>leaves\<close>\<close>

lemma leaves_seq_gen:
  assumes "leaves P a R" "leaves R b Q" "\<And>s. R s \<Longrightarrow> Q s"
  shows "leaves P (seq a b) Q"
  unfolding leaves_def
proof (intro allI impI)
  fix s
  assume "P s"
  then have R: "R (snd (a s))" using assms(1) unfolding leaves_def by blast
  then have "Q (snd (b (snd (a s))))" using assms(2) unfolding leaves_def by blast
  with assms(3) [OF R] show "Q (snd (seq a b s))"
    unfolding seq_def by (cases "a s"; cases "fst (a s)") simp_all
qed

lemma leaves_seq [leaves_rules]: "leaves P a P \<Longrightarrow> leaves P b P \<Longrightarrow> leaves P (seq a b) P"
  by (rule leaves_seq_gen)

lemma leaves_seq_into: "leaves P a R \<Longrightarrow> leaves R b R \<Longrightarrow> leaves P (seq a b) R"
  by (rule leaves_seq_gen)

lemmas leaves_seq_after = leaves_seq_gen [where R = P and P = P for P]

lemma leaves_basic [leaves_rules]:
  "leaves P (expect C msg) P" "leaves P (\<lambda>s. (Return (), s)) P"
  "(\<And>cfg. leaves P (f cfg) P) \<Longrightarrow> leaves P (with_Cfg f) P" "(\<And>p. leaves P (g p) P) \<Longrightarrow> leaves P (with_Params g) P"
  by (auto simp: leaves_def expect_def with_Cfg_def with_Params_def split: option.split)

text \<open>No kind cluster has been made yet; the manager knows the one that has been made.\<close>

definition untouched :: "Params \<Rightarrow> e2e_state \<Rightarrow> bool" where
  "untouched p s \<longleftrightarrow> em_Params (fst s) = p \<and> em_ClusterProvider (fst s) = None \<and>
     (\<forall>k. CreateKindBootstrapClusterAndLoadImages k \<notin> set (snd s))"

definition tracked :: "e2e_world \<Rightarrow> Params \<Rightarrow> e2e_state \<Rightarrow> bool" where
  "tracked w p s \<longleftrightarrow> em_Params (fst s) = p \<and>
     (\<forall>x. em_ClusterProvider (fst s) = Some x \<longleftrightarrow>
        (\<exists>k. CreateKindBootstrapClusterAndLoadImages k \<in> set (snd s) \<and> ew_CreateKind w k = Some x)) \<and>
     (UseExistingCluster p \<longrightarrow> (\<forall>k. CreateKindBootstrapClusterAndLoadImages k \<notin> set (snd s)))"

lemma untouched_tracked: "untouched p s \<Longrightarrow> tracked w p s"
  by (auto simp: untouched_def tracked_def)

lemma leaves_calls [leaves_rules]:
  assumes "\<And>k. c \<noteq> CreateKindBootstrapClusterAndLoadImages k"
  shows "leaves (untouched p) (make_call c) (untouched p)" "leaves (tracked w p) (make_call c) (tracked w p)"
  using assms by (auto simp: leaves_def make_call_def untouched_def tracked_def)

lemma leaves_assign [leaves_rules]:
  assumes "\<And>m. em_Params (f m) = em_Params m" "\<And>m. em_ClusterProvider (f m) = em_ClusterProvider m"
  shows "leaves (untouched p) (assign f) (untouched p)" "leaves (tracked w p) (assign f) (tracked w p)"
  using assms by (simp_all add: leaves_def assign_def untouched_def tracked_def)

lemma validateInput_leaves: "leaves P (validateInput w) P"
  unfolding validateInput_def by (intro leaves_rules)

lemma loadE2EConfig_leaves: "leaves (untouched p) (loadE2EConfig w) (untouched p)"
  unfolding loadE2EConfig_def by (intro leaves_rules) simp_all

lemma pullImages_leaves: "leaves (untouched p) (pullImages w) (untouched p)"
proof -
  have "leaves (untouched p) (pull_loop w imgs) (untouched p)" for imgs
    by (induction imgs) (auto intro!: leaves_rules)
  then show ?thesis unfolding pullImages_def by (intro leaves_rules) simp_all
qed

lemma create_kind_leaves: "\<not> UseExistingCluster p \<Longrightarrow> leaves (untouched p) (create_kind w) (tracked w p)"
  by (auto simp: leaves_def untouched_def tracked_def create_kind_def with_Params_def with_Cfg_def seq_def make_call_def
      assign_def expect_def Let_def split: option.split)

lemma bootstrapLocalKind_leaves: "leaves (untouched p) (bootstrapLocalKind w) (tracked w p)"
proof -
  let ?kind = "if \<not> UseExistingCluster p then seq (pullImages w) (create_kind w) else (\<lambda>s. (Return (), s))"
  let ?proxy = "\<lambda>s. let kubeconfigPath = (if \<not> UseExistingCluster p
                    then ew_GetKubeconfigPath w (the (em_ClusterProvider (fst s))) else '''')
              in seq (make_call (NewClusterProxy ''bootstrap'' kubeconfigPath))
                     (assign (\<lambda>m. m\<lparr>em_ClusterProxy := ew_NewClusterProxy w ''bootstrap'' kubeconfigPath,
                                    em_KubeconfigPath := kubeconfigPath\<rparr>)) s"
  have kind: "leaves (untouched p) ?kind (tracked w p)"
    using leaves_seq_after [OF pullImages_leaves create_kind_leaves untouched_tracked, of p w] untouched_tracked [of p _ w]
    by (auto simp: leaves_def)
  have "leaves (tracked w p) ?proxy (tracked w p)"
    by (auto simp: leaves_def tracked_def seq_def make_call_def assign_def Let_def)
  from leaves_seq_into [OF kind this] show ?thesis
    by (auto simp: leaves_def bootstrapLocalKind_def with_Params_def untouched_def)
qed

lemma Setup_tracked: "tracked w p (snd (Setup w (NewEnvManager p, [])))"
proof -
  have rest: "leaves (tracked w p) (createClusterctlRepo w) (tracked w p)" "leaves (tracked w p) (initKindCluster w) (tracked w p)"
    unfolding createClusterctlRepo_def initKindCluster_def
    by (intro leaves_rules; simp)
      (auto simp: leaves_def tracked_def with_Params_def with_Cfg_def make_call_def split: option.split)
  have "leaves (untouched p) (Setup w) (tracked w p)"
    unfolding Setup_def
    by (intro leaves_seq_after [OF validateInput_leaves] leaves_seq_after [OF loadE2EConfig_leaves]
        leaves_seq_after [OF leaves_basic(1)] leaves_seq_into [OF bootstrapLocalKind_leaves] leaves_seq leaves_basic(1) rest
        untouched_tracked)
  then show ?thesis by (simp add: leaves_def untouched_def NewEnvManager_def)
qed

text \<open>
  However far \<open>Setup\<close> got, \<open>Teardown\<close> disposes of the kind cluster that \<open>Setup\<close> made and of no other; a
  management cluster that was there before is neither replaced nor disposed of.
\<close>

lemma teardown_disposes_created:
  fixes w p
  defines "m \<equiv> fst (snd (Setup w (NewEnvManager p, [])))" and "calls \<equiv> snd (snd (Setup w (NewEnvManager p, [])))"
  shows "DisposeProvider x \<in> set (Teardown m) \<longleftrightarrow> \<not> SkipCleanup p \<and>
      (\<exists>k. CreateKindBootstrapClusterAndLoadImages k \<in> set calls \<and> ew_CreateKind w k = Some x)"
    and "UseExistingCluster p \<Longrightarrow> Teardown m = [] \<and> (\<forall>k. CreateKindBootstrapClusterAndLoadImages k \<notin> set calls)"
  using Setup_tracked [of w p] unfolding m_def calls_def
  by (auto simp: tracked_def Teardown_def eq_commute [of "Some x"] split: option.splits)

lemma providers_filter: "providers cfg ty = map fst (filter (\<lambda>(name, ty'). ty' = ty) (ec_Providers cfg))"
proof -
  have "foldl (\<lambda>pList (name, ty'). if ty' = ty then pList @ [name] else pList) acc ps =
      acc @ map fst (filter (\<lambda>(name, ty'). ty' = ty) ps)" for acc ps
    by (induction ps arbitrary: acc) auto
  from this [of "[]" "ec_Providers cfg"] show ?thesis by simp
qed

end
