(* ===== verification/Spec2Isabelle.thy ===== *)
theory Spec2Isabelle
  imports Go_Encoding Scope_Heap Fake_Locks Stale_Reads Fleet Progress Manager E2E_Manager
begin

text \<open>
  A verification library for cluster-api-provider-microvm, the Cluster API infrastructure provider
  that runs Kubernetes machines as microvms on flintlock hosts.

  \<^bold>\<open>The program.\<close> One process (\<^verbatim>\<open>main.go\<close>) starts a manager with two controllers and three
  admission webhooks. The cluster controller (\<^verbatim>\<open>controllers/microvmcluster_controller.go\<close>) publishes
  the flintlock hosts of a MicrovmCluster as failure domains and marks it ready. The machine
  controller (\<^verbatim>\<open>controllers/microvmmachine_controller.go\<close>) picks a failure domain for a MicrovmMachine,
  connects to the flintlock host there, and creates, observes or deletes the microvm of the machine;
  a finalizer on the object keeps it stored until the microvm is gone. Both work on a scope
  (\<^verbatim>\<open>internal/scope\<close>): the objects of one reconciliation, with accessors, mutators and the deferred
  patch. The webhooks (\<^verbatim>\<open>internal/webhook\<close>) set defaults and refuse changes of immutable specs.

  \<^bold>\<open>How the code is modelled.\<close> A struct is a record with the fields of the source, an interface value
  or a state of flintlock a datatype, a pointer or a slice or map that may be nil an option. A
  result \<open>(T, error)\<close> is \<open>error + T\<close> where exactly one of the two is set and a pair where the code can
  see both. A nil dereference or an index out of range is the outcome \<open>Panic\<close>, which the deferred
  calls survive. A method that writes through its receiver returns the scope it leaves. All
  definitions are total and executable: every loop of the program ranges over a finite slice, map or
  string, so no fuel is needed anywhere. Objects are values, except where sharing is the point: the
  deep copies work on a heap of cells with pointers, slices and maps as addresses, and the methods of the
  machine scope that write are given on this heap as well and shown to agree with those on values.

  The code of other modules (the Kubernetes client, Cluster API, controller-runtime, the flintlock
  client and the microvm service of controller-pkg, macpot) is a record \<open>env\<close> of functions that every
  definition calling it takes as an argument. Each call is an event; an answer of the environment may
  depend on all the events before it, so that the world may change at every call. What a property
  needs to know of this code is a named predicate: \<open>finalizer_laws\<close> (adding and removing a finalizer),
  \<open>finalizer_idle\<close> (removing one that is not there changes nothing), \<open>patch_frame\<close> and
  \<open>cluster_patch_frame\<close> (the patch helper leaves the object it is given as it is), \<open>service_frame\<close> (the
  microvm service writes at most the labels of the microvm spec), \<open>service_complete\<close> (a microvm that
  flintlock returns has a spec with a uid and a status), \<open>copies_ok\<close> (the deep copies of the structs of
  other modules are deep), \<open>marks_ok\<close> (marking a condition in memory writes only the object and its
  array of conditions), \<open>plain_uids\<close> (a uid that flintlock makes does not begin with a slash; with the
  frames above it makes up \<open>lawful\<close>), \<open>quiet\<close> (a stub of a test does not call the fake it is installed
  in), \<open>adds_types\<close> and \<open>grows_scheme\<close> (registering types adds at least these and removes none), and
  for progress \<open>served\<close>, \<open>boots\<close> and \<open>winds_down\<close> (the API server answers, and flintlock gets a microvm
  running, or gone, within a number of lookups). \<open>Fixtures\<close> holds an environment that satisfies the
  general ones, on which the witnesses run the model. The theories on repeated runs suppose more of
  the world around: \<open>same_domain\<close> (the failure domain of the owner Machine stays the same), \<open>truthful\<close> (what
  flintlock answers is true of the microvm it was asked for), and what their step relations say.

  \<^bold>\<open>The theories.\<close>
  \<^item> \<open>Go_Prelude\<close>: outcomes, the package \<^verbatim>\<open>strings\<close>, the shared lemma collections.
    \<open>Go_Encoding\<close>: CRC-32 on 32-bit words, base64 with a decoder and their round trip.
    \<open>Go_Errors\<close>: error values, wrapping, \<open>isSpecNotFound\<close>; the errors of \<^verbatim>\<open>controllers/errors.go\<close>
    and \<^verbatim>\<open>internal/scope/errors.go\<close>.
  \<^item> \<open>Api_Types\<close>: \<^verbatim>\<open>api/v1alpha1/*_types.go\<close>, \<^verbatim>\<open>types.go\<close>, \<^verbatim>\<open>condition_consts.go\<close>; the locale
    \<open>conditions_setter\<close> is the interface \<open>conditions.Setter\<close> of both resources.
    \<open>Externals\<close>: the environment, the events and the named predicates.
  \<^item> \<open>Provider_Id\<close>: \<^verbatim>\<open>internal/scope/providerid.go\<close>, with the regular expression as a syntax tree
    and an executable matcher proved equal to it.
  \<^item> \<open>Machine_Scope\<close>: \<^verbatim>\<open>internal/scope/machine.go\<close>. The failure domain: within bounds, the same for
    every iteration order of the map, and fixed once the provider id is set (locale \<open>id_codec\<close>: what
    a provider id encodes can be read back). Bootstrap data, labels, TLS data and tokens.
  \<^item> \<open>Cluster_Scope\<close>: \<^verbatim>\<open>internal/scope/cluster.go\<close> and \<^verbatim>\<open>scope.go\<close>; the locale \<open>scoper\<close> is the interface
    \<open>Scoper\<close> with the laws of the deferred patch, interpreted for both scopes.
  \<^item> \<open>Cluster_Controller\<close>: the cluster controller; what it publishes, on which branch, and that it
    writes only through its patch.
  \<^item> \<open>Machine_Controller\<close>: the machine controller. The relations \<open>normal_rest\<close>, \<open>delete_rest\<close>,
    \<open>body_run\<close> and \<open>legal_run\<close> specify the protocol it keeps with the API server and flintlock as a set
    of event sequences, and every run is shown to be among them.
    \<open>Machine_Properties\<close>: the finalizer is persisted before a microvm is created, a deleted machine is
    released exactly when its microvm is gone, one microvm operation for a run, every client is
    closed. \<open>Machine_Outcomes\<close>: what a successful run publishes, when a machine is ready, when a run
    can panic. \<open>Machine_Effects\<close>: waiting, creating and deleting branch by branch, the failures that
    are not reported, and the mapping of cluster events to machines.
  \<^item> \<open>Lifecycle\<close>: the machine controller run again and again in a world that moves on its own, and
    stopped at any point. The world has any number of microvms, each with its host and uid, and a lookup
    tells of the one it asks for only. In every reachable world a microvm whose provider id was stored
    once is held by a stored object with this provider id and the finalizer; a microvm that was created
    and never recorded can be lost, and a history in which one is lost is given. The controller is
    supposed to read the stored object and not an older one.
  \<^item> \<open>Stale_Reads\<close>: the finalizer without this supposition. The reads come from a cache that lags behind,
    though never back beyond an earlier read, and a patch sends no more than its difference to the version
    that was read, to be merged into whatever is stored by then. The invariant \<open>settled\<close> orders the
    versions a read may still return. A microvm is created only while the stored object carries the
    finalizer, and no patch takes it from a live object; but a run that reads a version from before the
    provider id was stored creates a second microvm.
  \<^item> \<open>Fleet\<close>: both controllers at once: any number of runs interleaved event by event and stopped anywhere,
    with reads that may return any version ever stored, while users and Cluster API store objects. An
    invariant follows the addresses of the hosts from the pools to the flintlock clients: no client is
    made for an address that no pool has listed (\<open>slash_free\<close>: addresses have no slash).
  \<^item> \<open>Progress\<close>: the machine controller run again and again against a flintlock that does its part: a
    live machine becomes ready and stays ready, a deleted one loses its finalizer, within a bound.
  \<^item> \<open>Webhooks\<close>: \<^verbatim>\<open>internal/webhook\<close> and the defaulting and validation of \<^verbatim>\<open>api/v1alpha1\<close>; the locale
    \<open>custom_validator\<close> is the interface \<open>CustomValidator\<close>, interpreted for the three webhooks.
  \<^item> \<open>Registration\<close>: the scheme (\<^verbatim>\<open>groupversion_info.go\<close>, the \<open>init\<close> functions of the types,
    \<open>RegisterDefaults\<close>), \<open>SetupWithManager\<close> of both controllers and \<open>SetupWebhookWithManager\<close> of the three
    webhooks, with their watches, filters and map functions as data. \<open>Manager\<close>: \<^verbatim>\<open>main.go\<close> and
    \<^verbatim>\<open>version/version.go\<close>: the flags, the options and the order of the start; what the process registers
    fits to the scheme it made.
  \<^item> \<open>Go_Heap\<close>: memory as a list of cells; pointers, slices with an offset and a length, maps; the copies
    that generated code makes of them. A layout says which cells a value owns and what it stands for;
    the locales \<open>memory_layout\<close> and \<open>deep_copier\<close> are the laws of a layout and of a copy, with a lemma for
    each way to put copies together. \<open>Memory_Types\<close>: the API types as they lie in memory and their
    layouts. \<open>Deep_Copy\<close>: \<^verbatim>\<open>zz_generated.deepcopy.go\<close>, method by method; a copy stands for the same
    value and shares no cell with the original. \<open>Scope_Heap\<close>: the machine scope in memory; the locale
    \<open>scope_write\<close> is the contract of a method that writes (the object becomes what the method on values
    says, only a few cells are written), closed under sequences of calls. \<open>GetLabels\<close> writes into a map
    that specs handed out before share.
  \<^item> \<open>Fake_Client\<close>: \<^verbatim>\<open>controllers/fakes/fake_client.go\<close>, the fake flintlock client of the controller tests:
    what it records and answers (locale \<open>fake_slot\<close>, interpreted for the five methods with results).
    \<open>Fake_Locks\<close>: its mutexes as lock programs interleaved by a step relation, with the semantics of
    \<open>sync.RWMutex\<close> (a waiting writer holds back new readers); the methods never deadlock among
    themselves, \<open>Invocations\<close> can with any of them.
  \<^item> \<open>E2E_Utils\<close>, \<open>E2E_Manager\<close>: \<^verbatim>\<open>test/e2e/utils\<close>: the parameters, the template with the flintlock hosts,
    the management cluster of the tests and its removal, and the count of failure domains that the tests
    check, shown to be the number of hosts at which the machine controller looks for the microvms.
  \<^item> This theory: the properties that span components. The machines of a cluster are placed on the
    hosts its controller published and become ready there; webhook and controller agree on what a
    placement is; and the webhook refuses the provider id that the machine controller writes.

  \<^bold>\<open>Not modelled.\<close> Logging and the contexts that are passed along; how \<open>pflag\<close> parses a command line and
  which flags other modules add (what comes of the flags is a parameter); the tests themselves; the
  files that only name tools for code generation. No line of the controllers, scopes, webhooks or the
  process that decides anything is left out.

  \<^bold>\<open>Order.\<close> Modelled first is what decides over microvms: scope, machine controller, its protocol and
  life cycle; then the cluster controller, the webhooks, the process and its registrations; then memory
  (deep copies, the scope) and the test fake with its locks; last both controllers together and
  the finalizer behind a cache that lags. (The controllers cannot be run against the fake
  client: the microvm service between them is code of another module.)
\<close>

section \<open>Placement across the two controllers\<close>

lemma published_placement:
  assumes "cluster_admitted E req h c cl" "e_TimeIsZero E (om_DeletionTimestamp (mc_ObjectMeta c))"
    and "\<not> e_EndpointIsZero E (cl_Spec_ControlPlaneEndpoint cl)"
    and "pl_StaticPool (cs_Placement (mc_Spec c)) = Some pool" "elems (sp_Hosts pool) \<noteq> []"
    and "last (snd (ClusterReconciler_Reconcile E req h)) = PatchCluster c' ts"
    and "cl_Status_FailureDomains (sc_Cluster m) = cst_FailureDomains (mc_Status c')" "unplaced m"
  shows "\<exists>host \<in> set (elems (sp_Hosts pool)). GetFailureDomain m = Return (Inr (host_Endpoint host))"
proof -
  let ?cs = "cluster_scope_of c cl" and ?h = "h @ cluster_preamble req c"
  have live: "\<not> (e_EndpointIsZero E (cl_Spec_ControlPlaneEndpoint (csc_Cluster ?cs)) \<and>
      e_EndpointIsZero E (cs_ControlPlaneEndpoint (mc_Spec (csc_MvmCluster ?cs))))"
    and pool: "pl_StaticPool (cs_Placement (mc_Spec (csc_MvmCluster ?cs))) = Some pool"
    using assms(3,4) by (simp_all add: cluster_scope_of_def)
  have "cst_FailureDomains (mc_Status c') = Some (host_domains (elems (sp_Hosts pool)))"
    using cluster_Reconcile_admitted [OF assms(1)] assms(2,6) reconcileNormal_object(3) [OF live pool, where h = ?h]
    by (auto simp: ClusterScope_Patch_event cluster_setters_parts)
  then have names: "set (failure_domain_names m) = host_Endpoint ` set (elems (sp_Hosts pool))"
    using assms(7) keys_host_domains [of "elems (sp_Hosts pool)"] by simp
  then have ne: "failure_domain_names m \<noteq> []" using assms(5) by auto
  then show ?thesis
    using GetFailureDomain_unplaced [OF assms(8)] chosen_domain_in [OF ne, of "machine_name (sc_MvmMachine m)"] names
    by auto
qed

text \<open>
  C15: from the pool to a running machine. Let the cluster controller publish a MicrovmCluster with a
  static pool that has a host, and let the Cluster carry the failure domains it published. Take a live
  machine of this cluster with neither a failure domain nor a provider id of its own, an API server that
  serves its requests and a flintlock that boots its microvm within \<open>k\<close> lookups. Then there is one host of
  the pool, and a number \<open>N \<le> k + 1\<close>, such that the runs of the machine controller before the \<open>N\<close>-th leave
  the machine not ready and ask to be run again, and from the \<open>N\<close>-th on it is ready, with the provider id
  of the microvm at this host.
\<close>

theorem pool_runs_machines:
  assumes "cluster_admitted E' req' h c cl" "e_TimeIsZero E' (om_DeletionTimestamp (mc_ObjectMeta c))"
    and "\<not> e_EndpointIsZero E' (cl_Spec_ControlPlaneEndpoint cl)"
    and "pl_StaticPool (cs_Placement (mc_Spec c)) = Some pool" "elems (sp_Hosts pool) \<noteq> []"
    and "\<forall>host \<in> set (elems (sp_Hosts pool)). CHR ''/'' \<notin> set (host_Endpoint host)"
    and "last (snd (ClusterReconciler_Reconcile E' req' h)) = PatchCluster c' ts"
    and "cl_Status_FailureDomains (f_cluster f) = cst_FailureDomains (mc_Status c')" "unplaced (machine_scope_of (f\<lparr>f_mvm := m\<rparr>))"
    and "served E req m f" "patch_frame E" "service_frame E" "boots E k uid" "uid = '''' \<or> hd uid \<noteq> CHR ''/''"
    and "e_TimeIsZero E (om_DeletionTimestamp (mm_ObjectMeta m))" "provisionable (machine_scope_of f)"
  shows "\<exists>host \<in> set (elems (sp_Hosts pool)). \<exists>N \<le> k + 1.
    (\<forall>n < N. run_result E req n = Return (zero_Result\<lparr>RequeueAfter := requeuePeriod\<rparr>, None) \<and>
       \<not> machine_ready (after_run E req m n)) \<and>
    (\<forall>n \<ge> N. run_result E req n = Return (zero_Result, None) \<and> machine_ready (after_run E req m n) \<and>
       machine_provider_id (after_run E req m n) = Some (ProviderPrefix @ host_Endpoint host @ ''/'' @ uid))"
proof -
  have "cl_Status_FailureDomains (sc_Cluster (machine_scope_of (f\<lparr>f_mvm := m\<rparr>))) = cst_FailureDomains (mc_Status c')"
    using assms(8) by (simp add: machine_scope_of_def)
  from published_placement [OF assms(1-5,7) this assms(9)] obtain host where host: "host \<in> set (elems (sp_Hosts pool))"
    and fd: "GetFailureDomain (machine_scope_of (f\<lparr>f_mvm := m\<rparr>)) = Return (Inr (host_Endpoint host))" by blast
  have "CHR ''/'' \<notin> set (host_Endpoint host)" using assms(6) host by blast
  note pid = boot_host [OF assms(10-13,15,16) fd this assms(14)]
  show ?thesis
  proof (rule boot_threshold [OF assms(10-13,15,16)], goal_cases)
    case (1 N)
    then show ?case using host pid by blast
  qed
qed

text \<open>The world of the witness: the pool of the fixture, and a machine that nobody has placed.\<close>

definition fx_unplaced :: found where
  "fx_unplaced = (fx_found fx_mvm_machine)\<lparr>f_machine := fx_machine\<lparr>m_Spec_FailureDomain := None\<rparr>,
     f_cluster := fx_cluster\<lparr>cl_Status_FailureDomains := Some (host_domains (elems (sp_Hosts fx_pool)))\<rparr>\<rparr>"

definition fx_pooled :: env where
  "fx_pooled = fx_booting\<lparr>e_GetOwnerMachine := \<lambda>h om. Inr (Some (f_machine fx_unplaced)),
     e_GetClusterFromMetadata := \<lambda>h om. Inr (f_cluster fx_unplaced)\<rparr>"

lemma fx_pooled_served: "served fx_pooled (fx_key ''machine1'') fx_mvm_machine fx_unplaced"
  by (simp add: served_def fx_pooled_def fx_unplaced_def fx_booting_def fx_found_def getMicrovmService_def GetBasicAuthToken_def
      GetTLSConfig_def Let_def host_domains_def fx_defs)

theorem pool_runs_machines_witness:
  "\<exists>N \<le> 2. machine_ready (after_run fx_pooled (fx_key ''machine1'') fx_mvm_machine N) \<and>
     machine_provider_id (after_run fx_pooled (fx_key ''machine1'') fx_mvm_machine N) =
       Some ''microvm://127.0.0.1:9090/ABCDEF''"
proof -
  have adm: "cluster_admitted fx_env (fx_key ''tenant1'') [] fx_mvm_cluster fx_cluster"
    by (simp add: cluster_admitted_def fx_defs)
  have "\<exists>c' ts. last (snd (ClusterReconciler_Reconcile fx_env (fx_key ''tenant1'') [])) = PatchCluster c' ts \<and>
      cst_FailureDomains (mc_Status c') = Some (host_domains (elems (sp_Hosts fx_pool)))"
    by (simp add: ClusterReconciler_Reconcile_def ClusterReconciler_reconcileNormal_def NewClusterScope_def
        WithClusterLogger_def setFailureDomains_def ClusterScope_Placement_def update_MvmCluster_def
        set_cluster_ready_def set_failure_domains_def IsSet_def isAPIServerAvailable_def ClusterScope_ClusterName_def
        ClusterScope_Patch_def MicrovmCluster_SetConditions_def MicrovmCluster_GetConditions_def
        with_deferred_patch_def Let_def fx_defs)
  then obtain c' ts where last: "last (snd (ClusterReconciler_Reconcile fx_env (fx_key ''tenant1'') [])) = PatchCluster c' ts"
    and fds: "cst_FailureDomains (mc_Status c') = Some (host_domains (elems (sp_Hosts fx_pool)))" by blast
  have laws: "patch_frame fx_pooled" "service_frame fx_pooled" "boots fx_pooled 1 ''ABCDEF''"
    using fx_world_laws(1,2) by (simp_all add: fx_pooled_def patch_frame_def service_frame_def boots_def fx_booting_def)
  have "\<exists>host \<in> set (elems (sp_Hosts fx_pool)). \<exists>N \<le> 1 + 1.
    (\<forall>n < N. run_result fx_pooled (fx_key ''machine1'') n = Return (zero_Result\<lparr>RequeueAfter := requeuePeriod\<rparr>, None) \<and>
       \<not> machine_ready (after_run fx_pooled (fx_key ''machine1'') fx_mvm_machine n)) \<and>
    (\<forall>n \<ge> N. run_result fx_pooled (fx_key ''machine1'') n = Return (zero_Result, None) \<and>
       machine_ready (after_run fx_pooled (fx_key ''machine1'') fx_mvm_machine n) \<and>
       machine_provider_id (after_run fx_pooled (fx_key ''machine1'') fx_mvm_machine n) =
         Some (ProviderPrefix @ host_Endpoint host @ ''/'' @ ''ABCDEF''))"
    by (rule pool_runs_machines [OF adm _ _ _ _ _ last _ _ fx_pooled_served laws])
       (use fds in \<open>simp_all add: unplaced_def GetProviderID_def fx_unplaced_def fx_pooled_def fx_booting_def fx_found_def
          machine_scope_of_def fx_defs\<close>)
  moreover have "host_Endpoint host = ''127.0.0.1:9090''" if "host \<in> set (elems (sp_Hosts fx_pool))" for host
    using that by (simp add: fx_pool_def)
  ultimately obtain N where N: "N \<le> 1 + 1" "\<forall>n \<ge> N. machine_ready (after_run fx_pooled (fx_key ''machine1'') fx_mvm_machine n) \<and>
       machine_provider_id (after_run fx_pooled (fx_key ''machine1'') fx_mvm_machine n) =
         Some (ProviderPrefix @ ''127.0.0.1:9090'' @ ''/'' @ ''ABCDEF'')" by fastforce
  then show ?thesis by (intro exI [of _ N]) (simp add: ProviderPrefix_def)
qed

section \<open>The webhooks and the controllers\<close>

text \<open>
  The webhook and the cluster controller agree on what a placement is: the controller fails to
  publish the failure domains of a cluster exactly when the webhook would refuse to create it.
\<close>

lemma placement_agreement:
  "fst (setFailureDomains cs) \<noteq> None \<longleftrightarrow>
     snd (MicrovmCluster_ValidateCreate (Obj_MicrovmCluster (csc_MvmCluster cs))) \<noteq> None"
  by (auto simp: setFailureDomains_def MicrovmCluster_ValidateCreate_def Placement_Validate_def IsSet_def
      ClusterScope_Placement_def Let_def split: option.splits)

text \<open>
  C25: the machine controller and the update webhook contradict each other. The first successful
  reconciliation of a machine without a provider id patches an object whose spec has one, and the
  webhook refuses exactly such an update: the spec is immutable.
\<close>

theorem provider_id_refused:
  assumes "machine_admitted E req h f" "e_TimeIsZero E (om_DeletionTimestamp (mm_ObjectMeta (f_mvm f)))"
    and "provisionable (machine_scope_of f)"
    and "finalizer_laws E" "patch_frame E" "service_frame E"
    and "fst (MachineReconciler_Reconcile E req h) = Return (res, None)"
    and "machine_provider_id (f_mvm f) = None"
  shows "\<exists>m' ts. last (snd (MachineReconciler_Reconcile E req h)) = PatchMachine m' ts \<and>
    MicrovmMachine_ValidateUpdate (Obj_MicrovmMachine (f_mvm f)) (Obj_MicrovmMachine m') =
      ([], Some (BadRequest ''microvm machine spec is immutable''))"
proof -
  obtain fd uid m' where "last (snd (MachineReconciler_Reconcile E req h)) = PatchMachine m' machine_owned"
    and pid: "machine_provider_id m' = Some (ProviderPrefix @ fd @ ''/'' @ uid)"
    using machine_success_settles [OF assms(1-7)] by blast
  moreover have "mm_Spec m' \<noteq> mm_Spec (f_mvm f)" using pid assms(8) by auto
  ultimately show ?thesis by (auto simp: MicrovmMachine_ValidateUpdate_def)
qed

theorem provider_id_refused_witness:
  "\<exists>m' ts. last (snd (MachineReconciler_Reconcile fx_env (fx_key ''machine1'') [])) = PatchMachine m' ts \<and>
    MicrovmMachine_ValidateUpdate (Obj_MicrovmMachine fx_mvm_machine) (Obj_MicrovmMachine m') =
      ([], Some (BadRequest ''microvm machine spec is immutable''))"
proof -
  let ?f = "fx_found fx_mvm_machine"
  have mvm: "f_mvm ?f = fx_mvm_machine" by (simp add: fx_found_def)
  have adm: "machine_admitted fx_env (fx_key ''machine1'') [] ?f"
    by (simp add: machine_admitted_def fx_found_def fx_defs)
  have live: "e_TimeIsZero fx_env (om_DeletionTimestamp (mm_ObjectMeta (f_mvm ?f)))"
    and prov: "provisionable (machine_scope_of ?f)" and pid: "machine_provider_id (f_mvm ?f) = None"
    by (simp_all add: fx_found_def machine_scope_of_def fx_defs)
  have "fst (MachineReconciler_Reconcile fx_env (fx_key ''machine1'') []) = Return (requeue_later, None)"
    by (simp add: machine_defs fx_defs)
  from provider_id_refused [OF adm live prov fx_finalizer_laws(1) fx_patch_frame(1) fx_service_frame(1) this pid]
  show ?thesis unfolding mvm .
qed

end
